(* ===== verification/HD_Prelude.thy ===== *)
theory HD_Prelude
  imports Main "HOL-Library.State_Monad" "HOL-Library.Char_ord" "HOL-Library.List_Lexorder"
begin

text \<open>
  Shared vocabulary of the development: the weakest-precondition calculus for code written in
  the state monad, the pieces of Go's \<^verbatim>\<open>strings\<close>, \<^verbatim>\<open>strconv\<close> and \<^verbatim>\<open>fmt\<close> packages the sources
  call, and Go maps with string keys as key-sorted association lists.

  A Go \<^verbatim>\<open>string\<close> is a sequence of bytes, so it is a HOL \<open>string\<close> (a list of 8-bit characters);
  an \<^verbatim>\<open>error\<close> is the text of its \<^verbatim>\<open>Error()\<close> method; a function returning \<^verbatim>\<open>(T, error)\<close> returns a
  value of \<open>error + 't\<close>, and one returning only an \<^verbatim>\<open>error\<close> returns \<open>error option\<close> with \<open>None\<close>
  for \<^verbatim>\<open>nil\<close>.
\<close>

named_theorems wp_simps \<open>weakest preconditions of state-monad programs\<close>
named_theorems gomap_simps \<open>lookups in Go maps\<close>

type_synonym error = string
type_synonym 'v gomap = "(string \<times> 'v) list"

section \<open>Weakest preconditions for the state monad\<close>

definition wp :: "('s, 'a) state \<Rightarrow> ('a \<Rightarrow> 's \<Rightarrow> bool) \<Rightarrow> 's \<Rightarrow> bool" where
  "wp m Q s = (case run_state m s of (x, t) \<Rightarrow> Q x t)"

definition modify_state :: "('s \<Rightarrow> 's) \<Rightarrow> ('s, unit) state" where
  "modify_state f = State (\<lambda>s. ((), f s))"

definition gets_state :: "('s \<Rightarrow> 'a) \<Rightarrow> ('s, 'a) state" where
  "gets_state f = State (\<lambda>s. (f s, s))"

section \<open>Strings\<close>

text \<open>\<^verbatim>\<open>strings.HasPrefix\<close>, \<^verbatim>\<open>HasSuffix\<close>, \<^verbatim>\<open>TrimPrefix\<close> and \<^verbatim>\<open>TrimSuffix\<close>.\<close>

definition hasPrefix :: "string \<Rightarrow> string \<Rightarrow> bool" where
  "hasPrefix s p \<longleftrightarrow> take (length p) s = p"

definition hasSuffix :: "string \<Rightarrow> string \<Rightarrow> bool" where
  "hasSuffix s p \<longleftrightarrow> length p \<le> length s \<and> drop (length s - length p) s = p"

definition trimPrefix :: "string \<Rightarrow> string \<Rightarrow> string" where
  "trimPrefix s p = (if hasPrefix s p then drop (length p) s else s)"

definition trimSuffix :: "string \<Rightarrow> string \<Rightarrow> string" where
  "trimSuffix s p = (if hasSuffix s p then take (length s - length p) s else s)"

text \<open>\<^verbatim>\<open>strings.Split\<close> with a one-byte separator: never empty, one more piece than separators.\<close>

fun splitOn :: "char \<Rightarrow> string \<Rightarrow> string list" where
  "splitOn c [] = [[]]"
| "splitOn c (x # xs) =
     (if x = c then [] # splitOn c xs
      else (case splitOn c xs of [] \<Rightarrow> [[x]] | p # ps \<Rightarrow> (x # p) # ps))"

text \<open>\<^verbatim>\<open>strings.Join\<close>.\<close>

fun joinWith :: "string \<Rightarrow> string list \<Rightarrow> string" where
  "joinWith sep [] = []"
| "joinWith sep [p] = p"
| "joinWith sep (p # q # ps) = p @ sep @ joinWith sep (q # ps)"

text \<open>Decimal and hexadecimal digits.\<close>

definition digit_char :: "nat \<Rightarrow> char" where
  "digit_char d = char_of (if d < 10 then 48 + d else 87 + d)"

fun show_nat :: "nat \<Rightarrow> string" where
  "show_nat n = (if n < 10 then [digit_char n] else show_nat (n div 10) @ [digit_char (n mod 10)])"

declare show_nat.simps [simp del]

definition show_int :: "int \<Rightarrow> string" where
  "show_int i = (if i < 0 then ''-'' @ show_nat (nat (- i)) else show_nat (nat i))"

definition is_digit :: "char \<Rightarrow> bool" where
  "is_digit c \<longleftrightarrow> CHR ''0'' \<le> c \<and> c \<le> CHR ''9''"

definition digit_val :: "char \<Rightarrow> nat" where
  "digit_val c = of_char c - 48"

definition digits_val :: "string \<Rightarrow> nat" where
  "digits_val ds = foldl (\<lambda>n c. n * 10 + digit_val c) 0 ds"

text \<open>
  \<^verbatim>\<open>strconv.Atoi\<close>: an optional sign, then decimal digits only, and an error outside the range of
  the 64-bit \<^verbatim>\<open>int\<close>.
\<close>

definition atoi :: "string \<Rightarrow> int option" where
  "atoi s =
     (let neg = (s \<noteq> [] \<and> hd s = CHR ''-'');
          ds = (if s \<noteq> [] \<and> (hd s = CHR ''-'' \<or> hd s = CHR ''+'') then tl s else s);
          n = int (digits_val ds);
          i = (if neg then - n else n)
      in if ds \<noteq> [] \<and> list_all is_digit ds \<and> - (2 ^ 63) \<le> i \<and> i < 2 ^ 63 then Some i else None)"

text \<open>
  The verb \<^verbatim>\<open>%q\<close> of \<^verbatim>\<open>fmt\<close> (\<^verbatim>\<open>strconv.Quote\<close>): double quotes around the text, Go escapes for the
  quote, the backslash and ASCII control characters. Bytes above ASCII are copied: which
  multi-byte characters \<^verbatim>\<open>unicode.IsPrint\<close> would escape is not modelled.
\<close>

definition hex2 :: "nat \<Rightarrow> string" where
  "hex2 n = [digit_char (n div 16 mod 16), digit_char (n mod 16)]"

text \<open>\<^verbatim>\<open>hex.EncodeToString\<close>.\<close>

definition hex_encode :: "string \<Rightarrow> string" where
  "hex_encode bs = concat (map (\<lambda>b. hex2 (of_char b)) bs)"

definition quote_char :: "char \<Rightarrow> string" where
  "quote_char c =
     (let n = of_char c :: nat in
      if n = 34 then [CHR 0x5C, CHR 0x22]
      else if n = 92 then [CHR 0x5C, CHR 0x5C]
      else if n = 7 then [CHR 0x5C, CHR ''a'']
      else if n = 8 then [CHR 0x5C, CHR ''b'']
      else if n = 9 then [CHR 0x5C, CHR ''t'']
      else if n = 10 then [CHR 0x5C, CHR ''n'']
      else if n = 11 then [CHR 0x5C, CHR ''v'']
      else if n = 12 then [CHR 0x5C, CHR ''f'']
      else if n = 13 then [CHR 0x5C, CHR ''r'']
      else if n < 32 \<or> n = 127 then [CHR 0x5C, CHR ''x''] @ hex2 n
      else [c])"

definition quoteq :: "string \<Rightarrow> string" where
  "quoteq s = [CHR 0x22] @ concat (map quote_char s) @ [CHR 0x22]"

text \<open>
  An operation of the world \<open>'w\<close> that writes down, in the list beside the world, what was asked
  of the world and what it answered; and one that leaves the list alone.
\<close>

definition traced :: "('r \<Rightarrow> 'e) \<Rightarrow> ('w, 'r) state \<Rightarrow> ('w \<times> 'e list, 'r) state" where
  "traced ev m = State (\<lambda>(w, tr). case run_state m w of (r, w') \<Rightarrow> (r, (w', tr @ [ev r])))"

definition silent :: "('w, 'r) state \<Rightarrow> ('w \<times> 'e list, 'r) state" where
  "silent m = State (\<lambda>(w, tr). case run_state m w of (r, w') \<Rightarrow> (r, (w', tr)))"

section \<open>Go maps with string keys\<close>

text \<open>
  A map is represented by its entries in increasing key order, without duplicates. That is the
  order in which \<^verbatim>\<open>encoding/json\<close> writes a map; where the sources range over a map, the order is
  unspecified in Go and the model says there what it assumes about it.
\<close>

definition gm_ok :: "'v gomap \<Rightarrow> bool" where
  "gm_ok m \<longleftrightarrow> sorted_wrt (<) (map fst m)"

fun gm_upd :: "string \<Rightarrow> 'v \<Rightarrow> 'v gomap \<Rightarrow> 'v gomap" where
  "gm_upd k v [] = [(k, v)]"
| "gm_upd k v ((a, b) # m) =
     (if k < a then (k, v) # (a, b) # m
      else if k = a then (k, v) # m
      else (a, b) # gm_upd k v m)"

definition gm_del :: "string \<Rightarrow> 'v gomap \<Rightarrow> 'v gomap" where
  "gm_del k m = filter (\<lambda>e. fst e \<noteq> k) m"

definition gm_map :: "(string \<Rightarrow> 'a \<Rightarrow> 'b) \<Rightarrow> 'a gomap \<Rightarrow> 'b gomap" where
  "gm_map f m = map (\<lambda>(k, v). (k, f k v)) m"

section \<open>Lemmas\<close>

lemma wp_return [wp_simps]: "wp (State_Monad.return x) Q s = Q x s"
  by (simp add: wp_def)

lemma wp_bind [wp_simps]: "wp (State_Monad.bind m f) Q s = wp m (\<lambda>x t. wp (f x) Q t) s"
  by (simp add: wp_def split: prod.splits)

lemma wp_modify [wp_simps]: "wp (modify_state f) Q s = Q () (f s)"
  by (simp add: wp_def modify_state_def)

lemma wp_gets [wp_simps]: "wp (gets_state f) Q s = Q (f s) s"
  by (simp add: wp_def gets_state_def)

lemma wp_if [wp_simps]: "wp (if b then m else n) Q s = (if b then wp m Q s else wp n Q s)"
  by simp

lemma wp_option [wp_simps]:
  "wp (case x of None \<Rightarrow> m | Some y \<Rightarrow> f y) Q s = (case x of None \<Rightarrow> wp m Q s | Some y \<Rightarrow> wp (f y) Q s)"
  by (simp split: option.split)

lemma wp_sum [wp_simps]:
  "wp (case x of Inl e \<Rightarrow> f e | Inr y \<Rightarrow> g y) Q s =
     (case x of Inl e \<Rightarrow> wp (f e) Q s | Inr y \<Rightarrow> wp (g y) Q s)"
  by (simp split: sum.split)

lemma wp_prod [wp_simps]:
  "wp (case x of (a, b) \<Rightarrow> f a b) Q s = (case x of (a, b) \<Rightarrow> wp (f a b) Q s)"
  by (simp split: prod.split)

lemma wp_mono: "wp m Q s \<Longrightarrow> (\<And>x t. Q x t \<Longrightarrow> R x t) \<Longrightarrow> wp m R s"
  by (simp add: wp_def split: prod.splits)

lemma wpD: "wp m Q s \<Longrightarrow> run_state m s = (x, t) \<Longrightarrow> Q x t"
  by (simp add: wp_def)

lemma wp_any: "(\<And>r w'. Q r w') \<Longrightarrow> wp m Q w"
  by (simp add: wp_def split: prod.splits)

lemma wp_traced [wp_simps]: "wp (traced ev m) Q (w, tr) = wp m (\<lambda>r w'. Q r (w', tr @ [ev r])) w"
  by (simp add: wp_def traced_def split: prod.splits)

lemma wp_silent [wp_simps]: "wp (silent m) Q (w, tr) = wp m (\<lambda>r w'. Q r (w', tr)) w"
  by (simp add: wp_def silent_def split: prod.splits)

lemma wpI: "(\<And>x t. run_state m s = (x, t) \<Longrightarrow> Q x t) \<Longrightarrow> wp m Q s"
  by (simp add: wp_def split: prod.splits)

lemma splitOn_not_Nil [simp]: "splitOn c s \<noteq> []"
  by (induction s) (auto split: list.splits)

lemma gm_ok_Nil [simp]: "gm_ok []"
  by (simp add: gm_ok_def)

lemma gm_ok_Cons: "gm_ok ((k, v) # m) \<longleftrightarrow> (\<forall>a \<in> set (map fst m). k < a) \<and> gm_ok m"
  by (simp add: gm_ok_def)

lemma gm_ok_distinct: "gm_ok m \<Longrightarrow> distinct (map fst m)"
  by (simp add: gm_ok_def strict_sorted_iff)

lemma keys_gm_upd [gomap_simps]: "set (map fst (gm_upd k v m)) = insert k (set (map fst m))"
  by (induction k v m rule: gm_upd.induct) auto

lemma gm_ok_upd [simp]: "gm_ok m \<Longrightarrow> gm_ok (gm_upd k v m)"
proof (induction k v m rule: gm_upd.induct)
  case (2 k v a b m)
  have "set (map fst (gm_upd k v m)) = insert k (set (map fst m))"
    by (rule keys_gm_upd)
  with 2 show ?case
    by (auto simp: gm_ok_Cons dest: order.strict_trans)
qed (simp add: gm_ok_Cons)

lemma map_of_gm_upd [gomap_simps]: "map_of (gm_upd k v m) = (map_of m)(k \<mapsto> v)"
  by (induction k v m rule: gm_upd.induct) (auto simp: fun_eq_iff)

lemma map_of_gm_del [gomap_simps]: "map_of (gm_del k m) = (map_of m)(k := None)"
  by (induction m) (auto simp: gm_del_def fun_eq_iff)

lemma gm_ok_del [simp]: "gm_ok m \<Longrightarrow> gm_ok (gm_del k m)"
  by (induction m) (auto simp: gm_del_def gm_ok_Cons)

lemma keys_gm_map [gomap_simps]: "map fst (gm_map f m) = map fst m"
  by (simp add: gm_map_def case_prod_unfold)

lemma gm_ok_map [simp]: "gm_ok (gm_map f m) = gm_ok m"
  by (simp add: gm_ok_def keys_gm_map)

lemma map_of_gm_map [gomap_simps]: "map_of (gm_map f m) k = map_option (f k) (map_of m k)"
  by (induction m) (auto simp: gm_map_def)

lemma gm_ok_ext:
  assumes "gm_ok m" "gm_ok n" "map_of m = map_of n"
  shows "m = n"
proof -
  have "set m = set n"
    using assms map_of_eqI map_of_inject_set gm_ok_distinct by metis
  moreover have "sorted (map fst m)" "sorted (map fst n)"
    using assms(1,2) by (auto simp: gm_ok_def strict_sorted_iff)
  ultimately show ?thesis
    using assms(1,2) gm_ok_distinct map_sorted_distinct_set_unique [of fst m n]
    by (metis distinct_map sup.idem)
qed

text \<open>Appending at the end keeps the order when the new key is above all others.\<close>

lemma gm_upd_last: "(\<forall>a \<in> set (map fst m). a < k) \<Longrightarrow> gm_upd k v m = m @ [(k, v)]"
  by (induction k v m rule: gm_upd.induct) auto

text \<open>Decimal digits read back.\<close>

lemma of_char_digit_char: "d < 10 \<Longrightarrow> of_char (digit_char d) = 48 + d"
  by (simp add: digit_char_def)

lemma is_digit_iff: "is_digit c \<longleftrightarrow> 48 \<le> (of_char c :: nat) \<and> (of_char c :: nat) \<le> 57"
  by (simp add: is_digit_def less_eq_char_def)

lemma is_digit_char [simp]: "d < 10 \<Longrightarrow> is_digit (digit_char d)"
  by (simp add: is_digit_iff of_char_digit_char)

lemma digit_val_char [simp]: "d < 10 \<Longrightarrow> digit_val (digit_char d) = d"
  by (simp add: digit_val_def of_char_digit_char)

lemma is_digit_zero [simp]: "is_digit (CHR ''0'')"
  by (simp add: is_digit_def)

lemma digits_val_snoc [simp]: "digits_val (ds @ [c]) = digits_val ds * 10 + digit_val c"
  by (simp add: digits_val_def)

lemma digits_val_Nil [simp]: "digits_val [] = 0"
  by (simp add: digits_val_def)

lemma digits_val_zero_Cons [simp]: "digits_val (CHR ''0'' # ds) = digits_val ds"
  by (simp add: digits_val_def digit_val_def)

lemma digits_val_zeros [simp]: "digits_val (replicate k (CHR ''0'') @ ds) = digits_val ds"
  by (induction k) simp_all

lemma show_nat_digits [simp]: "list_all is_digit (show_nat n)"
  by (induction n rule: show_nat.induct) (subst show_nat.simps, simp)

lemma digits_val_show_nat [simp]: "digits_val (show_nat n) = n"
proof (induction n rule: show_nat.induct)
  case (1 n)
  then show ?case
    by (subst show_nat.simps) (simp add: digits_val_def [of "[_]"])
qed

lemma show_nat_not_Nil [simp]: "show_nat n \<noteq> []"
  by (subst show_nat.simps) simp

lemma show_nat_length: "n < 10 ^ w \<Longrightarrow> 0 < w \<Longrightarrow> length (show_nat n) \<le> w"
proof (induction n arbitrary: w rule: show_nat.induct)
  case (1 n)
  show ?case
  proof (cases "n < 10")
    case True
    with 1 show ?thesis by (subst show_nat.simps) simp
  next
    case False
    with 1 obtain v where v: "w = Suc v" "0 < v"
      by (cases w; cases "w - 1") auto
    then have "n div 10 < 10 ^ v" using 1(2) by (simp add: less_mult_imp_div_less mult.commute)
    with 1(1) False v have "length (show_nat (n div 10)) \<le> v" by blast
    with False v show ?thesis by (subst show_nat.simps) simp
  qed
qed

end
