(* ===== verification/Go_Json.thy ===== *)
theory Go_Json
  imports HD_Prelude
begin

text \<open>
  The part of Go's \<^verbatim>\<open>encoding/json\<close> the sources rely on, over syntax trees. A JSON text is a
  \<open>json\<close> tree: numbers keep their literal, objects their members in the order and with the
  duplicates of the text. A \<^verbatim>\<open>json.RawMessage\<close> is a tree, or \<open>None\<close> when it is empty. A Go value of
  type \<^verbatim>\<open>any\<close> is a tree in the normal form \<open>any_of\<close> produces: the literals are those Go prints
  for a \<^verbatim>\<open>float64\<close>, and objects are maps with sorted, distinct keys.

  Decoding into a struct follows the package's rules: members are read in the order of the
  text, a name matches a field exactly or else up to case folding, unknown members are
  skipped, \<^verbatim>\<open>null\<close> leaves the field as it is, a value of another type is an error.
\<close>

section \<open>Trees\<close>

datatype json =
    JNull
  | JBool bool
  | JNum string
  | JStr string
  | JArr "json list"
  | JObj "(string \<times> json) list"

type_synonym raw = "json option"

section \<open>Numbers\<close>

text \<open>
  A number literal is split into its sign, the digits of integer part and fraction together,
  and the decimal exponent: it stands for \<open>\<plusminus> n \<cdot> 10\<^sup>k\<close>. \<open>None\<close> is a text outside the JSON grammar.
\<close>

definition split_exp :: "string \<Rightarrow> string \<times> string option" where
  "split_exp s =
     (let m = takeWhile (\<lambda>c. c \<noteq> CHR ''e'' \<and> c \<noteq> CHR ''E'') s;
          r = drop (length m) s
      in (m, if r = [] then None else Some (tl r)))"

definition split_frac :: "string \<Rightarrow> string \<times> string option" where
  "split_frac s =
     (let m = takeWhile (\<lambda>c. c \<noteq> CHR ''.'') s;
          r = drop (length m) s
      in (m, if r = [] then None else Some (tl r)))"

definition digits1 :: "string \<Rightarrow> bool" where
  "digits1 ds \<longleftrightarrow> ds \<noteq> [] \<and> list_all is_digit ds"

definition int_part_ok :: "string \<Rightarrow> bool" where
  "int_part_ok ds \<longleftrightarrow> digits1 ds \<and> (hd ds = CHR ''0'' \<longrightarrow> tl ds = [])"

definition exp_val :: "string option \<Rightarrow> int option" where
  "exp_val e =
     (case e of
        None \<Rightarrow> Some 0
      | Some s \<Rightarrow>
          (if s \<noteq> [] \<and> (hd s = CHR ''-'' \<or> hd s = CHR ''+'') then
             (if digits1 (tl s)
              then Some (if hd s = CHR ''-'' then - int (digits_val (tl s)) else int (digits_val (tl s)))
              else None)
           else if digits1 s then Some (int (digits_val s)) else None))"

definition num_parts :: "string \<Rightarrow> (bool \<times> nat \<times> int) option" where
  "num_parts s =
     (let neg = (s \<noteq> [] \<and> hd s = CHR ''-'');
          u = (if neg then tl s else s);
          (m, e) = split_exp u;
          (i, f) = split_frac m
      in if int_part_ok i \<and> (case f of None \<Rightarrow> True | Some ds \<Rightarrow> digits1 ds)
         then (case exp_val e of
                 None \<Rightarrow> None
               | Some k \<Rightarrow>
                   (let fd = (case f of None \<Rightarrow> [] | Some ds \<Rightarrow> ds)
                    in Some (neg, digits_val (i @ fd), k - int (length fd))))
         else None)"

definition valid_num :: "string \<Rightarrow> bool" where
  "valid_num s \<longleftrightarrow> num_parts s \<noteq> None"

text \<open>
  \<^verbatim>\<open>strconv.ParseFloat\<close>: the nearest IEEE-754 double, ties to even, as mantissa and binary
  exponent (\<open>m \<cdot> 2\<^sup>e\<close> with \<open>m < 2\<^sup>5\<^sup>3\<close> and \<open>-1074 \<le> e\<close>); \<open>None\<close> when it overflows.
\<close>

fun bitlen :: "nat \<Rightarrow> nat" where
  "bitlen n = (if n = 0 then 0 else Suc (bitlen (n div 2)))"

declare bitlen.simps [simp del]

definition round_div :: "nat \<Rightarrow> nat \<Rightarrow> nat" where
  "round_div p q =
     (let m = p div q; r = p mod q
      in if 2 * r < q then m else if q < 2 * r then m + 1 else if even m then m else m + 1)"

definition scale2 :: "nat \<Rightarrow> nat \<Rightarrow> int \<Rightarrow> nat \<times> nat" where
  "scale2 p q e = (if 0 \<le> e then (p, q * 2 ^ nat e) else (p * 2 ^ nat (- e), q))"

definition f64_round :: "nat \<Rightarrow> int \<Rightarrow> (nat \<times> int) option" where
  "f64_round n k =
     (if n = 0 then Some (0, 0)
      else
        (let p = (if 0 \<le> k then n * 10 ^ nat k else n);
             q = (if 0 \<le> k then 1 else 10 ^ nat (- k));
             e0 = max (- 1074) (int (bitlen p) - int (bitlen q) - 53);
             (p0, q0) = scale2 p q e0;
             e1 = (if 2 ^ 53 \<le> p0 div q0 then e0 + 1 else e0);
             (p1, q1) = scale2 p q e1;
             m1 = round_div p1 q1;
             (m, e) = (if m1 = 2 ^ 53 then (2 ^ 52, e1 + 1) else (m1, e1))
         in if 971 < e then None else if m = 0 then Some (0, 0) else Some (m, e)))"

definition f64_of_lit :: "string \<Rightarrow> (bool \<times> nat \<times> int) option" where
  "f64_of_lit s =
     (case num_parts s of
        None \<Rightarrow> None
      | Some (neg, n, k) \<Rightarrow> map_option (\<lambda>(m, e). (neg, m, e)) (f64_round n k))"

text \<open>
  \<^verbatim>\<open>encoding/json\<close> prints a \<^verbatim>\<open>float64\<close> with the fewest digits that read back as the same value,
  the closest such number first, and with an exponent below \<open>10\<^sup>-\<^sup>6\<close> and from \<open>10\<^sup>2\<^sup>1\<close> on.
  \<open>sci_digits d x\<close> writes the digits \<open>d\<close> with the decimal point after the first \<open>x\<close> of them.
\<close>

fun strip_zeros :: "nat \<Rightarrow> int \<Rightarrow> nat \<times> int" where
  "strip_zeros d k = (if d = 0 \<or> d mod 10 \<noteq> 0 then (d, k) else strip_zeros (d div 10) (k + 1))"

declare strip_zeros.simps [simp del]

definition fmt_digits :: "nat \<Rightarrow> int \<Rightarrow> string" where
  "fmt_digits d k =
     (let (d', k') = strip_zeros d k;
          ds = show_nat d';
          x = int (length ds) + k'
      in if d' = 0 then ''0''
         else if x < - 5 \<or> 21 < x then
           (let ex = x - 1;
                m = (if tl ds = [] then ds else hd ds # CHR ''.'' # tl ds)
            in m @ (if ex < 0 then ''e-'' else ''e+'') @ show_nat (nat \<bar>ex\<bar>))
         else if x \<le> 0 then ''0.'' @ replicate (nat (- x)) (CHR ''0'') @ ds
         else if int (length ds) \<le> x then ds @ replicate (nat x - length ds) (CHR ''0'')
         else take (nat x) ds @ ''.'' @ drop (nat x) ds)"

definition dec_exp :: "nat \<Rightarrow> nat \<Rightarrow> int" where
  \<comment> \<open>the \<open>x\<close> with \<open>10^(x-1) \<le> p/q < 10^x\<close>, for \<open>0 < p\<close>\<close>
  "dec_exp p q =
     (let a = int (length (show_nat p)) - int (length (show_nat q));
          small = (if 0 \<le> a then p < q * 10 ^ nat a else p * 10 ^ nat (- a) < q)
      in if small then a else a + 1)"

definition near_digits :: "nat \<Rightarrow> nat \<Rightarrow> int \<Rightarrow> nat list" where
  \<comment> \<open>the two integers around \<open>p/q / 10^k\<close>, closer first\<close>
  "near_digits p q k =
     (let (p', q') = (if 0 \<le> k then (p, q * 10 ^ nat k) else (p * 10 ^ nat (- k), q));
          d = p' div q'; r = p' mod q'
      in if 2 * r \<le> q' then [d, d + 1] else [d + 1, d])"

definition f64_candidates :: "bool \<Rightarrow> nat \<Rightarrow> int \<Rightarrow> string list" where
  "f64_candidates neg m e =
     (let sgn_s = (if neg then ''-'' else '''')
      in if m = 0 then [sgn_s @ ''0'']
         else
           (let (p, q) = (if 0 \<le> e then (m * 2 ^ nat e, 1) else (m, 2 ^ nat (- e)));
                x = dec_exp p q
            in concat (map (\<lambda>n. map (\<lambda>d. sgn_s @ fmt_digits d (x - int n)) (near_digits p q (x - int n)))
                 [1..<18])))"

definition f64_canon :: "string \<Rightarrow> string option" where
  "f64_canon s =
     (case f64_of_lit s of
        None \<Rightarrow> None
      | Some (neg, m, e) \<Rightarrow> find (\<lambda>t. f64_of_lit t = Some (neg, m, e)) (f64_candidates neg m e))"

text \<open>Decoding a number into a Go \<^verbatim>\<open>int\<close>: an integer literal within 64 bits, nothing else.\<close>

definition int_of_lit :: "string \<Rightarrow> int option" where
  "int_of_lit s = (if s \<noteq> [] \<and> hd s = CHR ''+'' then None else atoi s)"

section \<open>Decoding into \<^verbatim>\<open>any\<close>\<close>

fun any_of :: "json \<Rightarrow> json option"
  and any_list :: "json list \<Rightarrow> json list option"
  and any_obj :: "(string \<times> json) list \<Rightarrow> json gomap \<Rightarrow> json gomap option" where
  "any_of JNull = Some JNull"
| "any_of (JBool b) = Some (JBool b)"
| "any_of (JNum n) = map_option JNum (f64_canon n)"
| "any_of (JStr s) = Some (JStr s)"
| "any_of (JArr xs) = map_option JArr (any_list xs)"
| "any_of (JObj es) = map_option JObj (any_obj es [])"
| "any_list [] = Some []"
| "any_list (x # xs) =
     (case any_of x of
        None \<Rightarrow> None
      | Some y \<Rightarrow> map_option (\<lambda>ys. y # ys) (any_list xs))"
| "any_obj [] m = Some m"
| "any_obj ((k, v) # es) m =
     (case any_of v of
        None \<Rightarrow> None
      | Some w \<Rightarrow> any_obj es (gm_upd k w m))"

text \<open>The normal form of \<^verbatim>\<open>any\<close> values.\<close>

fun any_ok :: "json \<Rightarrow> bool" where
  "any_ok JNull = True"
| "any_ok (JBool b) = True"
| "any_ok (JNum n) = (f64_canon n = Some n)"
| "any_ok (JStr s) = True"
| "any_ok (JArr xs) = list_all any_ok xs"
| "any_ok (JObj es) = (gm_ok es \<and> list_all (\<lambda>e. any_ok (snd e)) es)"

section \<open>Decoding into a struct\<close>

text \<open>
  Case folding of member names: ASCII letters, and the two characters above ASCII whose simple
  folding is an ASCII letter (U+017F, the long s, and U+212A, the Kelvin sign).
\<close>

fun fold_name :: "string \<Rightarrow> string" where
  "fold_name [] = []"
| "fold_name (a # b # c # cs) =
     (if a = CHR 0xE2 \<and> b = CHR 0x84 \<and> c = CHR 0xAA then CHR ''k'' # fold_name cs
      else if a = CHR 0xC5 \<and> b = CHR 0xBF then CHR ''s'' # fold_name (c # cs)
      else (if CHR ''A'' \<le> a \<and> a \<le> CHR ''Z'' then char_of (of_char a + 32 :: nat) else a)
             # fold_name (b # c # cs))"
| "fold_name (a # cs) =
     (if cs = [CHR 0xBF] \<and> a = CHR 0xC5 then [CHR ''s'']
      else (if CHR ''A'' \<le> a \<and> a \<le> CHR ''Z'' then char_of (of_char a + 32 :: nat) else a)
             # fold_name cs)"

type_synonym 'r field = "string \<times> (json \<Rightarrow> 'r \<Rightarrow> 'r option)"

definition find_field :: "'r field list \<Rightarrow> string \<Rightarrow> (json \<Rightarrow> 'r \<Rightarrow> 'r option) option" where
  "find_field fs k =
     (case map_of fs k of
        Some f \<Rightarrow> Some f
      | None \<Rightarrow> map_option snd (find (\<lambda>f. fold_name (fst f) = fold_name k) fs))"

fun dec_fields :: "'r field list \<Rightarrow> (string \<times> json) list \<Rightarrow> 'r \<Rightarrow> 'r option" where
  "dec_fields fs [] r = Some r"
| "dec_fields fs ((k, v) # es) r =
     (case find_field fs k of
        None \<Rightarrow> dec_fields fs es r
      | Some f \<Rightarrow> (case f v r of None \<Rightarrow> None | Some r' \<Rightarrow> dec_fields fs es r'))"

definition dec_struct :: "'r field list \<Rightarrow> json \<Rightarrow> 'r \<Rightarrow> 'r option" where
  "dec_struct fs v r =
     (case v of JNull \<Rightarrow> Some r | JObj es \<Rightarrow> dec_fields fs es r | _ \<Rightarrow> None)"

text \<open>Field decoders by target type.\<close>

definition dec_str :: "(string \<Rightarrow> 'r \<Rightarrow> 'r) \<Rightarrow> json \<Rightarrow> 'r \<Rightarrow> 'r option" where
  "dec_str upd v r =
     (case v of JNull \<Rightarrow> Some r | JStr s \<Rightarrow> Some (upd s r) | _ \<Rightarrow> None)"

definition dec_bool :: "(bool \<Rightarrow> 'r \<Rightarrow> 'r) \<Rightarrow> json \<Rightarrow> 'r \<Rightarrow> 'r option" where
  "dec_bool upd v r =
     (case v of JNull \<Rightarrow> Some r | JBool b \<Rightarrow> Some (upd b r) | _ \<Rightarrow> None)"

definition dec_int :: "(int \<Rightarrow> 'r \<Rightarrow> 'r) \<Rightarrow> json \<Rightarrow> 'r \<Rightarrow> 'r option" where
  "dec_int upd v r =
     (case v of
        JNull \<Rightarrow> Some r
      | JNum n \<Rightarrow> map_option (\<lambda>i. upd i r) (int_of_lit n)
      | _ \<Rightarrow> None)"

definition dec_any :: "(json \<Rightarrow> 'r \<Rightarrow> 'r) \<Rightarrow> json \<Rightarrow> 'r \<Rightarrow> 'r option" where
  "dec_any upd v r = map_option (\<lambda>w. upd w r) (any_of v)"

definition dec_raw :: "(raw \<Rightarrow> 'r \<Rightarrow> 'r) \<Rightarrow> json \<Rightarrow> 'r \<Rightarrow> 'r option" where
  "dec_raw upd v r = Some (upd (Some v) r)"

fun dec_elems :: "('a \<Rightarrow> 'e option) \<Rightarrow> 'a list \<Rightarrow> 'e list option" where
  "dec_elems f [] = Some []"
| "dec_elems f (x # xs) =
     (case f x of None \<Rightarrow> None | Some y \<Rightarrow> map_option (\<lambda>ys. y # ys) (dec_elems f xs))"

definition dec_slice :: "(json \<Rightarrow> 'e option) \<Rightarrow> ('e list \<Rightarrow> 'r \<Rightarrow> 'r) \<Rightarrow> json \<Rightarrow> 'r \<Rightarrow> 'r option" where
  "dec_slice f upd v r =
     (case v of
        JNull \<Rightarrow> Some (upd [] r)
      | JArr xs \<Rightarrow> map_option (\<lambda>ys. upd ys r) (dec_elems f xs)
      | _ \<Rightarrow> None)"

definition str_elem :: "json \<Rightarrow> string option" where
  "str_elem v = (case v of JNull \<Rightarrow> Some [] | JStr s \<Rightarrow> Some s | _ \<Rightarrow> None)"

abbreviation dec_strs :: "(string list \<Rightarrow> 'r \<Rightarrow> 'r) \<Rightarrow> json \<Rightarrow> 'r \<Rightarrow> 'r option" where
  "dec_strs \<equiv> dec_slice str_elem"

text \<open>Members written only when they are not empty (\<^verbatim>\<open>omitempty\<close>).\<close>

definition omit_str :: "string \<Rightarrow> string \<Rightarrow> (string \<times> json) list" where
  "omit_str k s = (if s = [] then [] else [(k, JStr s)])"

definition omit_strs :: "string \<Rightarrow> string list \<Rightarrow> (string \<times> json) list" where
  "omit_strs k ss = (if ss = [] then [] else [(k, JArr (map JStr ss))])"

section \<open>Paths\<close>

text \<open>
  What a dot-separated path of \<^verbatim>\<open>internal/gateway/obligations.go\<close> denotes in a decoded value: object
  keys and array positions.
\<close>

fun json_at :: "json \<Rightarrow> string list \<Rightarrow> json option" where
  "json_at v [] = Some v"
| "json_at (JObj m) (k # ks) = (case map_of m k of None \<Rightarrow> None | Some w \<Rightarrow> json_at w ks)"
| "json_at (JArr xs) (k # ks) =
     (case atoi k of
        None \<Rightarrow> None
      | Some i \<Rightarrow> if 0 \<le> i \<and> i < int (length xs) then json_at (xs ! nat i) ks else None)"
| "json_at v (k # ks) = None"

section \<open>Lemmas\<close>

lemma f64_canon_of_lit: "f64_canon s = Some t \<Longrightarrow> f64_of_lit t = f64_of_lit s"
  by (auto simp: f64_canon_def find_Some_iff split: option.splits)

lemma f64_canon_idem: "f64_canon s = Some t \<Longrightarrow> f64_canon t = Some t"
  using f64_canon_of_lit [of s t] by (simp add: f64_canon_def)

lemma f64_canon_valid: "f64_canon s = Some t \<Longrightarrow> valid_num t"
  using f64_canon_of_lit [of s t]
  by (auto simp: valid_num_def f64_canon_def f64_of_lit_def split: option.splits)

lemma list_all_gm_upd:
  "list_all (\<lambda>e. P (snd e)) m \<Longrightarrow> P v \<Longrightarrow> list_all (\<lambda>e. P (snd e)) (gm_upd k v m)"
  by (induction k v m rule: gm_upd.induct) auto

lemma any_of_ok_aux:
  "any_of x = Some y \<Longrightarrow> any_ok y"
  "any_list xs = Some ys \<Longrightarrow> list_all any_ok ys"
  "any_obj es m = Some n \<Longrightarrow> gm_ok m \<Longrightarrow> list_all (\<lambda>e. any_ok (snd e)) m \<Longrightarrow>
     gm_ok n \<and> list_all (\<lambda>e. any_ok (snd e)) n"
proof (induction x and xs and es m arbitrary: y and ys and n rule: any_of_any_list_any_obj.induct)
  case (10 k v es m)
  then show ?case
    by (auto split: option.splits simp: list_all_gm_upd)
qed (auto split: option.splits dest: f64_canon_idem)

lemmas any_of_ok = any_of_ok_aux(1)

lemma any_obj_sorted:
  assumes "gm_ok (m @ es)" and "\<And>k v. (k, v) \<in> set es \<Longrightarrow> any_of v = Some v"
  shows "any_obj es m = Some (m @ es)"
  using assms
proof (induction es arbitrary: m)
  case (Cons e es)
  obtain k v where e: "e = (k, v)" by (cases e)
  have "\<forall>a \<in> set (map fst m). a < k"
    using Cons.prems(1) by (auto simp: gm_ok_def e sorted_wrt_append)
  then have "gm_upd k v m = m @ [(k, v)]" by (rule gm_upd_last)
  moreover have "any_of v = Some v"
    using Cons.prems(2) [of k v] by (simp add: e)
  moreover have "any_obj es (m @ [(k, v)]) = Some ((m @ [(k, v)]) @ es)"
    by (rule Cons.IH) (use Cons.prems in \<open>auto simp: e\<close>)
  ultimately show ?case
    by (simp add: e)
qed simp

lemma any_list_id: "(\<And>x. x \<in> set xs \<Longrightarrow> any_of x = Some x) \<Longrightarrow> any_list xs = Some xs"
  by (induction xs) auto

lemma any_of_id: "any_ok v \<Longrightarrow> any_of v = Some v"
proof (induction v)
  case (JArr xs)
  then show ?case by (simp add: any_list_id list_all_iff)
next
  case (JObj es)
  have "any_obj es [] = Some ([] @ es)"
    by (rule any_obj_sorted) (use JObj in \<open>force simp: list_all_iff\<close>)+
  then show ?case by simp
qed auto

lemma any_of_idem: "any_of v = Some w \<Longrightarrow> any_of w = Some w"
  by (rule any_of_id) (rule any_of_ok)

lemma dec_elems_iff: "dec_elems f xs = Some ys \<longleftrightarrow> map f xs = map Some ys"
proof (induction xs arbitrary: ys)
  case (Cons x xs)
  show ?case
  proof (cases ys)
    case (Cons y zs)
    then show ?thesis using Cons.IH [of zs] by (auto split: option.splits)
  qed (auto split: option.splits)
qed auto

lemma json_at_append:
  "json_at v (p @ q) = (case json_at v p of None \<Rightarrow> None | Some w \<Rightarrow> json_at w q)"
  by (induction v p rule: json_at.induct) (auto split: option.splits)

text \<open>Printed integers are number literals.\<close>

lemma split_digits: "list_all is_digit ds \<Longrightarrow> split_exp ds = (ds, None) \<and> split_frac ds = (ds, None)"
proof -
  assume d: "list_all is_digit ds"
  have "takeWhile (\<lambda>c. c \<noteq> CHR ''e'' \<and> c \<noteq> CHR ''E'') ds = ds" "takeWhile (\<lambda>c. c \<noteq> CHR ''.'') ds = ds"
    using d by (auto simp: takeWhile_eq_all_conv list_all_iff is_digit_def)
  then show ?thesis unfolding split_exp_def split_frac_def by (simp only: Let_def) simp
qed

lemma hd_show_nat_pos: "0 < n \<Longrightarrow> hd (show_nat n) \<noteq> CHR ''0''"
proof (induction n rule: show_nat.induct)
  case (1 n)
  show ?case
  proof (cases "n < 10")
    case True
    have "(of_char (digit_char n) :: nat) = 48 + n" using True by (simp add: of_char_digit_char)
    then have "digit_char n \<noteq> CHR ''0''" using 1(2) by auto
    with True show ?thesis by (subst show_nat.simps) simp
  next
    case False
    with 1 show ?thesis by (subst show_nat.simps) simp
  qed
qed

lemma int_part_show_nat: "int_part_ok (show_nat n)"
proof (cases "n = 0")
  case True
  then show ?thesis by (subst show_nat.simps) (simp add: int_part_ok_def digits1_def)
qed (simp add: int_part_ok_def digits1_def hd_show_nat_pos)

lemma valid_num_show_int: "valid_num (show_int i)"
proof -
  have sp: "split_exp (show_nat n) = (show_nat n, None)" "split_frac (show_nat n) = (show_nat n, None)" for n
    using split_digits by simp_all
  have "hd (show_nat n) \<noteq> CHR ''-''" for n
    using show_nat_digits [of n] show_nat_not_Nil [of n] by (cases "show_nat n") (auto simp: is_digit_def)
  then show ?thesis
    by (auto simp: valid_num_def num_parts_def show_int_def sp int_part_show_nat exp_val_def)
qed

text \<open>Overflow: a literal of at least \<open>2^1025\<close> has no \<^verbatim>\<open>float64\<close>.\<close>

lemma bitlen_ge: "2 ^ k \<le> n \<Longrightarrow> k < bitlen n"
proof (induction k arbitrary: n)
  case 0
  then show ?case by (subst bitlen.simps) simp
next
  case (Suc k)
  then have "2 ^ k \<le> n div 2" by simp
  moreover from this have "n \<noteq> 0" by (intro notI) simp
  ultimately show ?case using Suc.IH [of "n div 2"] by (subst bitlen.simps) simp
qed

lemma f64_round_overflow:
  assumes "0 \<le> k" "2 ^ 1025 \<le> n * 10 ^ nat k"
  shows "f64_round n k = None"
proof -
  have n: "n \<noteq> 0" using assms(2) by (intro notI) simp
  have "1025 < bitlen (n * 10 ^ nat k)" by (rule bitlen_ge) (rule assms(2))
  moreover have "bitlen 1 = 1" by (simp add: bitlen.simps)
  ultimately show ?thesis
    using n assms(1) by (auto simp: f64_round_def Let_def split: prod.splits if_splits)
qed

lemma f64_canon_1e400: "f64_canon ''1e400'' = None"
proof -
  have "num_parts ''1e400'' = Some (False, 1, 400)"
    by (simp add: num_parts_def split_exp_def split_frac_def int_part_ok_def digits1_def exp_val_def
        is_digit_def digits_val_def digit_val_def)
  moreover have "f64_round 1 400 = None" by (rule f64_round_overflow) simp_all
  ultimately show ?thesis by (simp add: f64_canon_def f64_of_lit_def)
qed
end
