(* ===== verification/Go_Time.thy ===== *)
theory Go_Time
  imports HD_Prelude
begin

text \<open>
  Go's \<^verbatim>\<open>time.Time\<close> as far as the sources use it: an instant in nanoseconds since the Unix
  epoch with the offset of its zone in minutes (\<^verbatim>\<open>Before\<close>, \<^verbatim>\<open>Sub\<close> and \<^verbatim>\<open>Add\<close> compare and move the
  instant only), and its JSON form, the RFC 3339 text of \<^verbatim>\<open>MarshalJSON\<close> and \<^verbatim>\<open>UnmarshalJSON\<close>.

  The calendar is the proleptic Gregorian one, computed from years that start on 1 March, so
  that the leap day is the last day of its year.
\<close>

section \<open>Instants\<close>

record gotime =
  t_ns :: int
  t_off :: int

definition nsec_per_sec :: int where
  "nsec_per_sec = 1000000000"

text \<open>\<^verbatim>\<open>time.Minute\<close>, and the zero \<^verbatim>\<open>time.Time\<close>: 1 January of the year 1, UTC.\<close>

definition time_Minute :: int where
  "time_Minute = 60 * nsec_per_sec"

definition time_zero :: gotime where
  "time_zero = \<lparr>t_ns = - 62135596800 * nsec_per_sec, t_off = 0\<rparr>"

definition time_before :: "gotime \<Rightarrow> gotime \<Rightarrow> bool" where
  "time_before a b \<longleftrightarrow> t_ns a < t_ns b"

definition time_sub :: "gotime \<Rightarrow> gotime \<Rightarrow> int" where
  "time_sub a b = t_ns a - t_ns b"

definition time_add :: "gotime \<Rightarrow> int \<Rightarrow> gotime" where
  "time_add a d = a\<lparr>t_ns := t_ns a + d\<rparr>"

section \<open>The calendar\<close>

definition civil_of_days :: "int \<Rightarrow> int \<times> int \<times> int" where
  "civil_of_days z =
     (let d = z + 719468;
          a = d div 146097; d1 = d mod 146097;
          b = min 3 (d1 div 36524); d2 = d1 - 36524 * b;
          c = d2 div 1461; d3 = d2 mod 1461;
          e = min 3 (d3 div 365); doy = d3 - 365 * e;
          y = 400 * a + 100 * b + 4 * c + e;
          mp = (5 * doy + 2) div 153;
          day = doy - (153 * mp + 2) div 5 + 1
      in (if mp < 10 then y else y + 1, if mp < 10 then mp + 3 else mp - 9, day))"

definition days_of_civil :: "int \<Rightarrow> int \<Rightarrow> int \<Rightarrow> int" where
  "days_of_civil year month day =
     (let y = (if month \<le> 2 then year - 1 else year);
          mp = (if month \<le> 2 then month + 9 else month - 3);
          a = y div 400; y1 = y mod 400;
          b = y1 div 100; y2 = y1 mod 100;
          c = y2 div 4; e = y2 mod 4
      in 146097 * a + 36524 * b + 1461 * c + 365 * e + (153 * mp + 2) div 5 + day - 1 - 719468)"

definition is_leap :: "int \<Rightarrow> bool" where
  "is_leap y \<longleftrightarrow> y mod 4 = 0 \<and> (y mod 100 \<noteq> 0 \<or> y mod 400 = 0)"

definition days_in :: "int \<Rightarrow> int \<Rightarrow> int" where
  "days_in m y =
     (if m = 2 then (if is_leap y then 29 else 28)
      else if m = 4 \<or> m = 6 \<or> m = 9 \<or> m = 11 then 30 else 31)"

section \<open>The JSON text of a time\<close>

definition pad :: "nat \<Rightarrow> nat \<Rightarrow> string" where
  "pad w n = (let s = show_nat n in replicate (w - length s) (CHR ''0'') @ s)"

definition frac_text :: "nat \<Rightarrow> string" where
  "frac_text n = (if n = 0 then [] else ''.'' @ rev (dropWhile (\<lambda>c. c = CHR ''0'') (rev (pad 9 n))))"

definition zone_text :: "int \<Rightarrow> string" where
  "zone_text off =
     (if off = 0 then ''Z''
      else (if off < 0 then ''-'' else ''+'') @ pad 2 (nat (\<bar>off\<bar> div 60)) @ '':'' @ pad 2 (nat (\<bar>off\<bar> mod 60)))"

text \<open>\<^verbatim>\<open>Time.MarshalJSON\<close>: an error outside the years 0 to 9999 or with a zone of a day or more.\<close>

definition time_text :: "gotime \<Rightarrow> string option" where
  "time_text t =
     (let local = t_ns t + t_off t * 60 * nsec_per_sec;
          secs = local div nsec_per_sec; ns = local mod nsec_per_sec;
          (y, m, d) = civil_of_days (secs div 86400); sod = secs mod 86400
      in if y < 0 \<or> 9999 < y \<or> 24 * 60 \<le> \<bar>t_off t\<bar> then None
         else Some (pad 4 (nat y) @ ''-'' @ pad 2 (nat m) @ ''-'' @ pad 2 (nat d) @ ''T'' @
                    pad 2 (nat (sod div 3600)) @ '':'' @ pad 2 (nat (sod div 60 mod 60)) @ '':'' @
                    pad 2 (nat (sod mod 60)) @ frac_text (nat ns) @ zone_text (t_off t)))"

text \<open>\<^verbatim>\<open>Time.UnmarshalJSON\<close>: fixed-width fields, each within its range, then fraction and zone.\<close>

definition read_field :: "nat \<Rightarrow> nat \<Rightarrow> nat \<Rightarrow> string \<Rightarrow> (nat \<times> string) option" where
  "read_field w lo hi s =
     (if length (take w s) = w \<and> list_all is_digit (take w s) \<and>
         lo \<le> digits_val (take w s) \<and> digits_val (take w s) \<le> hi
      then Some (digits_val (take w s), drop w s) else None)"

definition read_char :: "char \<Rightarrow> string \<Rightarrow> string option" where
  "read_char c s = (case s of [] \<Rightarrow> None | x # xs \<Rightarrow> if x = c then Some xs else None)"

definition read_frac :: "string \<Rightarrow> nat \<times> string" where
  "read_frac s =
     (case s of
        x # xs \<Rightarrow>
          (let ds = takeWhile is_digit xs
           in if x = CHR ''.'' \<and> ds \<noteq> []
              then (digits_val (take 9 (ds @ replicate 9 (CHR ''0''))), drop (length ds) xs)
              else (0, s))
      | [] \<Rightarrow> (0, s))"

definition read_zone :: "string \<Rightarrow> int option" where
  "read_zone s =
     (if s = ''Z'' then Some 0
      else case s of
        [] \<Rightarrow> None
      | x # xs \<Rightarrow>
          (if x = CHR ''+'' \<or> x = CHR ''-'' then
             (case read_field 2 0 23 xs of
                None \<Rightarrow> None
              | Some (h, r) \<Rightarrow>
                  (case Option.bind (read_char (CHR '':'') r) (read_field 2 0 59) of
                     Some (mi, []) \<Rightarrow>
                       Some (if x = CHR ''-'' then - int (h * 60 + mi) else int (h * 60 + mi))
                   | _ \<Rightarrow> None))
           else None))"

definition read_sep :: "nat \<Rightarrow> nat \<Rightarrow> nat \<Rightarrow> char \<Rightarrow> string \<Rightarrow> (nat \<times> string) option" where
  "read_sep w lo hi c s =
     (case read_field w lo hi s of
        None \<Rightarrow> None
      | Some (n, r) \<Rightarrow> map_option (\<lambda>r'. (n, r')) (read_char c r))"

definition parse_time :: "string \<Rightarrow> gotime option" where
  "parse_time s0 =
     (case read_sep 4 0 9999 (CHR ''-'') s0 of None \<Rightarrow> None | Some (y, s1) \<Rightarrow>
     (case read_sep 2 1 12 (CHR ''-'') s1 of None \<Rightarrow> None | Some (m, s2) \<Rightarrow>
     (case read_sep 2 1 (nat (days_in (int m) (int y))) (CHR ''T'') s2 of None \<Rightarrow> None | Some (d, s3) \<Rightarrow>
     (case read_sep 2 0 23 (CHR '':'') s3 of None \<Rightarrow> None | Some (hh, s4) \<Rightarrow>
     (case read_sep 2 0 59 (CHR '':'') s4 of None \<Rightarrow> None | Some (mi, s5) \<Rightarrow>
     (case read_field 2 0 59 s5 of None \<Rightarrow> None | Some (ss, s6) \<Rightarrow>
     (let (ns, s7) = read_frac s6
      in case read_zone s7 of None \<Rightarrow> None | Some off \<Rightarrow>
           Some \<lparr>t_ns = ((days_of_civil (int y) (int m) (int d) * 86400
                          + int (hh * 3600 + mi * 60 + ss)) - off * 60) * nsec_per_sec + int ns,
                 t_off = off\<rparr>)))))))"

section \<open>The calendar is a bijection\<close>

lemma civil_parts:
  fixes d :: int
  defines "a \<equiv> d div 146097" and "d1 \<equiv> d mod 146097"
  defines "b \<equiv> min 3 (d1 div 36524)" and "d2 \<equiv> d1 - 36524 * min 3 (d1 div 36524)"
  defines "c \<equiv> d2 div 1461" and "d3 \<equiv> d2 mod 1461"
  defines "e \<equiv> min 3 (d3 div 365)" and "doy \<equiv> d3 - 365 * min 3 (d3 div 365)"
  shows "0 \<le> b" "b \<le> 3" "0 \<le> c" "c \<le> 24" "0 \<le> e" "e \<le> 3" "0 \<le> doy" "doy \<le> 365"
    and "d = 146097 * a + 36524 * b + 1461 * c + 365 * e + doy"
    and "doy = 365 \<Longrightarrow> e = 3 \<and> (c \<le> 23 \<or> b = 3)"
proof -
  have d1: "0 \<le> d1" "d1 < 146097" by (simp_all add: d1_def)
  show b: "0 \<le> b" "b \<le> 3" using d1 by (simp_all add: b_def)
  have d2: "0 \<le> d2" "d2 \<le> 36524" "d2 = 36524 \<Longrightarrow> b = 3"
    using d1 unfolding d2_def b_def by (auto simp: min_def split: if_splits)
  show c: "0 \<le> c" "c \<le> 24" using d2 by (simp_all add: c_def)
  have d3: "0 \<le> d3" "d3 < 1461" by (simp_all add: d3_def)
  show e: "0 \<le> e" "e \<le> 3" using d3 by (simp_all add: e_def)
  show doy: "0 \<le> doy" "doy \<le> 365"
    using d3 unfolding doy_def by (auto simp: min_def)
  show "d = 146097 * a + 36524 * b + 1461 * c + 365 * e + doy"
    using mult_div_mod_eq [of 146097 d] mult_div_mod_eq [of 1461 d2]
    unfolding a_def d1_def [symmetric] b_def c_def d3_def [symmetric] e_def doy_def
    by (simp add: d2_def)
  assume "doy = 365"
  then have "e = 3" "d3 = 1460"
    using d3 unfolding doy_def e_def by (auto simp: min_def split: if_splits)
  moreover from this(2) have "d2 = 1461 * c + 1460"
    using mult_div_mod_eq [of 1461 d2] by (simp add: c_def d3_def)
  ultimately show "e = 3 \<and> (c \<le> 23 \<or> b = 3)"
    using c d2 by (cases "c = 24") auto
qed

definition month_ok :: "int \<Rightarrow> bool" where
  "month_ok doy \<longleftrightarrow>
     (let mp = (5 * doy + 2) div 153; day = doy - (153 * mp + 2) div 5 + 1
      in 0 \<le> mp \<and> mp \<le> 11 \<and> 1 \<le> day \<and> day \<le> 31 \<and>
         (mp = 1 \<or> mp = 3 \<or> mp = 6 \<or> mp = 8 \<longrightarrow> day \<le> 30) \<and>
         (mp = 11 \<longrightarrow> day \<le> 29 \<and> (day = 29 \<longrightarrow> doy = 365)))"

lemma month_table: "list_all month_ok [0..365]"
  by code_simp

lemma month_okI: "0 \<le> doy \<Longrightarrow> doy \<le> 365 \<Longrightarrow> month_ok doy"
  using month_table by (simp add: list_all_iff)

lemma year_parts:
  fixes a b c e :: int
  assumes "0 \<le> b" "b \<le> 3" "0 \<le> c" "c \<le> 24" "0 \<le> e" "e \<le> 3"
  defines "y \<equiv> 400 * a + 100 * b + 4 * c + e"
  shows "y div 400 = a" "y mod 400 = 100 * b + 4 * c + e"
    and "(100 * b + 4 * c + e) div 100 = b" "(100 * b + 4 * c + e) mod 100 = 4 * c + e"
    and "(4 * c + e) div 4 = c" "(4 * c + e) mod 4 = e"
proof -
  have "y = a * 400 + (100 * b + 4 * c + e)" "0 \<le> 100 * b + 4 * c + e" "100 * b + 4 * c + e < 400"
    using assms by (auto simp: y_def)
  then show "y div 400 = a" "y mod 400 = 100 * b + 4 * c + e"
    by simp_all
  have "100 * b + 4 * c + e = b * 100 + (4 * c + e)" "0 \<le> 4 * c + e" "4 * c + e < 100"
    using assms by auto
  then show "(100 * b + 4 * c + e) div 100 = b" "(100 * b + 4 * c + e) mod 100 = 4 * c + e"
    by (simp_all only: div_mult_self3 mod_mult_self3 div_pos_pos_trivial mod_pos_pos_trivial)
  have "4 * c + e = c * 4 + e" "e < 4" using assms by auto
  then show "(4 * c + e) div 4 = c" "(4 * c + e) mod 4 = e"
    using assms by simp_all
qed

lemma civil_of_daysE:
  assumes "civil_of_days z = (y, m, d)"
  obtains a b c e doy mp where
    "0 \<le> b" "b \<le> 3" "0 \<le> c" "c \<le> 24" "0 \<le> e" "e \<le> 3" "0 \<le> doy" "doy \<le> 365"
    "z + 719468 = 146097 * a + 36524 * b + 1461 * c + 365 * e + doy"
    "doy = 365 \<longrightarrow> e = 3 \<and> (c \<le> 23 \<or> b = 3)"
    "mp = (5 * doy + 2) div 153" "d = doy - (153 * mp + 2) div 5 + 1"
    "y = (if mp < 10 then 400 * a + 100 * b + 4 * c + e else 400 * a + 100 * b + 4 * c + e + 1)"
    "m = (if mp < 10 then mp + 3 else mp - 9)"
proof -
  define D where "D = z + 719468"
  define a where "a = D div 146097"
  define b where "b = min 3 (D mod 146097 div 36524)"
  define d2 where "d2 = D mod 146097 - 36524 * b"
  define c where "c = d2 div 1461"
  define e where "e = min 3 (d2 mod 1461 div 365)"
  define doy where "doy = d2 mod 1461 - 365 * e"
  define mp where "mp = (5 * doy + 2) div 153"
  note defs = a_def b_def c_def e_def doy_def d2_def
  show thesis
  proof (rule that [of b c e doy a mp])
    show "z + 719468 = 146097 * a + 36524 * b + 1461 * c + 365 * e + doy"
      unfolding D_def [symmetric] defs by (rule civil_parts(9))
    show "doy = 365 \<longrightarrow> e = 3 \<and> (c \<le> 23 \<or> b = 3)"
      unfolding defs using civil_parts(10) by blast
    show "mp = (5 * doy + 2) div 153" by (rule mp_def)
    show "d = doy - (153 * mp + 2) div 5 + 1"
      "y = (if mp < 10 then 400 * a + 100 * b + 4 * c + e else 400 * a + 100 * b + 4 * c + e + 1)"
      "m = (if mp < 10 then mp + 3 else mp - 9)"
      using assms unfolding civil_of_days_def Let_def mp_def defs D_def by (simp_all only: prod.inject)
  qed (unfold defs, rule civil_parts(1), rule civil_parts(2), rule civil_parts(3),
      rule civil_parts(4), rule civil_parts(5), rule civil_parts(6), rule civil_parts(7),
      rule civil_parts(8))
qed

lemma days_of_civil_of_days:
  assumes "civil_of_days z = (y, m, d)"
  shows "days_of_civil y m d = z"
  using assms
proof (rule civil_of_daysE)
  fix a b c e doy mp
  assume b: "0 \<le> b" "b \<le> 3" and c: "0 \<le> c" "c \<le> 24" and e: "0 \<le> e" "e \<le> 3"
    and doy: "0 \<le> doy" "doy \<le> 365"
    and z: "z + 719468 = 146097 * a + 36524 * b + 1461 * c + 365 * e + doy"
    and mp: "mp = (5 * doy + 2) div 153" and d: "d = doy - (153 * mp + 2) div 5 + 1"
    and y: "y = (if mp < 10 then 400 * a + 100 * b + 4 * c + e else 400 * a + 100 * b + 4 * c + e + 1)"
    and m: "m = (if mp < 10 then mp + 3 else mp - 9)"
  have mp': "0 \<le> mp" "mp \<le> 11"
    using month_okI [OF doy] by (simp_all add: month_ok_def Let_def mp)
  have "(if m \<le> 2 then y - 1 else y) = 400 * a + 100 * b + 4 * c + e"
    and "(if m \<le> 2 then m + 9 else m - 3) = mp"
    using mp' by (auto simp: m y)
  then have "days_of_civil y m d =
      146097 * a + 36524 * b + 1461 * c + 365 * e + (153 * mp + 2) div 5 + d - 1 - 719468"
    by (simp only: days_of_civil_def Let_def year_parts [OF b c e])
  with z show ?thesis by (simp add: d)
qed

lemma civil_of_days_valid:
  assumes "civil_of_days z = (y, m, d)"
  shows "1 \<le> m" "m \<le> 12" "1 \<le> d" "d \<le> days_in m y"
proof -
  have "1 \<le> m \<and> m \<le> 12 \<and> 1 \<le> d \<and> d \<le> days_in m y"
    using assms
  proof (rule civil_of_daysE)
    fix a b c e doy mp
    assume b: "0 \<le> b" "b \<le> 3" and c: "0 \<le> c" "c \<le> 24" and e: "0 \<le> e" "e \<le> 3"
      and doy: "0 \<le> doy" "doy \<le> 365"
      and leap: "doy = 365 \<longrightarrow> e = 3 \<and> (c \<le> 23 \<or> b = 3)"
      and mp: "mp = (5 * doy + 2) div 153" and d: "d = doy - (153 * mp + 2) div 5 + 1"
      and y: "y = (if mp < 10 then 400 * a + 100 * b + 4 * c + e else 400 * a + 100 * b + 4 * c + e + 1)"
      and m: "m = (if mp < 10 then mp + 3 else mp - 9)"
    have ok: "0 \<le> mp" "mp \<le> 11" "1 \<le> d" "d \<le> 31"
      "mp = 1 \<or> mp = 3 \<or> mp = 6 \<or> mp = 8 \<longrightarrow> d \<le> 30" "mp = 11 \<longrightarrow> d \<le> 29 \<and> (d = 29 \<longrightarrow> doy = 365)"
      using month_okI [OF doy] by (simp_all add: month_ok_def Let_def d mp)
    have "is_leap y" if "mp = 11" "d = 29"
    proof -
      from that ok(6) leap have e3: "e = 3" and cb: "c \<le> 23 \<or> b = 3" by auto
      have y4: "y = 400 * a + 100 * b + 4 * (c + 1)" using that e3 by (simp add: y)
      then have "y = 4 * (100 * a + 25 * b + c + 1)" by simp
      then have "y mod 4 = 0" by (simp only: mod_mult_self1_is_0)
      moreover have "y mod 100 \<noteq> 0 \<or> y mod 400 = 0"
      proof (cases "c = 24")
        case True
        with cb y4 have "y = 400 * (a + 1)" by simp
        then show ?thesis by simp
      next
        case False
        with c have "0 < 4 * (c + 1)" "4 * (c + 1) < 100" by auto
        moreover have "y = (4 * a + b) * 100 + 4 * (c + 1)" unfolding y4 by simp
        then have "y mod 100 = 4 * (c + 1) mod 100" by (simp only: mod_mult_self3)
        ultimately have "y mod 100 = 4 * (c + 1)" by (simp only: mod_pos_pos_trivial)
        with c show ?thesis by simp
      qed
      ultimately show ?thesis by (simp add: is_leap_def)
    qed
    with ok show ?thesis
      by (cases "d = 29") (auto simp: days_in_def m)
  qed
  then show "1 \<le> m" "m \<le> 12" "1 \<le> d" "d \<le> days_in m y" by auto
qed

section \<open>Reading back a time\<close>

lemma pad_length [simp]: "n < 10 ^ w \<Longrightarrow> 0 < w \<Longrightarrow> length (pad w n) = w"
  using show_nat_length [of n w] by (simp add: pad_def Let_def)

lemma pad_digits [simp]: "list_all is_digit (pad w n)"
  using show_nat_digits [of n] by (auto simp: pad_def Let_def list_all_iff)

lemma pad_val [simp]: "digits_val (pad w n) = n"
  by (simp add: pad_def Let_def digits_val_zeros)

lemma read_field_pad [simp]:
  "n < 10 ^ w \<Longrightarrow> 0 < w \<Longrightarrow> lo \<le> n \<Longrightarrow> n \<le> hi \<Longrightarrow> read_field w lo hi (pad w n @ s) = Some (n, s)"
  by (simp add: read_field_def)

lemma read_sep_pad [simp]:
  "n < 10 ^ w \<Longrightarrow> 0 < w \<Longrightarrow> lo \<le> n \<Longrightarrow> n \<le> hi \<Longrightarrow>
     read_sep w lo hi c (pad w n @ c # s) = Some (n, s)"
  by (simp add: read_sep_def read_char_def)

lemma strip_trailing: "\<exists>k. rev (dropWhile (\<lambda>c. c = CHR ''0'') (rev p)) @ replicate k (CHR ''0'') = p"
proof -
  have "rev p = takeWhile (\<lambda>c. c = CHR ''0'') (rev p) @ dropWhile (\<lambda>c. c = CHR ''0'') (rev p)"
    by simp
  moreover have "takeWhile (\<lambda>c. c = CHR ''0'') q = replicate (length (takeWhile (\<lambda>c. c = CHR ''0'') q)) (CHR ''0'')"
    for q :: string
    by (rule replicate_eqI) (auto dest: set_takeWhileD)
  ultimately show ?thesis
    by (metis rev_append rev_replicate rev_rev_ident)
qed

lemma read_frac_text:
  assumes "n < 10 ^ 9" and z: "z \<noteq> []" "\<not> is_digit (hd z)" "hd z \<noteq> CHR ''.''"
  shows "read_frac (frac_text n @ z) = (n, z)"
proof (cases "n = 0")
  case True
  then show ?thesis
    using z by (cases z) (auto simp: frac_text_def read_frac_def Let_def)
next
  case False
  define ds where "ds = rev (dropWhile (\<lambda>c. c = CHR ''0'') (rev (pad 9 n)))"
  obtain k where k: "ds @ replicate k (CHR ''0'') = pad 9 n"
    using strip_trailing unfolding ds_def by blast
  have len: "length ds + k = 9"
    using arg_cong [OF k, of length] assms(1) by simp
  have dig: "list_all is_digit ds"
    using pad_digits [of 9 n] unfolding k [symmetric] by simp
  have "ds \<noteq> []"
  proof
    assume "ds = []"
    with k have "n = digits_val (replicate k (CHR ''0''))" by (metis append_Nil pad_val)
    with False digits_val_zeros [of k "[]"] show False by simp
  qed
  moreover have "takeWhile is_digit (ds @ z) = ds"
    using dig z by (cases z) (simp_all add: takeWhile_append list_all_iff)
  moreover have "take 9 (ds @ replicate 9 (CHR ''0'')) = pad 9 n"
    using len unfolding k [symmetric] by (simp add: min_def)
  ultimately show ?thesis
    using False by (simp add: frac_text_def ds_def [symmetric] read_frac_def Let_def)
qed

lemma zone_text_head: "zone_text off \<noteq> []" "\<not> is_digit (hd (zone_text off))" "hd (zone_text off) \<noteq> CHR ''.''"
  by (simp_all add: zone_text_def is_digit_def)

lemma read_zone_text:
  assumes "\<bar>off\<bar> < 24 * 60"
  shows "read_zone (zone_text off) = Some off"
proof -
  define h mi where "h = nat (\<bar>off\<bar> div 60)" and "mi = nat (\<bar>off\<bar> mod 60)"
  have hm: "h \<le> 23" "mi \<le> 59" using assms by (simp_all add: h_def mi_def)
  have eq: "int (h * 60 + mi) = \<bar>off\<bar>"
    using pos_imp_zdiv_nonneg_iff [of 60 "\<bar>off\<bar>"] by (simp add: h_def mi_def)
  have "read_field 2 0 59 (pad 2 mi) = Some (mi, [])"
    using read_field_pad [of mi 2 0 59 "[]"] hm by simp
  moreover have "read_field 2 0 23 (pad 2 h @ CHR '':'' # pad 2 mi) = Some (h, CHR '':'' # pad 2 mi)"
    using hm by simp
  ultimately show ?thesis
    using eq by (auto simp: zone_text_def h_def [symmetric] mi_def [symmetric] read_zone_def read_char_def)
qed

theorem parse_time_text:
  assumes "time_text t = Some s"
  shows "parse_time s = Some t"
proof -
  define loc where "loc = t_ns t + t_off t * 60 * nsec_per_sec"
  define secs where "secs = loc div nsec_per_sec"
  define ns where "ns = loc mod nsec_per_sec"
  define sod where "sod = secs mod 86400"
  obtain y m d where ymd: "civil_of_days (secs div 86400) = (y, m, d)"
    by (cases "civil_of_days (secs div 86400)")
  note defs = loc_def [symmetric] secs_def [symmetric] ns_def [symmetric] sod_def [symmetric]
  have y: "0 \<le> y" "y \<le> 9999" and off: "\<bar>t_off t\<bar> < 24 * 60" and
    s: "s = pad 4 (nat y) @ ''-'' @ pad 2 (nat m) @ ''-'' @ pad 2 (nat d) @ ''T'' @
            pad 2 (nat (sod div 3600)) @ '':'' @ pad 2 (nat (sod div 60 mod 60)) @ '':'' @
            pad 2 (nat (sod mod 60)) @ frac_text (nat ns) @ zone_text (t_off t)"
    using assms unfolding time_text_def Let_def defs by (simp_all add: ymd split: if_splits)
  note val = civil_of_days_valid [OF ymd]
  have "days_in m y \<le> 31" by (simp add: days_in_def)
  with val have d31: "d \<le> 31" by simp
  have sod: "0 \<le> sod" "sod < 86400" by (simp_all add: sod_def)
  have ns: "0 \<le> ns" "ns < 10 ^ 9" by (simp_all add: ns_def nsec_per_sec_def)
  define hh mi ss where "hh = nat (sod div 3600)" and "mi = nat (sod div 60 mod 60)" and "ss = nat (sod mod 60)"
  have hms: "hh \<le> 23" "mi \<le> 59" "ss \<le> 59" using sod by (simp_all add: hh_def mi_def ss_def)
  have sum: "int (hh * 3600 + mi * 60 + ss) = sod"
  proof -
    have "sod div 3600 = sod div 60 div 60" by (simp add: zdiv_zmult2_eq [symmetric])
    then have "sod div 3600 * 3600 + sod div 60 mod 60 * 60 = sod div 60 * 60"
      using div_mult_mod_eq [of "sod div 60" 60] by (simp only:)
    then have "sod div 3600 * 3600 + sod div 60 mod 60 * 60 + sod mod 60 = sod"
      using div_mult_mod_eq [of sod 60] by linarith
    then show ?thesis
      using sod pos_imp_zdiv_nonneg_iff [of 3600 sod] by (simp add: hh_def mi_def ss_def)
  qed
  have frac: "read_frac (frac_text (nat ns) @ zone_text (t_off t)) = (nat ns, zone_text (t_off t))"
    by (rule read_frac_text) (use ns zone_text_head in auto)
  have "(days_of_civil y m d * 86400 + sod - t_off t * 60) * nsec_per_sec + ns = t_ns t"
  proof -
    have "days_of_civil y m d * 86400 + sod = secs"
      using days_of_civil_of_days [OF ymd] by (simp add: sod_def)
    moreover have "secs * nsec_per_sec + ns = loc"
      by (simp add: secs_def ns_def)
    ultimately show ?thesis
      by (simp add: loc_def algebra_simps)
  qed
  then show ?thesis
    using y val d31 hms ns sum off
    by (simp add: parse_time_def s hh_def [symmetric] mi_def [symmetric] ss_def [symmetric]
        frac read_zone_text)
qed

end
