(* ===== verification/HD_Types.thy ===== *)
theory HD_Types
  imports Go_Json Go_Time
begin

text \<open>
  The contracts of \<^verbatim>\<open>pkg/types\<close>: one record per struct, the fields prefixed by the struct, the
  zero value of each, and the JSON encoding and decoding its tags define. Go's string-typed
  enumerations stay strings with their constants, because the zero value and values outside
  the constants are possible and the code has to cope with them.

  The lemmas at the end show that every struct an action record holds is read back from its
  own encoding unchanged.
\<close>

section \<open>\<^verbatim>\<open>identity.go\<close>\<close>

definition SubjectKindUser :: string where "SubjectKindUser = ''user''"
definition SubjectKindAgent :: string where "SubjectKindAgent = ''agent''"
definition SubjectKindService :: string where "SubjectKindService = ''service''"

record Subject =
  sub_ID :: string
  sub_Kind :: string
  sub_AgentVersion :: string
  sub_DelegationChain :: "string list"
  sub_Scopes :: "string list"
  sub_TrustLevel :: int

definition zero_Subject :: Subject where
  "zero_Subject = \<lparr>sub_ID = [], sub_Kind = [], sub_AgentVersion = [], sub_DelegationChain = [],
     sub_Scopes = [], sub_TrustLevel = 0\<rparr>"

section \<open>\<^verbatim>\<open>provenance.go\<close>\<close>

record Provenance =
  prov_Source :: string
  prov_Trusted :: bool

record Value =
  val_Data :: json
  val_Provenance :: Provenance

definition zero_Value :: Value where
  "zero_Value = \<lparr>val_Data = JNull, val_Provenance = \<lparr>prov_Source = [], prov_Trusted = False\<rparr>\<rparr>"

section \<open>\<^verbatim>\<open>decision.go\<close>\<close>

text \<open>A nil map of arguments is \<open>None\<close>: it is encoded as \<^verbatim>\<open>null\<close>, an empty one as an empty object.\<close>

record Action =
  act_Type :: string
  act_Tool :: string
  act_Resource :: string
  act_Arguments :: "Value gomap option"
  act_Risk :: string
  act_DataClasses :: "string list"
  act_RequiredScopes :: "string list"

definition zero_Action :: Action where
  "zero_Action = \<lparr>act_Type = [], act_Tool = [], act_Resource = [], act_Arguments = None, act_Risk = [],
     act_DataClasses = [], act_RequiredScopes = []\<rparr>"

text \<open>The two cost fields are \<^verbatim>\<open>float64\<close>s, held as the literal \<^verbatim>\<open>encoding/json\<close> prints.\<close>

record Usage =
  us_CallsInWindow :: int
  us_WindowSeconds :: int
  us_CumulativeCostUSD :: string
  us_SessionBudgetUSD :: string

record DecisionContext =
  ctx_SessionID :: string
  ctx_RequestID :: string
  ctx_Time :: gotime
  ctx_Usage :: Usage

record DecisionRequest =
  req_Subject :: Subject
  req_Action :: Action
  req_Context :: DecisionContext

definition OutcomeAllow :: string where "OutcomeAllow = ''allow''"
definition OutcomeDeny :: string where "OutcomeDeny = ''deny''"
definition OutcomeAllowWithObligations :: string where
  "OutcomeAllowWithObligations = ''allow_with_obligations''"

definition ObligationRedact :: string where "ObligationRedact = ''redact''"

record Obligation =
  ob_Type :: string
  ob_Target :: string

record DecisionResponse =
  dr_Outcome :: string
  dr_Obligations :: "Obligation list"
  dr_PolicyID :: string
  dr_Reason :: string

definition zero_DecisionResponse :: DecisionResponse where
  "zero_DecisionResponse = \<lparr>dr_Outcome = [], dr_Obligations = [], dr_PolicyID = [], dr_Reason = []\<rparr>"

section \<open>\<^verbatim>\<open>record.go\<close>\<close>

record PolicyBundleRef =
  pbr_Version :: string
  pbr_Digest :: string

record ActionRecord =
  rec_Timestamp :: gotime
  rec_Subject :: Subject
  rec_Action :: Action
  rec_Decision :: DecisionResponse
  rec_Outcome :: string
  rec_PolicyBundle :: "PolicyBundleRef option"
  rec_PrevHash :: string
  rec_Hash :: string

definition zero_ActionRecord :: ActionRecord where
  "zero_ActionRecord = \<lparr>rec_Timestamp = time_zero, rec_Subject = zero_Subject, rec_Action = zero_Action,
     rec_Decision = zero_DecisionResponse, rec_Outcome = [], rec_PolicyBundle = None,
     rec_PrevHash = [], rec_Hash = []\<rparr>"

definition RecordOutcomeAllowed :: string where "RecordOutcomeAllowed = ''allowed''"
definition RecordOutcomeDenied :: string where "RecordOutcomeDenied = ''denied''"
definition RecordOutcomeFailed :: string where "RecordOutcomeFailed = ''failed''"

section \<open>\<^verbatim>\<open>tool.go\<close>\<close>

record Tool =
  tool_Name :: string
  tool_Description :: string
  tool_InputSchema :: raw
  tool_Upstream :: string

record ToolCall =
  tc_Tool :: string
  tc_Arguments :: "Value gomap option"
  tc_Credential :: string

record ToolResult =
  tr_Content :: raw
  tr_StructuredContent :: raw
  tr_IsError :: bool

definition zero_ToolResult :: ToolResult where
  "zero_ToolResult = \<lparr>tr_Content = None, tr_StructuredContent = None, tr_IsError = False\<rparr>"

section \<open>Encoding\<close>

definition json_of_subject :: "Subject \<Rightarrow> json" where
  "json_of_subject s = JObj
     ([(''id'', JStr (sub_ID s)), (''kind'', JStr (sub_Kind s))] @
      omit_str ''agent_version'' (sub_AgentVersion s) @
      omit_strs ''delegation_chain'' (sub_DelegationChain s) @
      omit_strs ''scopes'' (sub_Scopes s) @
      [(''trust_level'', JNum (show_int (sub_TrustLevel s)))])"

definition json_of_provenance :: "Provenance \<Rightarrow> json" where
  "json_of_provenance p = JObj [(''source'', JStr (prov_Source p)), (''trusted'', JBool (prov_Trusted p))]"

definition json_of_value :: "Value \<Rightarrow> json" where
  "json_of_value v = JObj [(''data'', val_Data v), (''provenance'', json_of_provenance (val_Provenance v))]"

definition json_of_arguments :: "Value gomap option \<Rightarrow> json" where
  "json_of_arguments a = (case a of None \<Rightarrow> JNull | Some m \<Rightarrow> JObj (map (\<lambda>(k, v). (k, json_of_value v)) m))"

definition json_of_action :: "Action \<Rightarrow> json" where
  "json_of_action a = JObj
     ([(''type'', JStr (act_Type a)), (''tool'', JStr (act_Tool a))] @
      omit_str ''resource'' (act_Resource a) @
      [(''arguments'', json_of_arguments (act_Arguments a))] @
      omit_str ''risk'' (act_Risk a) @
      omit_strs ''data_classes'' (act_DataClasses a) @
      omit_strs ''required_scopes'' (act_RequiredScopes a))"

definition json_of_usage :: "Usage \<Rightarrow> json" where
  "json_of_usage u = JObj
     [(''calls_in_window'', JNum (show_int (us_CallsInWindow u))),
      (''window_seconds'', JNum (show_int (us_WindowSeconds u))),
      (''cumulative_cost_usd'', JNum (us_CumulativeCostUSD u)),
      (''session_budget_usd'', JNum (us_SessionBudgetUSD u))]"

definition json_of_context :: "DecisionContext \<Rightarrow> json option" where
  "json_of_context c = map_option (\<lambda>t. JObj
     [(''session_id'', JStr (ctx_SessionID c)), (''request_id'', JStr (ctx_RequestID c)),
      (''time'', JStr t), (''usage'', json_of_usage (ctx_Usage c))]) (time_text (ctx_Time c))"

definition json_of_request :: "DecisionRequest \<Rightarrow> json option" where
  "json_of_request r = map_option (\<lambda>c. JObj
     [(''subject'', json_of_subject (req_Subject r)), (''action'', json_of_action (req_Action r)),
      (''context'', c)]) (json_of_context (req_Context r))"

definition json_of_obligation :: "Obligation \<Rightarrow> json" where
  "json_of_obligation b = JObj [(''type'', JStr (ob_Type b)), (''target'', JStr (ob_Target b))]"

definition json_of_decision :: "DecisionResponse \<Rightarrow> json" where
  "json_of_decision d = JObj
     ([(''outcome'', JStr (dr_Outcome d))] @
      (if dr_Obligations d = [] then [] else [(''obligations'', JArr (map json_of_obligation (dr_Obligations d)))]) @
      [(''policy_id'', JStr (dr_PolicyID d))] @
      omit_str ''reason'' (dr_Reason d))"

definition json_of_bundle_ref :: "PolicyBundleRef \<Rightarrow> json" where
  "json_of_bundle_ref b = JObj [(''version'', JStr (pbr_Version b)), (''digest'', JStr (pbr_Digest b))]"

text \<open>
  The members of an \<^verbatim>\<open>ActionRecord\<close> before \<^verbatim>\<open>hash\<close>: exactly what \<^verbatim>\<open>hashable\<close> of
  \<^verbatim>\<open>pkg/audit/file_store.go\<close> encodes as well.
\<close>

definition record_members :: "ActionRecord \<Rightarrow> (string \<times> json) list option" where
  "record_members r = map_option (\<lambda>t.
     [(''timestamp'', JStr t), (''subject'', json_of_subject (rec_Subject r)),
      (''action'', json_of_action (rec_Action r)), (''decision'', json_of_decision (rec_Decision r)),
      (''outcome'', JStr (rec_Outcome r))] @
     (case rec_PolicyBundle r of None \<Rightarrow> [] | Some b \<Rightarrow> [(''policy_bundle'', json_of_bundle_ref b)]) @
     [(''prev_hash'', JStr (rec_PrevHash r))]) (time_text (rec_Timestamp r))"

definition json_of_record :: "ActionRecord \<Rightarrow> json option" where
  "json_of_record r = map_option (\<lambda>ms. JObj (ms @ [(''hash'', JStr (rec_Hash r))])) (record_members r)"

section \<open>Decoding\<close>

definition subject_fields :: "Subject field list" where
  "subject_fields =
     [(''id'', dec_str (\<lambda>x. sub_ID_update (\<lambda>_. x))),
      (''kind'', dec_str (\<lambda>x. sub_Kind_update (\<lambda>_. x))),
      (''agent_version'', dec_str (\<lambda>x. sub_AgentVersion_update (\<lambda>_. x))),
      (''delegation_chain'', dec_strs (\<lambda>x. sub_DelegationChain_update (\<lambda>_. x))),
      (''scopes'', dec_strs (\<lambda>x. sub_Scopes_update (\<lambda>_. x))),
      (''trust_level'', dec_int (\<lambda>x. sub_TrustLevel_update (\<lambda>_. x)))]"

definition provenance_fields :: "Provenance field list" where
  "provenance_fields =
     [(''source'', dec_str (\<lambda>x. prov_Source_update (\<lambda>_. x))),
      (''trusted'', dec_bool (\<lambda>x. prov_Trusted_update (\<lambda>_. x)))]"

definition value_fields :: "Value field list" where
  "value_fields =
     [(''data'', dec_any (\<lambda>x. val_Data_update (\<lambda>_. x))),
      (''provenance'', \<lambda>v r. map_option (\<lambda>p. r\<lparr>val_Provenance := p\<rparr>)
         (dec_struct provenance_fields v (val_Provenance r)))]"

text \<open>A map field: \<^verbatim>\<open>null\<close> makes it nil, an object adds its members to the map that is there.\<close>

fun dec_value_members :: "(string \<times> json) list \<Rightarrow> Value gomap \<Rightarrow> Value gomap option" where
  "dec_value_members [] m = Some m"
| "dec_value_members ((k, v) # es) m =
     (case dec_struct value_fields v zero_Value of
        None \<Rightarrow> None
      | Some w \<Rightarrow> dec_value_members es (gm_upd k w m))"

definition dec_arguments :: "json \<Rightarrow> Action \<Rightarrow> Action option" where
  "dec_arguments v r =
     (case v of
        JNull \<Rightarrow> Some (r\<lparr>act_Arguments := None\<rparr>)
      | JObj es \<Rightarrow> map_option (\<lambda>m. r\<lparr>act_Arguments := Some m\<rparr>)
          (dec_value_members es (case act_Arguments r of None \<Rightarrow> [] | Some m \<Rightarrow> m))
      | _ \<Rightarrow> None)"

definition action_fields :: "Action field list" where
  "action_fields =
     [(''type'', dec_str (\<lambda>x. act_Type_update (\<lambda>_. x))),
      (''tool'', dec_str (\<lambda>x. act_Tool_update (\<lambda>_. x))),
      (''resource'', dec_str (\<lambda>x. act_Resource_update (\<lambda>_. x))),
      (''arguments'', dec_arguments),
      (''risk'', dec_str (\<lambda>x. act_Risk_update (\<lambda>_. x))),
      (''data_classes'', dec_strs (\<lambda>x. act_DataClasses_update (\<lambda>_. x))),
      (''required_scopes'', dec_strs (\<lambda>x. act_RequiredScopes_update (\<lambda>_. x)))]"

definition obligation_fields :: "Obligation field list" where
  "obligation_fields =
     [(''type'', dec_str (\<lambda>x. ob_Type_update (\<lambda>_. x))),
      (''target'', dec_str (\<lambda>x. ob_Target_update (\<lambda>_. x)))]"

definition obligation_elem :: "json \<Rightarrow> Obligation option" where
  "obligation_elem v = dec_struct obligation_fields v \<lparr>ob_Type = [], ob_Target = []\<rparr>"

definition decision_fields :: "DecisionResponse field list" where
  "decision_fields =
     [(''outcome'', dec_str (\<lambda>x. dr_Outcome_update (\<lambda>_. x))),
      (''obligations'', dec_slice obligation_elem (\<lambda>x. dr_Obligations_update (\<lambda>_. x))),
      (''policy_id'', dec_str (\<lambda>x. dr_PolicyID_update (\<lambda>_. x))),
      (''reason'', dec_str (\<lambda>x. dr_Reason_update (\<lambda>_. x)))]"

definition bundle_ref_fields :: "PolicyBundleRef field list" where
  "bundle_ref_fields =
     [(''version'', dec_str (\<lambda>x. pbr_Version_update (\<lambda>_. x))),
      (''digest'', dec_str (\<lambda>x. pbr_Digest_update (\<lambda>_. x)))]"

text \<open>A pointer field: \<^verbatim>\<open>null\<close> makes it nil, an object is decoded into what it points to.\<close>

definition dec_policy_bundle :: "json \<Rightarrow> ActionRecord \<Rightarrow> ActionRecord option" where
  "dec_policy_bundle v r =
     (if v = JNull then Some (r\<lparr>rec_PolicyBundle := None\<rparr>)
      else map_option (\<lambda>b. r\<lparr>rec_PolicyBundle := Some b\<rparr>)
        (dec_struct bundle_ref_fields v
           (case rec_PolicyBundle r of None \<Rightarrow> \<lparr>pbr_Version = [], pbr_Digest = []\<rparr> | Some b \<Rightarrow> b)))"

definition dec_time :: "(gotime \<Rightarrow> 'r \<Rightarrow> 'r) \<Rightarrow> json \<Rightarrow> 'r \<Rightarrow> 'r option" where
  "dec_time upd v r =
     (case v of
        JNull \<Rightarrow> Some r
      | JStr s \<Rightarrow> map_option (\<lambda>t. upd t r) (parse_time s)
      | _ \<Rightarrow> None)"

definition record_fields :: "ActionRecord field list" where
  "record_fields =
     [(''timestamp'', dec_time (\<lambda>x. rec_Timestamp_update (\<lambda>_. x))),
      (''subject'', \<lambda>v r. map_option (\<lambda>s. r\<lparr>rec_Subject := s\<rparr>) (dec_struct subject_fields v (rec_Subject r))),
      (''action'', \<lambda>v r. map_option (\<lambda>s. r\<lparr>rec_Action := s\<rparr>) (dec_struct action_fields v (rec_Action r))),
      (''decision'', \<lambda>v r. map_option (\<lambda>s. r\<lparr>rec_Decision := s\<rparr>) (dec_struct decision_fields v (rec_Decision r))),
      (''outcome'', dec_str (\<lambda>x. rec_Outcome_update (\<lambda>_. x))),
      (''policy_bundle'', dec_policy_bundle),
      (''prev_hash'', dec_str (\<lambda>x. rec_PrevHash_update (\<lambda>_. x))),
      (''hash'', dec_str (\<lambda>x. rec_Hash_update (\<lambda>_. x)))]"

definition record_of_json :: "json \<Rightarrow> ActionRecord option" where
  "record_of_json v = dec_struct record_fields v zero_ActionRecord"

section \<open>Well-formed values\<close>

text \<open>
  What a value of these types is in Go: an \<^verbatim>\<open>int\<close> has 64 bits, a map has distinct keys, a value
  of type \<^verbatim>\<open>any\<close> that came out of JSON is in normal form.
\<close>

definition int64_ok :: "int \<Rightarrow> bool" where
  "int64_ok i \<longleftrightarrow> - (2 ^ 63) \<le> i \<and> i < 2 ^ 63"

definition subject_ok :: "Subject \<Rightarrow> bool" where
  "subject_ok s \<longleftrightarrow> int64_ok (sub_TrustLevel s)"

definition arguments_ok :: "Value gomap option \<Rightarrow> bool" where
  "arguments_ok a \<longleftrightarrow>
     (case a of None \<Rightarrow> True | Some m \<Rightarrow> gm_ok m \<and> list_all (\<lambda>e. any_ok (val_Data (snd e))) m)"

definition record_ok :: "ActionRecord \<Rightarrow> bool" where
  "record_ok r \<longleftrightarrow> subject_ok (rec_Subject r) \<and> arguments_ok (act_Arguments (rec_Action r))"

section \<open>Lemmas\<close>

lemma hd_show_nat: "hd (show_nat n) \<noteq> CHR ''-''" "hd (show_nat n) \<noteq> CHR ''+''"
  using show_nat_digits [of n] show_nat_not_Nil [of n]
  by (cases "show_nat n"; auto simp: is_digit_def)+

lemma atoi_show_int: "int64_ok i \<Longrightarrow> atoi (show_int i) = Some i"
  by (auto simp: atoi_def show_int_def Let_def int64_ok_def hd_show_nat)

lemma int_of_lit_show_int [simp]: "int64_ok i \<Longrightarrow> int_of_lit (show_int i) = Some i"
  using atoi_show_int [of i] by (simp add: int_of_lit_def show_int_def hd_show_nat)

lemma dec_elems_map [simp]: "(\<And>x. x \<in> set xs \<Longrightarrow> f (g x) = Some x) \<Longrightarrow> dec_elems f (map g xs) = Some xs"
  by (induction xs) auto

lemma str_elem_JStr [simp]: "str_elem (JStr s) = Some s"
  by (simp add: str_elem_def)

lemma dec_fields_append [simp]:
  "dec_fields fs (xs @ ys) r = (case dec_fields fs xs r of None \<Rightarrow> None | Some r' \<Rightarrow> dec_fields fs ys r')"
  by (induction fs xs r rule: dec_fields.induct) (auto split: option.splits)

lemmas dec_simps = dec_str_def dec_bool_def dec_int_def dec_slice_def dec_struct_def find_field_def
  omit_str_def omit_strs_def

lemma decode_subject:
  "subject_ok s \<Longrightarrow> dec_struct subject_fields (json_of_subject s) zero_Subject = Some s"
  by (simp add: json_of_subject_def subject_fields_def zero_Subject_def dec_simps subject_ok_def)

lemma decode_value [simp]:
  "any_ok (val_Data v) \<Longrightarrow> dec_struct value_fields (json_of_value v) zero_Value = Some v"
  by (simp add: json_of_value_def json_of_provenance_def value_fields_def provenance_fields_def
      zero_Value_def dec_simps dec_any_def any_of_id)

lemma decode_value_members:
  assumes "gm_ok (m @ es)" and "list_all (\<lambda>e. any_ok (val_Data (snd e))) es"
  shows "dec_value_members (map (\<lambda>(k, v). (k, json_of_value v)) es) m = Some (m @ es)"
  using assms
proof (induction es arbitrary: m)
  case (Cons e es)
  obtain k v where e: "e = (k, v)" by (cases e)
  have "\<forall>a \<in> set (map fst m). a < k"
    using Cons.prems(1) by (auto simp: gm_ok_def e sorted_wrt_append)
  then have "gm_upd k v m = m @ [(k, v)]" by (rule gm_upd_last)
  with Cons show ?case
    by (simp add: e)
qed simp

lemma decode_arguments:
  "arguments_ok a \<Longrightarrow> act_Arguments r = None \<Longrightarrow>
     dec_arguments (json_of_arguments a) r = Some (r\<lparr>act_Arguments := a\<rparr>)"
  using decode_value_members [of "[]"]
  by (auto simp: arguments_ok_def json_of_arguments_def dec_arguments_def split: option.splits)

lemma decode_action:
  "arguments_ok (act_Arguments a) \<Longrightarrow> dec_struct action_fields (json_of_action a) zero_Action = Some a"
  by (simp add: json_of_action_def action_fields_def zero_Action_def dec_simps decode_arguments)

lemma decode_obligation [simp]: "obligation_elem (json_of_obligation b) = Some b"
  by (simp add: obligation_elem_def json_of_obligation_def obligation_fields_def dec_simps)

lemma decode_decision:
  "dec_struct decision_fields (json_of_decision d) zero_DecisionResponse = Some d"
  by (simp add: json_of_decision_def decision_fields_def zero_DecisionResponse_def dec_simps)

lemma decode_bundle_ref:
  "rec_PolicyBundle r = None \<Longrightarrow>
     dec_policy_bundle (json_of_bundle_ref b) r = Some (r\<lparr>rec_PolicyBundle := Some b\<rparr>)"
  by (simp add: dec_policy_bundle_def json_of_bundle_ref_def bundle_ref_fields_def dec_simps)

lemma dec_struct_JObj: "dec_struct fs (JObj es) r = dec_fields fs es r"
  by (simp add: dec_struct_def)

theorem record_of_json_of_record:
  assumes "record_ok r" and "json_of_record r = Some v"
  shows "record_of_json v = Some r"
proof -
  obtain t where t: "time_text (rec_Timestamp r) = Some t"
    using assms(2) by (auto simp: json_of_record_def record_members_def)
  obtain ms where v: "v = JObj (ms @ [(''hash'', JStr (rec_Hash r))])" and ms: "record_members r = Some ms"
    using assms(2) by (auto simp: json_of_record_def)
  have "dec_fields record_fields ms zero_ActionRecord = Some (r\<lparr>rec_Hash := []\<rparr>)"
    using assms(1) t ms
    by (cases "rec_PolicyBundle r")
      (auto simp: record_members_def zero_ActionRecord_def record_fields_def record_ok_def find_field_def
        dec_str_def dec_time_def parse_time_text decode_subject decode_action decode_decision
        decode_bundle_ref)
  then show ?thesis
    by (simp add: v record_of_json_def dec_struct_JObj)
      (simp add: record_fields_def find_field_def dec_str_def)
qed

end
