(* ===== verification/HD_Registries.thy ===== *)
theory HD_Registries
  imports HD_Types
begin

text \<open>
  The three governed catalogs: \<^verbatim>\<open>pkg/toolregistry\<close>, \<^verbatim>\<open>pkg/agentregistry\<close> and \<^verbatim>\<open>pkg/modelcatalog\<close>.
  Each is built once from configured entries by a loop that checks every entry and refuses a
  duplicate key, and then answers lookups. The locale \<open>catalog\<close> states that contract once, for
  any key and any entry check; the three packages interpret it.
\<close>

section \<open>The tool registry\<close>

definition RiskLow :: string where "RiskLow = ''low''"
definition RiskMedium :: string where "RiskMedium = ''medium''"
definition RiskHigh :: string where "RiskHigh = ''high''"
definition RiskCritical :: string where "RiskCritical = ''critical''"

definition risk_valid :: "string \<Rightarrow> bool" where
  "risk_valid r \<longleftrightarrow> r = RiskLow \<or> r = RiskMedium \<or> r = RiskHigh \<or> r = RiskCritical"

record ToolEntry =
  te_ToolID :: string
  te_Upstream :: string
  te_Risk :: string
  te_DataClasses :: "string list"
  te_Scopes :: "string list"

record ToolRegistry =
  tr_byID :: "string \<rightharpoonup> ToolEntry"

definition tool_entry_error :: "ToolEntry \<Rightarrow> error option" where
  "tool_entry_error e =
     (if te_ToolID e = [] then Some ''tool registry entry has an empty tool id''
      else if \<not> risk_valid (te_Risk e) then
        Some (''tool '' @ quoteq (te_ToolID e) @ '': invalid risk rating '' @ quoteq (te_Risk e) @
              '' (want one of: low, medium, high, critical)'')
      else None)"

definition tool_duplicate :: "ToolEntry \<Rightarrow> error" where
  "tool_duplicate e = ''tool '' @ quoteq (te_ToolID e) @ '' is registered more than once''"

fun toolregistry_loop :: "ToolEntry list \<Rightarrow> (string \<rightharpoonup> ToolEntry) \<Rightarrow> error + (string \<rightharpoonup> ToolEntry)" where
  "toolregistry_loop [] byID = Inr byID"
| "toolregistry_loop (e # es) byID =
     (case tool_entry_error e of
        Some err \<Rightarrow> Inl err
      | None \<Rightarrow>
          if byID (te_ToolID e) \<noteq> None then Inl (tool_duplicate e)
          else toolregistry_loop es (byID(te_ToolID e \<mapsto> e)))"

definition toolregistry_New :: "ToolEntry list \<Rightarrow> error + ToolRegistry" where
  "toolregistry_New entries =
     (case toolregistry_loop entries Map.empty of
        Inl err \<Rightarrow> Inl err
      | Inr byID \<Rightarrow> Inr \<lparr>tr_byID = byID\<rparr>)"

definition toolregistry_Lookup :: "ToolRegistry \<Rightarrow> string \<Rightarrow> ToolEntry option" where
  "toolregistry_Lookup r toolID = tr_byID r toolID"

section \<open>The agent registry\<close>

record AgentEntry =
  ae_AgentID :: string
  ae_Version :: string
  ae_Owner :: string
  ae_Risk :: string
  ae_DataClasses :: "string list"

record AgentRegistry =
  ar_byID :: "string \<rightharpoonup> AgentEntry"

definition agent_entry_error :: "AgentEntry \<Rightarrow> error option" where
  "agent_entry_error e =
     (if ae_AgentID e = [] then Some ''agent registry entry has an empty agent id'' else None)"

definition agent_duplicate :: "AgentEntry \<Rightarrow> error" where
  "agent_duplicate e = ''agent '' @ quoteq (ae_AgentID e) @ '' is registered more than once''"

fun agentregistry_loop :: "AgentEntry list \<Rightarrow> (string \<rightharpoonup> AgentEntry) \<Rightarrow> error + (string \<rightharpoonup> AgentEntry)" where
  "agentregistry_loop [] byID = Inr byID"
| "agentregistry_loop (e # es) byID =
     (case agent_entry_error e of
        Some err \<Rightarrow> Inl err
      | None \<Rightarrow>
          if byID (ae_AgentID e) \<noteq> None then Inl (agent_duplicate e)
          else agentregistry_loop es (byID(ae_AgentID e \<mapsto> e)))"

definition agentregistry_New :: "AgentEntry list \<Rightarrow> error + AgentRegistry" where
  "agentregistry_New entries =
     (case agentregistry_loop entries Map.empty of
        Inl err \<Rightarrow> Inl err
      | Inr byID \<Rightarrow> Inr \<lparr>ar_byID = byID\<rparr>)"

definition agentregistry_Lookup :: "AgentRegistry \<Rightarrow> string \<Rightarrow> AgentEntry option" where
  "agentregistry_Lookup r agentID = ar_byID r agentID"

section \<open>The model catalog\<close>

record ModelEntry =
  me_Provider :: string
  me_Model :: string
  me_Approved :: bool
  me_AllowedDataClasses :: "string list"
  me_Residency :: string

type_synonym model_key = "string \<times> string"

record ModelCatalog =
  mc_byKey :: "model_key \<rightharpoonup> ModelEntry"

definition model_key_of :: "ModelEntry \<Rightarrow> model_key" where
  "model_key_of e = (me_Provider e, me_Model e)"

definition model_entry_error :: "ModelEntry \<Rightarrow> error option" where
  "model_entry_error e =
     (if me_Provider e = [] \<or> me_Model e = [] then Some ''model catalog entry has an empty provider or model''
      else None)"

definition model_duplicate :: "ModelEntry \<Rightarrow> error" where
  "model_duplicate e =
     ''provider '' @ quoteq (me_Provider e) @ '' model '' @ quoteq (me_Model e) @ '' is registered more than once''"

fun modelcatalog_loop :: "ModelEntry list \<Rightarrow> (model_key \<rightharpoonup> ModelEntry) \<Rightarrow> error + (model_key \<rightharpoonup> ModelEntry)" where
  "modelcatalog_loop [] byKey = Inr byKey"
| "modelcatalog_loop (e # es) byKey =
     (case model_entry_error e of
        Some err \<Rightarrow> Inl err
      | None \<Rightarrow>
          if byKey (model_key_of e) \<noteq> None then Inl (model_duplicate e)
          else modelcatalog_loop es (byKey(model_key_of e \<mapsto> e)))"

definition modelcatalog_New :: "ModelEntry list \<Rightarrow> error + ModelCatalog" where
  "modelcatalog_New entries =
     (case modelcatalog_loop entries Map.empty of
        Inl err \<Rightarrow> Inl err
      | Inr byKey \<Rightarrow> Inr \<lparr>mc_byKey = byKey\<rparr>)"

definition modelcatalog_Lookup :: "ModelCatalog \<Rightarrow> string \<Rightarrow> string \<Rightarrow> ModelEntry option" where
  "modelcatalog_Lookup r provider model = mc_byKey r (provider, model)"

section \<open>The contract of a catalog\<close>

locale catalog =
  fixes key :: "'e \<Rightarrow> 'k"
    and bad :: "'e \<Rightarrow> error option"
    and dup :: "'e \<Rightarrow> error"
    and loop :: "'e list \<Rightarrow> ('k \<rightharpoonup> 'e) \<Rightarrow> error + ('k \<rightharpoonup> 'e)"
  assumes loop_Nil: "loop [] m = Inr m"
    and loop_Cons: "loop (e # es) m =
      (case bad e of
         Some err \<Rightarrow> Inl err
       | None \<Rightarrow> if m (key e) \<noteq> None then Inl (dup e) else loop es (m(key e \<mapsto> e)))"
begin

lemma loop_accepts:
  "(\<exists>n. loop es m = Inr n) \<longleftrightarrow>
     (\<forall>e \<in> set es. bad e = None) \<and> distinct (map key es) \<and> key ` set es \<inter> dom m = {}"
  by (induction es arbitrary: m) (auto simp: loop_Nil loop_Cons split: option.splits)

lemma loop_result:
  "loop es m = Inr n \<Longrightarrow> n k = (if k \<in> key ` set es then find (\<lambda>e. key e = k) es else m k)"
proof (induction es arbitrary: m)
  case (Cons e es)
  have "key e \<notin> key ` set es" using loop_accepts [of "e # es" m] Cons.prems by auto
  with Cons show ?case by (auto simp: loop_Cons split: option.splits if_splits)
qed (simp add: loop_Nil)

lemma loop_lookup:
  assumes "loop es Map.empty = Inr n"
  shows "n k = Some e \<longleftrightarrow> e \<in> set es \<and> key e = k"
proof -
  have dist: "distinct (map key es)" using loop_accepts [of es Map.empty] assms by auto
  show ?thesis
  proof (cases "k \<in> key ` set es")
    case False
    then show ?thesis using loop_result [OF assms, of k] by auto
  next
    case True
    have "find (\<lambda>e. key e = k) es = Some e \<longleftrightarrow> e \<in> set es \<and> key e = k"
      using dist by (induction es) (auto simp: find_None_iff)
    with True show ?thesis using loop_result [OF assms, of k] by simp
  qed
qed

lemma find_no_key: "k \<notin> key ` set es \<Longrightarrow> find (\<lambda>e. key e = k) es = None"
  by (auto simp: find_None_iff)

lemma loop_spec:
  "loop es Map.empty = Inr n \<longleftrightarrow>
     list_all (\<lambda>e. bad e = None) es \<and> distinct (map key es) \<and> n = (\<lambda>k. find (\<lambda>e. key e = k) es)"
proof
  assume n: "loop es Map.empty = Inr n"
  then have "list_all (\<lambda>e. bad e = None) es \<and> distinct (map key es)"
    using loop_accepts [of es Map.empty] by (auto simp: list_all_iff)
  moreover have "n k = find (\<lambda>e. key e = k) es" for k
    using loop_result [OF n, of k] by (auto simp: find_no_key split: if_splits)
  ultimately show "list_all (\<lambda>e. bad e = None) es \<and> distinct (map key es) \<and> n = (\<lambda>k. find (\<lambda>e. key e = k) es)"
    by auto
next
  assume ok: "list_all (\<lambda>e. bad e = None) es \<and> distinct (map key es) \<and> n = (\<lambda>k. find (\<lambda>e. key e = k) es)"
  then obtain n' where n': "loop es Map.empty = Inr n'"
    using loop_accepts [of es Map.empty] by (auto simp: list_all_iff)
  have "n' k = n k" for k
    using loop_result [OF n', of k] ok by (auto simp: find_no_key split: if_splits)
  with n' show "loop es Map.empty = Inr n" by auto
qed

text \<open>A refused list: the error is that of the first entry that is bad or repeats a key.\<close>

lemma loop_error:
  assumes "loop es m = Inl err"
  shows "\<exists>pre e post. es = pre @ e # post \<and> (\<exists>n. loop pre m = Inr n) \<and>
     (bad e = Some err \<or> (bad e = None \<and> err = dup e \<and> (key e \<in> key ` set pre \<or> m (key e) \<noteq> None)))"
  using assms
proof (induction es arbitrary: m)
  case (Cons e es)
  show ?case
  proof (cases "bad e = None \<and> m (key e) = None")
    case False
    with Cons.prems show ?thesis
      by (intro exI [of _ "[]"] exI [of _ e] exI [of _ es])
        (auto simp: loop_Nil loop_Cons split: option.splits if_splits)
  next
    case True
    with Cons.prems have "loop es (m(key e \<mapsto> e)) = Inl err" by (simp add: loop_Cons)
    from Cons.IH [OF this] obtain pre f post where
      es: "es = pre @ f # post" and pre: "\<exists>n. loop pre (m(key e \<mapsto> e)) = Inr n" and
      f: "bad f = Some err \<or> (bad f = None \<and> err = dup f \<and>
            (key f \<in> key ` set pre \<or> (m(key e \<mapsto> e)) (key f) \<noteq> None))"
      by blast
    show ?thesis
      using True es pre f
      by (intro exI [of _ "e # pre"] exI [of _ f] exI [of _ post]) (auto simp: loop_Cons split: if_splits)
  qed
qed (simp add: loop_Nil)

end

interpretation tools: catalog te_ToolID tool_entry_error tool_duplicate toolregistry_loop
  by unfold_locales simp_all

interpretation agents: catalog ae_AgentID agent_entry_error agent_duplicate agentregistry_loop
  by unfold_locales simp_all

interpretation models: catalog model_key_of model_entry_error model_duplicate modelcatalog_loop
  by unfold_locales simp_all

section \<open>Properties\<close>

lemma toolregistry_New_Inr:
  "toolregistry_New es = Inr r \<longleftrightarrow> toolregistry_loop es Map.empty = Inr (tr_byID r)"
  by (cases r) (auto simp: toolregistry_New_def split: sum.splits)

lemma agentregistry_New_Inr:
  "agentregistry_New es = Inr r \<longleftrightarrow> agentregistry_loop es Map.empty = Inr (ar_byID r)"
  by (cases r) (auto simp: agentregistry_New_def split: sum.splits)

lemma modelcatalog_New_Inr:
  "modelcatalog_New es = Inr r \<longleftrightarrow> modelcatalog_loop es Map.empty = Inr (mc_byKey r)"
  by (cases r) (auto simp: modelcatalog_New_def split: sum.splits)

text \<open>The tool registry is built exactly when every entry has an identifier and one of the
  four risk ratings and no identifier occurs twice, and a lookup then returns exactly the
  declared entry of that identifier: what was not declared is not found.\<close>

lemma toolregistry_governs:
  "toolregistry_New es = Inr r \<longleftrightarrow>
     list_all (\<lambda>e. te_ToolID e \<noteq> [] \<and> risk_valid (te_Risk e)) es \<and> distinct (map te_ToolID es) \<and>
     (\<forall>k. toolregistry_Lookup r k = find (\<lambda>e. te_ToolID e = k) es)"
  by (auto simp: toolregistry_New_Inr tools.loop_spec tool_entry_error_def toolregistry_Lookup_def
      fun_eq_iff list_all_iff)

text \<open>The model catalog is built exactly when every entry names a provider and a model and no
  pair occurs twice, and a lookup of a pair returns exactly the entry declared for both halves.\<close>

lemma modelcatalog_governs:
  "modelcatalog_New es = Inr r \<longleftrightarrow>
     list_all (\<lambda>e. me_Provider e \<noteq> [] \<and> me_Model e \<noteq> []) es \<and> distinct (map model_key_of es) \<and>
     (\<forall>p m. modelcatalog_Lookup r p m = find (\<lambda>e. me_Provider e = p \<and> me_Model e = m) es)"
  by (auto simp: modelcatalog_New_Inr models.loop_spec model_entry_error_def modelcatalog_Lookup_def
      fun_eq_iff list_all_iff model_key_of_def)

text \<open>The agent registry likewise; the gateway's properties use it.\<close>

lemma agentregistry_governs:
  "agentregistry_New es = Inr r \<longleftrightarrow>
     list_all (\<lambda>e. ae_AgentID e \<noteq> []) es \<and> distinct (map ae_AgentID es) \<and>
     (\<forall>k. agentregistry_Lookup r k = find (\<lambda>e. ae_AgentID e = k) es)"
  by (auto simp: agentregistry_New_Inr agents.loop_spec agent_entry_error_def agentregistry_Lookup_def
      fun_eq_iff list_all_iff)

text \<open>A refused tool registry names its first offending entry: the entries before it are
  acceptable on their own, and the error is that entry's own fault, or that its identifier was
  already taken by one before it.\<close>

lemma toolregistry_first_error:
  assumes "toolregistry_New es = Inl err"
  shows "\<exists>pre e post. es = pre @ e # post \<and> (\<exists>r. toolregistry_New pre = Inr r) \<and>
     (tool_entry_error e = Some err \<or>
      tool_entry_error e = None \<and> err = tool_duplicate e \<and> te_ToolID e \<in> te_ToolID ` set pre)"
proof -
  have "toolregistry_loop es Map.empty = Inl err"
    using assms by (auto simp: toolregistry_New_def split: sum.splits)
  from tools.loop_error [OF this] obtain pre e post n where
    "es = pre @ e # post" "toolregistry_loop pre Map.empty = Inr n"
    "tool_entry_error e = Some err \<or>
      tool_entry_error e = None \<and> err = tool_duplicate e \<and> te_ToolID e \<in> te_ToolID ` set pre"
    by auto
  moreover from this(2) have "toolregistry_New pre = Inr \<lparr>tr_byID = n\<rparr>"
    by (simp add: toolregistry_New_Inr)
  ultimately show ?thesis by blast
qed

definition example_tool :: ToolEntry where
  "example_tool = \<lparr>te_ToolID = ''t'', te_Upstream = [], te_Risk = ''low'', te_DataClasses = [], te_Scopes = []\<rparr>"

end
