(* ===== verification/HD_Usage.thy ===== *)
theory HD_Usage
  imports HD_Types
begin

text \<open>
  \<^verbatim>\<open>internal/gateway/usage.go\<close>: the call counter per subject, a fixed window that restarts with
  the first call after it has elapsed. Each method holds the tracker's mutex from start to
  end, so a method is one step on the tracker's state and concurrent calls are sequences of
  these steps.

  The reference is the list of all calls with their times: the tracker's answer for a subject
  depends on that subject's calls only (\<open>run_usage_filter\<close>), and a policy that admits a call
  only while the reported count is at most \<open>N\<close> admits at most \<open>2 N - 1\<close> calls of a subject in any
  stretch of time as long as the window, the price of the fixed window against a sliding one.
\<close>

section \<open>The tracker\<close>

record windowState =
  ws_start :: gotime
  ws_count :: int

record usageTracker =
  ut_window :: int
  ut_state :: "string \<rightharpoonup> windowState"

definition defaultUsageWindow :: int where
  "defaultUsageWindow = time_Minute"

definition newUsageTracker :: usageTracker where
  "newUsageTracker = \<lparr>ut_window = defaultUsageWindow, ut_state = Map.empty\<rparr>"

text \<open>The window a subject's next call falls into: the running one, or a new one with count 0.\<close>

definition current_window :: "usageTracker \<Rightarrow> string \<Rightarrow> gotime \<Rightarrow> windowState" where
  "current_window t subjectID now =
     (case ut_state t subjectID of
        Some s \<Rightarrow>
          if ut_window t \<le> time_sub now (ws_start s) then \<lparr>ws_start = now, ws_count = 0\<rparr> else s
      | None \<Rightarrow> \<lparr>ws_start = now, ws_count = 0\<rparr>)"

definition recordAndCount :: "usageTracker \<Rightarrow> string \<Rightarrow> gotime \<Rightarrow> int \<times> usageTracker" where
  "recordAndCount t subjectID now =
     (let s = current_window t subjectID now;
          s' = s\<lparr>ws_count := ws_count s + 1\<rparr>
      in (ws_count s', t\<lparr>ut_state := (ut_state t)(subjectID \<mapsto> s')\<rparr>))"

definition usage_peek :: "usageTracker \<Rightarrow> string \<Rightarrow> gotime \<Rightarrow> int" where
  "usage_peek t subjectID now =
     (case ut_state t subjectID of
        None \<Rightarrow> 0
      | Some s \<Rightarrow> if ut_window t \<le> time_sub now (ws_start s) then 0 else ws_count s)"

definition usage_of :: "int \<Rightarrow> int \<Rightarrow> Usage" where
  "usage_of calls window =
     \<lparr>us_CallsInWindow = calls, us_WindowSeconds = window div nsec_per_sec,
      us_CumulativeCostUSD = ''0'', us_SessionBudgetUSD = ''0''\<rparr>"

definition usage_usage :: "usageTracker \<Rightarrow> string \<Rightarrow> gotime \<Rightarrow> Usage \<times> usageTracker" where
  "usage_usage t subjectID now =
     (let (n, t') = recordAndCount t subjectID now in (usage_of n (ut_window t), t'))"

definition usagePeek :: "usageTracker \<Rightarrow> string \<Rightarrow> gotime \<Rightarrow> Usage" where
  "usagePeek t subjectID now = usage_of (usage_peek t subjectID now) (ut_window t)"

section \<open>Runs\<close>

text \<open>The counts reported over a sequence of calls, each with its subject and time.\<close>

fun run_usage :: "usageTracker \<Rightarrow> (string \<times> gotime) list \<Rightarrow> (string \<times> gotime \<times> int) list" where
  "run_usage t [] = []"
| "run_usage t ((s, now) # cs) =
     (let (n, t') = recordAndCount t s now in (s, now, n) # run_usage t' cs)"

text \<open>The same for one subject alone, by its window.\<close>

fun run_window :: "int \<Rightarrow> windowState option \<Rightarrow> gotime list \<Rightarrow> (gotime \<times> int) list" where
  "run_window w ws [] = []"
| "run_window w ws (now # ts) =
     (let s = (case ws of
                 Some s \<Rightarrow> if w \<le> time_sub now (ws_start s) then \<lparr>ws_start = now, ws_count = 0\<rparr> else s
               | None \<Rightarrow> \<lparr>ws_start = now, ws_count = 0\<rparr>);
          s' = s\<lparr>ws_count := ws_count s + 1\<rparr>
      in (now, ws_count s') # run_window w (Some s') ts)"

definition times_of :: "string \<Rightarrow> (string \<times> gotime) list \<Rightarrow> gotime list" where
  "times_of s cs = map snd (filter (\<lambda>c. fst c = s) cs)"

text \<open>The calls of \<open>s\<close> that a limit of \<open>N\<close> lets through, at times from \<open>a\<close> on and before \<open>b\<close>.\<close>

definition admitted :: "string \<Rightarrow> int \<Rightarrow> int \<Rightarrow> int \<Rightarrow> (string \<times> gotime \<times> int) list \<Rightarrow> (string \<times> gotime \<times> int) list" where
  "admitted s N a b rs = filter (\<lambda>(s', t, n). s' = s \<and> n \<le> N \<and> a \<le> t_ns t \<and> t_ns t < b) rs"

section \<open>Lemmas\<close>

lemma run_usage_filter:
  "map snd (filter (\<lambda>r. fst r = s) (run_usage t cs)) = run_window (ut_window t) (ut_state t s) (times_of s cs)"
proof (induction t cs rule: run_usage.induct)
  case (2 t s' now cs)
  obtain n t' where rc: "recordAndCount t s' now = (n, t')" by fastforce
  have t': "ut_window t' = ut_window t" "s \<noteq> s' \<Longrightarrow> ut_state t' s = ut_state t s"
    using rc by (auto simp: recordAndCount_def Let_def)
  show ?case
  proof (cases "s' = s")
    case False
    then show ?thesis using 2 rc t' by (simp add: times_of_def)
  next
    case True
    define c where "c = current_window t s now"
    have "n = ws_count c + 1" "ut_state t' s = Some (c\<lparr>ws_count := ws_count c + 1\<rparr>)"
      using rc True by (auto simp: recordAndCount_def Let_def c_def)
    then show ?thesis
      using 2 rc t' True
      by (simp add: times_of_def c_def current_window_def Let_def split: option.splits if_splits)
  qed
qed (simp add: times_of_def)

definition admitted_times :: "int \<Rightarrow> int \<Rightarrow> int \<Rightarrow> (gotime \<times> int) list \<Rightarrow> (gotime \<times> int) list" where
  "admitted_times N a b rs = filter (\<lambda>(t, n). n \<le> N \<and> a \<le> t_ns t \<and> t_ns t < b) rs"

lemma admitted_times_Nil [simp]: "admitted_times N a b [] = []"
  by (simp add: admitted_times_def)

lemma length_admitted:
  "length (admitted s N a b (run_usage t cs)) =
     length (admitted_times N a b (run_window (ut_window t) (ut_state t s) (times_of s cs)))"
proof -
  have "admitted_times N a b (map snd (filter (\<lambda>r. fst r = s) rs)) = map snd (admitted s N a b rs)" for rs
    by (induction rs) (auto simp: admitted_def admitted_times_def)
  then show ?thesis using run_usage_filter [of s t cs] by (metis length_map)
qed

abbreviation in_order :: "gotime list \<Rightarrow> bool" where
  "in_order ts \<equiv> sorted_wrt (\<lambda>x y. t_ns x \<le> t_ns y) ts"

lemma none_admitted_late:
  "\<forall>t \<in> set ts. b \<le> t_ns t \<Longrightarrow> admitted_times N a b (run_window w ws ts) = []"
  by (induction ts arbitrary: ws) (auto simp: admitted_times_def Let_def)

text \<open>Inside one window, and across one boundary.\<close>

lemma admitted_in_window:
  assumes "0 \<le> ws_count s" "b \<le> t_ns (ws_start s) + w" "in_order ts"
  shows "length (admitted_times (int N) a b (run_window w (Some s) ts)) \<le> N - nat (ws_count s)"
  using assms
proof (induction ts arbitrary: s)
  case (Cons t ts)
  show ?case
  proof (cases "t_ns t < b")
    case False
    then have "admitted_times (int N) a b (run_window w (Some s) (t # ts)) = []"
      using Cons.prems(3) by (intro none_admitted_late) auto
    then show ?thesis by simp
  next
    case True
    then have "\<not> w \<le> time_sub t (ws_start s)"
      using Cons.prems(2) by (simp add: time_sub_def)
    moreover have "length (admitted_times (int N) a b
        (run_window w (Some (s\<lparr>ws_count := ws_count s + 1\<rparr>)) ts)) \<le> N - nat (ws_count s + 1)"
      using Cons.IH [of "s\<lparr>ws_count := ws_count s + 1\<rparr>"] Cons.prems by simp
    ultimately show ?thesis
      using Cons.prems(1) by (auto simp: admitted_times_def Let_def)
  qed
qed simp

lemma admitted_across:
  assumes "0 \<le> ws_count s" "b \<le> a + w" "in_order ts" "\<forall>t \<in> set ts. a \<le> t_ns t"
  shows "length (admitted_times (int N) a b (run_window w (Some s) ts)) \<le> (N - nat (ws_count s)) + N"
  using assms
proof (induction ts arbitrary: s)
  case (Cons t ts)
  show ?case
  proof (cases "w \<le> time_sub t (ws_start s)")
    case False
    moreover have "length (admitted_times (int N) a b
        (run_window w (Some (s\<lparr>ws_count := ws_count s + 1\<rparr>)) ts)) \<le> (N - nat (ws_count s + 1)) + N"
      using Cons.IH [of "s\<lparr>ws_count := ws_count s + 1\<rparr>"] Cons.prems by simp
    ultimately show ?thesis
      using Cons.prems(1) by (auto simp: admitted_times_def Let_def)
  next
    case True
    have "length (admitted_times (int N) a b (run_window w (Some \<lparr>ws_start = t, ws_count = 1\<rparr>) ts)) \<le> N - 1"
      using admitted_in_window [of "\<lparr>ws_start = t, ws_count = 1\<rparr>" b w ts N a] Cons.prems by auto
    with True show ?thesis
      by (auto simp: admitted_times_def Let_def)
  qed
qed simp

lemma admitted_window_bound:
  assumes "\<And>s. ws = Some s \<Longrightarrow> 1 \<le> ws_count s" "b \<le> a + w" "in_order ts"
  shows "length (admitted_times (int N) a b (run_window w ws ts)) \<le> 2 * N - 1"
  using assms
proof (induction ts arbitrary: ws)
  case (Cons t ts)
  define s where "s = (case ws of
      Some s \<Rightarrow> if w \<le> time_sub t (ws_start s) then \<lparr>ws_start = t, ws_count = 0\<rparr> else s
    | None \<Rightarrow> \<lparr>ws_start = t, ws_count = 0\<rparr>)"
  define s' where "s' = s\<lparr>ws_count := ws_count s + 1\<rparr>"
  have pos: "1 \<le> ws_count s \<or> ws_count s = 0 \<and> ws_start s = t"
    using Cons.prems(1) by (auto simp: s_def split: option.splits)
  have run: "run_window w ws (t # ts) = (t, ws_count s') # run_window w (Some s') ts"
    by (simp add: s_def s'_def Let_def)
  consider "t_ns t < a" | "a \<le> t_ns t" "1 \<le> ws_count s" | "a \<le> t_ns t" "ws_count s = 0" "ws_start s = t"
    using pos by fastforce
  then show ?case
  proof cases
    case 1
    moreover have "length (admitted_times (int N) a b (run_window w (Some s') ts)) \<le> 2 * N - 1"
      using Cons.prems pos by (intro Cons.IH) (auto simp: s'_def)
    ultimately show ?thesis unfolding run by (simp add: admitted_times_def)
  next
    case 2
    then have "length (admitted_times (int N) a b (run_window w (Some s') ts)) \<le> (N - nat (ws_count s')) + N"
      using Cons.prems by (intro admitted_across) (auto simp: s'_def)
    with 2 show ?thesis unfolding run by (auto simp: admitted_times_def s'_def)
  next
    case 3
    then have "length (admitted_times (int N) a b (run_window w (Some s') ts)) \<le> N - nat (ws_count s')"
      using Cons.prems by (intro admitted_in_window) (auto simp: s'_def)
    with 3 show ?thesis unfolding run by (auto simp: admitted_times_def s'_def)
  qed
qed simp

text \<open>A window in the tracker has counted at least the call that opened it.\<close>

definition usage_ok :: "usageTracker \<Rightarrow> bool" where
  "usage_ok t \<longleftrightarrow> (\<forall>s ws. ut_state t s = Some ws \<longrightarrow> 1 \<le> ws_count ws)"

lemma usage_ok_new [simp]: "usage_ok newUsageTracker"
  by (simp add: usage_ok_def newUsageTracker_def)

lemma usage_ok_record: "usage_ok t \<Longrightarrow> usage_ok (snd (recordAndCount t s now))"
  by (fastforce simp: usage_ok_def recordAndCount_def Let_def current_window_def split: option.splits)

text \<open>C30. A policy that lets a call through only while the reported count is at most \<open>N\<close> lets at
  most \<open>2 N - 1\<close> calls of one subject through in any stretch of time as long as the window,
  whatever other subjects do in between, provided the clock does not run backwards. The
  witness reaches the bound: three calls within one window length at a limit of two.\<close>

theorem usage_rate_bound:
  assumes "usage_ok t" and "in_order (times_of s cs)"
  shows "length (admitted s (int N) a (a + ut_window t) (run_usage t cs)) \<le> 2 * N - 1"
  unfolding length_admitted
  by (rule admitted_window_bound) (use assms in \<open>auto simp: usage_ok_def\<close>)

definition example_calls :: "(string \<times> gotime) list" where
  "example_calls = map (\<lambda>(s, n). (s, \<lparr>t_ns = n, t_off = 0\<rparr>))
     [(''a'', 0), (''a'', 59999999999), (''b'', 59999999999), (''a'', 60000000000), (''a'', 60000000000),
      (''a'', 60000000000)]"

theorem usage_rate_bound_witness:
  "length (admitted ''a'' (int 2) 1 (1 + ut_window newUsageTracker) (run_usage newUsageTracker example_calls)) = 3 \<and>
   length (admitted ''a'' (int 2) 1 (1 + ut_window newUsageTracker) (run_usage newUsageTracker example_calls)) \<le> 2 * 2 - 1"
proof
  show "length (admitted ''a'' (int 2) 1 (1 + ut_window newUsageTracker)
      (run_usage newUsageTracker example_calls)) = 3"
    by (simp add: example_calls_def newUsageTracker_def defaultUsageWindow_def time_Minute_def
        nsec_per_sec_def recordAndCount_def current_window_def time_sub_def admitted_def)
  show "length (admitted ''a'' (int 2) 1 (1 + ut_window newUsageTracker)
      (run_usage newUsageTracker example_calls)) \<le> 2 * 2 - 1"
    by (rule usage_rate_bound) (simp_all add: example_calls_def times_of_def)
qed

text \<open>What the tracker reports: a call is counted at once, for its own subject only, and a peek
  at the same time reports that count without changing it; once the window has elapsed the
  count starts again at one.\<close>

lemma recordAndCount_counts:
  assumes "0 < ut_window t"
  shows "recordAndCount t s now = (usage_peek t s now + 1, snd (recordAndCount t s now)) \<and>
    usage_peek (snd (recordAndCount t s now)) s now = usage_peek t s now + 1 \<and>
    (s' \<noteq> s \<longrightarrow> usage_peek (snd (recordAndCount t s now)) s' now' = usage_peek t s' now') \<and>
    (\<forall>later. ut_window t \<le> time_sub later (ws_start (current_window t s now)) \<longrightarrow>
       fst (recordAndCount (snd (recordAndCount t s now)) s later) = 1)"
  using assms
  by (auto simp: recordAndCount_def usage_peek_def current_window_def time_sub_def Let_def
      split: option.splits)

end
