(* ===== verification/HD_Provenance.thy ===== *)
theory HD_Provenance
  imports HD_Types
begin

text \<open>
  \<^verbatim>\<open>internal/gateway/provenance.go\<close>: the cache that remembers, per subject, which upstream a string
  value was seen coming from. Every method runs under the cache's mutex and is one step.

  A loop over a Go map visits its entries in an order the runtime picks anew each time, so the
  methods that range over a decoded object take that order as an argument \<open>ord\<close>, a function from
  the entries to a permutation of them.

  The abstract view of the cache is the history of what was recorded. The cache is a sound,
  bounded summary of it: a label other than the untrusted default is always the label of the
  latest recording of exactly this value for exactly this subject, still within its time to
  live, and no subject's part of the cache grows beyond its bound.
\<close>

section \<open>The cache\<close>

record cachedProvenance =
  cp_provenance :: Provenance
  cp_expiresAt :: gotime

record provenanceCache =
  pc_ttl :: int
  pc_maxSize :: nat
  pc_bySubject :: "string \<rightharpoonup> cachedProvenance gomap"

definition provenanceCacheTTL :: int where
  "provenanceCacheTTL = 15 * time_Minute"

definition provenanceCacheMaxSize :: nat where
  "provenanceCacheMaxSize = 256"

definition newProvenanceCache :: provenanceCache where
  "newProvenanceCache =
     \<lparr>pc_ttl = provenanceCacheTTL, pc_maxSize = provenanceCacheMaxSize, pc_bySubject = Map.empty\<rparr>"

definition untrustedProvenance :: Provenance where
  "untrustedProvenance = \<lparr>prov_Source = ''unspecified'', prov_Trusted = False\<rparr>"

definition prov_record :: "provenanceCache \<Rightarrow> string \<Rightarrow> string \<Rightarrow> Provenance \<Rightarrow> gotime \<Rightarrow> provenanceCache" where
  "prov_record c subjectID value prov now =
     (if value = [] then c
      else
        (let m = (case pc_bySubject c subjectID of None \<Rightarrow> [] | Some m \<Rightarrow> m);
             m' = (if pc_maxSize c \<le> length m then [] else m)
         in c\<lparr>pc_bySubject := (pc_bySubject c)(subjectID \<mapsto>
                gm_upd value \<lparr>cp_provenance = prov, cp_expiresAt = time_add now (pc_ttl c)\<rparr> m')\<rparr>))"

definition prov_resolve :: "provenanceCache \<Rightarrow> string \<Rightarrow> string \<Rightarrow> gotime \<Rightarrow> Provenance" where
  "prov_resolve c subjectID value now =
     (case pc_bySubject c subjectID of
        None \<Rightarrow> untrustedProvenance
      | Some m \<Rightarrow>
          (case map_of m value of
             None \<Rightarrow> untrustedProvenance
           | Some cp \<Rightarrow> if time_before now (cp_expiresAt cp) then cp_provenance cp else untrustedProvenance))"

fun record_strings :: "provenanceCache \<Rightarrow> string \<Rightarrow> json list \<Rightarrow> Provenance \<Rightarrow> gotime \<Rightarrow> provenanceCache" where
  "record_strings c subjectID [] prov now = c"
| "record_strings c subjectID (v # vs) prov now =
     (case v of
        JStr s \<Rightarrow> record_strings (prov_record c subjectID s prov now) subjectID vs prov now
      | _ \<Rightarrow> record_strings c subjectID vs prov now)"

type_synonym map_order = "(string \<times> json) list \<Rightarrow> (string \<times> json) list"

definition order_ok :: "map_order \<Rightarrow> bool" where
  "order_ok ord \<longleftrightarrow> (\<forall>es. distinct es \<longrightarrow> distinct (ord es) \<and> set (ord es) = set es)"

definition recordTopLevelStrings ::
  "map_order \<Rightarrow> provenanceCache \<Rightarrow> string \<Rightarrow> json \<Rightarrow> Provenance \<Rightarrow> gotime \<Rightarrow> provenanceCache" where
  "recordTopLevelStrings ord c subjectID decoded prov now =
     (case decoded of
        JObj es \<Rightarrow> record_strings c subjectID (map snd (ord es)) prov now
      | JArr vs \<Rightarrow> record_strings c subjectID vs prov now
      | JStr s \<Rightarrow> prov_record c subjectID s prov now
      | _ \<Rightarrow> c)"

section \<open>The history\<close>

record prov_event =
  ev_subject :: string
  ev_value :: string
  ev_prov :: Provenance
  ev_time :: gotime

fun replay :: "provenanceCache \<Rightarrow> prov_event list \<Rightarrow> provenanceCache" where
  "replay c [] = c"
| "replay c (e # es) = replay (prov_record c (ev_subject e) (ev_value e) (ev_prov e) (ev_time e)) es"

text \<open>The latest recording of a value for a subject.\<close>

definition latest :: "prov_event list \<Rightarrow> string \<Rightarrow> string \<Rightarrow> prov_event option" where
  "latest es s v = find (\<lambda>e. ev_subject e = s \<and> ev_value e = v) (rev es)"

text \<open>
  The invariant: bounded, sorted maps whose entries are the latest recordings, with nothing for
  the empty string.
\<close>

definition cache_of :: "prov_event list \<Rightarrow> provenanceCache \<Rightarrow> bool" where
  "cache_of es c \<longleftrightarrow>
     (\<forall>s m. pc_bySubject c s = Some m \<longrightarrow>
        gm_ok m \<and> length m \<le> pc_maxSize c \<and>
        (\<forall>v cp. map_of m v = Some cp \<longrightarrow> v \<noteq> [] \<and>
           (\<exists>e. latest es s v = Some e \<and> cp_provenance cp = ev_prov e \<and>
                cp_expiresAt cp = time_add (ev_time e) (pc_ttl c))))"

section \<open>Lemmas\<close>

lemma latest_snoc:
  "latest (es @ [e]) s v = (if ev_subject e = s \<and> ev_value e = v then Some e else latest es s v)"
  by (simp add: latest_def)

lemma length_gm_upd: "length (gm_upd k v m) \<le> Suc (length m)"
  by (induction k v m rule: gm_upd.induct) auto

lemma cache_of_record:
  assumes "cache_of es c" "0 < pc_maxSize c"
  shows "cache_of (es @ [\<lparr>ev_subject = s, ev_value = v, ev_prov = p, ev_time = t\<rparr>]) (prov_record c s v p t)"
    (is "cache_of (es @ [?e]) ?c")
proof (cases "v = []")
  case True
  then show ?thesis using assms by (fastforce simp: cache_of_def prov_record_def latest_snoc)
next
  case False
  define m0 where "m0 = (case pc_bySubject c s of None \<Rightarrow> [] | Some m \<Rightarrow> m)"
  define m1 where "m1 = (if pc_maxSize c \<le> length m0 then [] else m0)"
  define cp where "cp = \<lparr>cp_provenance = p, cp_expiresAt = time_add t (pc_ttl c)\<rparr>"
  have c': "?c = c\<lparr>pc_bySubject := (pc_bySubject c)(s \<mapsto> gm_upd v cp m1)\<rparr>"
    using False by (simp add: prov_record_def Let_def m0_def m1_def cp_def)
  have m1: "gm_ok m1" "length m1 < pc_maxSize c"
    and old: "\<And>w q. map_of m1 w = Some q \<Longrightarrow> w \<noteq> [] \<and> (\<exists>e. latest es s w = Some e \<and>
        cp_provenance q = ev_prov e \<and> cp_expiresAt q = time_add (ev_time e) (pc_ttl c))"
    using assms by (auto simp: m1_def m0_def cache_of_def split: option.splits if_splits)
  show ?thesis
    unfolding cache_of_def
  proof (intro allI impI)
    fix s' m
    assume m: "pc_bySubject ?c s' = Some m"
    show "gm_ok m \<and> length m \<le> pc_maxSize ?c \<and>
        (\<forall>w q. map_of m w = Some q \<longrightarrow> w \<noteq> [] \<and>
           (\<exists>e. latest (es @ [?e]) s' w = Some e \<and> cp_provenance q = ev_prov e \<and>
                cp_expiresAt q = time_add (ev_time e) (pc_ttl ?c)))"
    proof (cases "s' = s")
      case True
      then have "m = gm_upd v cp m1" using m by (simp add: c')
      then show ?thesis
        using m1 old False length_gm_upd [of v cp m1] True
        by (auto simp: c' map_of_gm_upd latest_snoc cp_def)
    next
      case False
      then show ?thesis
        using assms(1) m by (auto simp: cache_of_def c' latest_snoc)
    qed
  qed
qed

lemma prov_record_consts [simp]:
  "pc_maxSize (prov_record c s v p t) = pc_maxSize c" "pc_ttl (prov_record c s v p t) = pc_ttl c"
  by (simp_all add: prov_record_def Let_def)

lemma replay_consts: "pc_maxSize (replay c es) = pc_maxSize c" "pc_ttl (replay c es) = pc_ttl c"
  by (induction es arbitrary: c) simp_all

lemma cache_of_replay:
  "cache_of es c \<Longrightarrow> 0 < pc_maxSize c \<Longrightarrow> cache_of (es @ fs) (replay c fs)"
proof (induction fs arbitrary: es c)
  case (Cons f fs)
  have "cache_of (es @ [f]) (prov_record c (ev_subject f) (ev_value f) (ev_prov f) (ev_time f))"
    using cache_of_record [OF Cons.prems, of "ev_subject f" "ev_value f" "ev_prov f" "ev_time f"]
    by (cases f) simp
  with Cons show ?case by fastforce
qed simp

lemma cache_of_resolve:
  assumes "cache_of es c" "prov_resolve c s v now \<noteq> untrustedProvenance"
  shows "v \<noteq> [] \<and> (\<exists>e. latest es s v = Some e \<and> prov_resolve c s v now = ev_prov e \<and>
     time_before now (time_add (ev_time e) (pc_ttl c)))"
proof -
  obtain m cp where m: "pc_bySubject c s = Some m" "map_of m v = Some cp"
    and live: "time_before now (cp_expiresAt cp)" "prov_resolve c s v now = cp_provenance cp"
    using assms(2) by (auto simp: prov_resolve_def split: option.splits if_splits)
  with assms(1) obtain e where "v \<noteq> []" "latest es s v = Some e" "cp_provenance cp = ev_prov e"
    "cp_expiresAt cp = time_add (ev_time e) (pc_ttl c)"
    unfolding cache_of_def by blast
  with live show ?thesis by auto
qed

lemma latest_mem: "latest es s v = Some e \<Longrightarrow> e \<in> set es \<and> ev_subject e = s \<and> ev_value e = v"
  by (induction es rule: rev_induct) (auto simp: latest_snoc latest_def split: if_splits)

text \<open>What a result adds to the history.\<close>

fun string_events :: "string \<Rightarrow> json list \<Rightarrow> Provenance \<Rightarrow> gotime \<Rightarrow> prov_event list" where
  "string_events s [] p t = []"
| "string_events s (v # vs) p t =
     (case v of
        JStr x \<Rightarrow> \<lparr>ev_subject = s, ev_value = x, ev_prov = p, ev_time = t\<rparr> # string_events s vs p t
      | _ \<Rightarrow> string_events s vs p t)"

definition result_events :: "map_order \<Rightarrow> string \<Rightarrow> json \<Rightarrow> Provenance \<Rightarrow> gotime \<Rightarrow> prov_event list" where
  "result_events ord s decoded p t =
     (case decoded of
        JObj es \<Rightarrow> string_events s (map snd (ord es)) p t
      | JArr vs \<Rightarrow> string_events s vs p t
      | JStr x \<Rightarrow> string_events s [JStr x] p t
      | _ \<Rightarrow> [])"

lemma record_strings_replay: "record_strings c s vs p t = replay c (string_events s vs p t)"
  by (induction vs arbitrary: c) (auto split: json.splits)

lemma recordTopLevelStrings_replay:
  "recordTopLevelStrings ord c s d p t = replay c (result_events ord s d p t)"
  by (auto simp: recordTopLevelStrings_def result_events_def record_strings_replay split: json.splits)

lemma string_events_set:
  "e \<in> set (string_events s vs p t) \<longleftrightarrow>
     JStr (ev_value e) \<in> set vs \<and> ev_subject e = s \<and> ev_prov e = p \<and> ev_time e = t"
  by (induction vs) (auto split: json.splits)

lemma replay_append: "replay c (es @ fs) = replay (replay c es) fs"
  by (induction es arbitrary: c) auto

lemma replay_other_subject:
  "(\<forall>e \<in> set es. ev_subject e \<noteq> s) \<Longrightarrow> prov_resolve (replay c es) s v now = prov_resolve c s v now"
proof (induction es arbitrary: c)
  case (Cons e es)
  then show ?case by (auto simp: prov_resolve_def prov_record_def Let_def)
qed simp

text \<open>A subject's part of the cache, and what recording does to it as long as nothing overflows.\<close>

definition subject_map :: "provenanceCache \<Rightarrow> string \<Rightarrow> cachedProvenance gomap" where
  "subject_map c s = (case pc_bySubject c s of None \<Rightarrow> [] | Some m \<Rightarrow> m)"

lemma prov_resolve_subject_map:
  "prov_resolve c s v now =
     (case map_of (subject_map c s) v of
        None \<Rightarrow> untrustedProvenance
      | Some cp \<Rightarrow> if time_before now (cp_expiresAt cp) then cp_provenance cp else untrustedProvenance)"
  by (simp add: prov_resolve_def subject_map_def split: option.splits)

lemma subject_map_record:
  "subject_map (prov_record c s v p t) s =
     (if v = [] then subject_map c s
      else gm_upd v \<lparr>cp_provenance = p, cp_expiresAt = time_add t (pc_ttl c)\<rparr>
        (if pc_maxSize c \<le> length (subject_map c s) then [] else subject_map c s))"
  by (simp add: subject_map_def prov_record_def Let_def)

lemma record_strings_fits:
  assumes "length (subject_map c s) + length vs \<le> pc_maxSize c"
  shows "map_of (subject_map (record_strings c s vs p t) s) =
     (\<lambda>v. if v \<noteq> [] \<and> JStr v \<in> set vs
          then Some \<lparr>cp_provenance = p, cp_expiresAt = time_add t (pc_ttl c)\<rparr>
          else map_of (subject_map c s) v)"
  using assms
proof (induction vs arbitrary: c)
  case (Cons x vs)
  show ?case
  proof (cases "\<exists>y. x = JStr y \<and> y \<noteq> []")
    case False
    then have "record_strings c s (x # vs) p t = record_strings c s vs p t"
      by (auto simp: prov_record_def split: json.splits)
    with Cons False show ?thesis by (auto simp: fun_eq_iff)
  next
    case True
    then obtain y where x: "x = JStr y" "y \<noteq> []" by blast
    let ?c = "prov_record c s y p t"
    have len: "length (subject_map ?c s) \<le> Suc (length (subject_map c s))"
      using x(2) Cons.prems length_gm_upd by (simp add: subject_map_record)
    have "record_strings c s (x # vs) p t = record_strings ?c s vs p t" by (simp add: x)
    moreover have "map_of (subject_map ?c s) = (map_of (subject_map c s))
        (y \<mapsto> \<lparr>cp_provenance = p, cp_expiresAt = time_add t (pc_ttl c)\<rparr>)"
      using x(2) Cons.prems by (simp add: subject_map_record map_of_gm_upd)
    ultimately show ?thesis
      using Cons.IH [of ?c] Cons.prems len x by (auto simp: fun_eq_iff)
  qed
qed (simp add: fun_eq_iff)

section \<open>Properties\<close>

text \<open>C28. Provenance cannot be forged: whatever was recorded before, a value resolves to a label
  other than the untrusted default only if it is not empty and the label is that of the latest
  recording of exactly this value for exactly this subject, made less than the time to live
  before.\<close>

theorem resolve_sound:
  assumes "prov_resolve (replay newProvenanceCache es) s v now \<noteq> untrustedProvenance"
  shows "v \<noteq> [] \<and> (\<exists>e \<in> set es. latest es s v = Some e \<and> ev_subject e = s \<and> ev_value e = v \<and>
     prov_resolve (replay newProvenanceCache es) s v now = ev_prov e \<and>
     time_before now (time_add (ev_time e) provenanceCacheTTL))"
proof -
  have "cache_of [] newProvenanceCache" by (simp add: cache_of_def newProvenanceCache_def)
  then have "cache_of es (replay newProvenanceCache es)"
    using cache_of_replay [of "[]" newProvenanceCache es]
    by (simp add: newProvenanceCache_def provenanceCacheMaxSize_def)
  moreover have "pc_ttl (replay newProvenanceCache es) = provenanceCacheTTL"
    by (simp add: replay_consts) (simp add: newProvenanceCache_def)
  ultimately obtain e where "v \<noteq> []" "latest es s v = Some e"
    "prov_resolve (replay newProvenanceCache es) s v now = ev_prov e"
    "time_before now (time_add (ev_time e) provenanceCacheTTL)"
    using cache_of_resolve [OF _ assms, of es] by auto
  with latest_mem [of es s v e] show ?thesis by auto
qed

text \<open>A master record's account number, recorded for one agent.\<close>

definition example_event :: prov_event where
  "example_event = \<lparr>ev_subject = ''agent:a'', ev_value = ''NL01'',
     ev_prov = \<lparr>prov_Source = ''supplier_master_record'', prov_Trusted = True\<rparr>, ev_time = time_zero\<rparr>"

theorem resolve_sound_witness:
  "prov_Trusted (prov_resolve (replay newProvenanceCache [example_event]) ''agent:a'' ''NL01'' time_zero) \<and>
   latest [example_event] ''agent:a'' ''NL01'' = Some example_event"
proof -
  have p: "prov_resolve (replay newProvenanceCache [example_event]) ''agent:a'' ''NL01'' time_zero =
      ev_prov example_event"
    by (simp add: example_event_def prov_resolve_def prov_record_def newProvenanceCache_def
        provenanceCacheTTL_def provenanceCacheMaxSize_def time_before_def time_add_def time_Minute_def
        nsec_per_sec_def)
  have "ev_prov example_event \<noteq> untrustedProvenance"
    by (simp add: example_event_def untrustedProvenance_def)
  with p have "prov_resolve (replay newProvenanceCache [example_event]) ''agent:a'' ''NL01'' time_zero
      \<noteq> untrustedProvenance" by simp
  from resolve_sound [OF this] p show ?thesis by (auto simp: example_event_def)
qed

text \<open>C29. The cache is bounded and subjects are isolated: after any sequence of recordings no subject
  holds more than the maximum number of values, and recordings for other subjects leave what a
  subject's values resolve to unchanged.\<close>

theorem cache_bounded_isolated:
  "length (subject_map (replay newProvenanceCache es) s) \<le> provenanceCacheMaxSize \<and>
   prov_resolve (replay newProvenanceCache es) s v now =
     prov_resolve (replay newProvenanceCache (filter (\<lambda>e. ev_subject e = s) es)) s v now"
proof
  have "cache_of [] newProvenanceCache" by (simp add: cache_of_def newProvenanceCache_def)
  then have "cache_of es (replay newProvenanceCache es)"
    using cache_of_replay [of "[]" newProvenanceCache es]
    by (simp add: newProvenanceCache_def provenanceCacheMaxSize_def)
  moreover have "pc_maxSize (replay newProvenanceCache es) = provenanceCacheMaxSize"
    by (simp add: replay_consts) (simp add: newProvenanceCache_def)
  ultimately show "length (subject_map (replay newProvenanceCache es) s) \<le> provenanceCacheMaxSize"
    by (auto simp: cache_of_def subject_map_def split: option.splits)
  have "subject_map (replay c es) s = subject_map (replay d (filter (\<lambda>e. ev_subject e = s) es)) s"
    if "subject_map c s = subject_map d s" "pc_ttl c = pc_ttl d" "pc_maxSize c = pc_maxSize d" for c d
    using that
  proof (induction es arbitrary: c d)
    case (Cons e es)
    show ?case
    proof (cases "ev_subject e = s")
      case True
      then show ?thesis using Cons by (simp add: subject_map_record)
    next
      case False
      then have "subject_map (prov_record c (ev_subject e) (ev_value e) (ev_prov e) (ev_time e)) s = subject_map c s"
        by (simp add: subject_map_def prov_record_def Let_def)
      with False Cons show ?thesis by simp
    qed
  qed simp
  then show "prov_resolve (replay newProvenanceCache es) s v now =
      prov_resolve (replay newProvenanceCache (filter (\<lambda>e. ev_subject e = s) es)) s v now"
    by (simp add: prov_resolve_subject_map)
qed

text \<open>What recording a result means for later calls, whatever order the runtime visits the fields
  of the object in: as long as its fields fit into the subject's part of the cache, every
  non-empty string among the top-level fields resolves to the upstream's label until it
  expires, and every other value resolves as before.\<close>

lemma recordTopLevelStrings_resolves:
  assumes "order_ok ord" "gm_ok es" "length (subject_map c s) + length es \<le> pc_maxSize c"
  shows "prov_resolve (recordTopLevelStrings ord c s (JObj es) p t) s v now =
     (if v \<noteq> [] \<and> JStr v \<in> snd ` set es
      then (if time_before now (time_add t (pc_ttl c)) then p else untrustedProvenance)
      else prov_resolve c s v now)"
proof -
  have "distinct es" using assms(2) gm_ok_distinct distinct_map by blast
  with assms(1) have ord: "distinct (ord es)" "set (ord es) = set es" by (auto simp: order_ok_def)
  with \<open>distinct es\<close> have "length (ord es) = length es" by (metis distinct_card)
  with assms(3) have "map_of (subject_map (record_strings c s (map snd (ord es)) p t) s) =
     (\<lambda>v. if v \<noteq> [] \<and> JStr v \<in> set (map snd (ord es))
          then Some \<lparr>cp_provenance = p, cp_expiresAt = time_add t (pc_ttl c)\<rparr>
          else map_of (subject_map c s) v)"
    by (intro record_strings_fits) simp
  with ord(2) show ?thesis
    by (simp add: recordTopLevelStrings_def prov_resolve_subject_map)
qed

end
