(* ===== verification/HD_Obligations.thy ===== *)
theory HD_Obligations
  imports HD_Types
begin

text \<open>
  \<^verbatim>\<open>internal/gateway/obligations.go\<close>: the redactions a decision attaches to an allowed call, applied
  to the upstream's result. \<^verbatim>\<open>setAtPath\<close> changes the decoded value in place; no part of a freshly
  decoded value is shared, so the model rebuilds the value along the path instead, and \<open>None\<close>
  stands for the answer \<^verbatim>\<open>false\<close>.

  The lemmas show that a redaction succeeds exactly when its path denotes something, that it
  then hides exactly that, that later redactions never bring a hidden value back, and what
  becomes of the rest of the result.
\<close>

section \<open>The operations\<close>

definition redactedPlaceholder :: string where
  "redactedPlaceholder = ''[REDACTED]''"

definition slice_index :: "json list \<Rightarrow> string \<Rightarrow> nat option" where
  "slice_index xs seg =
     (case atoi seg of
        None \<Rightarrow> None
      | Some idx \<Rightarrow> if idx < 0 \<or> int (length xs) \<le> idx then None else Some (nat idx))"

fun setAtPath :: "json \<Rightarrow> string list \<Rightarrow> json \<Rightarrow> json option" where
  "setAtPath v [] replacement = None"
| "setAtPath (JObj m) (seg # rest) replacement =
     (case map_of m seg of
        None \<Rightarrow> None
      | Some next \<Rightarrow>
          if rest = [] then Some (JObj (gm_upd seg replacement m))
          else map_option (\<lambda>w. JObj (gm_upd seg w m)) (setAtPath next rest replacement))"
| "setAtPath (JArr xs) (seg # rest) replacement =
     (case slice_index xs seg of
        None \<Rightarrow> None
      | Some idx \<Rightarrow>
          if rest = [] then Some (JArr (xs[idx := replacement]))
          else map_option (\<lambda>w. JArr (xs[idx := w])) (setAtPath (xs ! idx) rest replacement))"
| "setAtPath v (seg # rest) replacement = None"

definition redactInJSON :: "raw \<Rightarrow> string list \<Rightarrow> raw" where
  "redactInJSON raw segments =
     (case raw of
        None \<Rightarrow> raw
      | Some j \<Rightarrow>
          (case any_of j of
             None \<Rightarrow> raw
           | Some v \<Rightarrow>
               (case setAtPath v segments (JStr redactedPlaceholder) of
                  None \<Rightarrow> raw
                | Some v' \<Rightarrow> Some v')))"

definition redactPath :: "ToolResult \<Rightarrow> string \<Rightarrow> ToolResult" where
  "redactPath result path =
     (let segments = splitOn (CHR ''.'') path
      in if length segments < 2 then result
         else if hd segments = ''structuredContent'' then
           result\<lparr>tr_StructuredContent := redactInJSON (tr_StructuredContent result) (tl segments)\<rparr>
         else if hd segments = ''content'' then
           result\<lparr>tr_Content := redactInJSON (tr_Content result) (tl segments)\<rparr>
         else result)"

fun applyObligations :: "ToolResult \<Rightarrow> Obligation list \<Rightarrow> ToolResult" where
  "applyObligations result [] = result"
| "applyObligations result (b # obs) =
     applyObligations (if ob_Type b = ObligationRedact then redactPath result (ob_Target b) else result) obs"

section \<open>Specification\<close>

text \<open>A path shows nothing of a value when it denotes nothing there, or the placeholder.\<close>

definition hidden :: "json \<Rightarrow> string list \<Rightarrow> bool" where
  "hidden v q \<longleftrightarrow> json_at v q = None \<or> json_at v q = Some (JStr redactedPlaceholder)"

text \<open>The paths the obligations redact in one of the two fields of a result.\<close>

definition targets :: "string \<Rightarrow> Obligation list \<Rightarrow> string list list" where
  "targets field obs =
     map (tl \<circ> splitOn (CHR ''.'') \<circ> ob_Target)
       (filter (\<lambda>b. ob_Type b = ObligationRedact \<and> 2 \<le> length (splitOn (CHR ''.'') (ob_Target b)) \<and>
                    hd (splitOn (CHR ''.'') (ob_Target b)) = field) obs)"

text \<open>
  Two paths part ways in a value: at some container they name different entries. Array
  positions are compared as numbers, since \<^verbatim>\<open>strconv.Atoi\<close> reads \<^verbatim>\<open>0\<close>, \<^verbatim>\<open>+0\<close> and \<^verbatim>\<open>00\<close> alike.
\<close>

fun diverge :: "json \<Rightarrow> string list \<Rightarrow> string list \<Rightarrow> bool" where
  "diverge (JObj m) (a # p) (b # q) =
     (if a = b then (case map_of m a of None \<Rightarrow> False | Some w \<Rightarrow> diverge w p q) else True)"
| "diverge (JArr xs) (a # p) (b # q) =
     (case slice_index xs a of
        None \<Rightarrow> False
      | Some i \<Rightarrow> if slice_index xs b = Some i then diverge (xs ! i) p q else True)"
| "diverge v p q = False"

section \<open>Lemmas\<close>

lemma json_at_arr:
  "json_at (JArr xs) (k # ks) = (case slice_index xs k of None \<Rightarrow> None | Some i \<Rightarrow> json_at (xs ! i) ks)"
  by (auto simp: slice_index_def split: option.splits)

declare json_at.simps(3) [simp del]
declare json_at_arr [simp]

lemma slice_index_less: "slice_index xs k = Some i \<Longrightarrow> i < length xs"
  by (auto simp: slice_index_def split: option.splits if_splits)

lemma slice_index_update [simp]: "slice_index (xs[i := v]) k = slice_index xs k"
  by (simp add: slice_index_def split: option.splits)

lemma setAtPath_found:
  "p \<noteq> [] \<Longrightarrow> setAtPath v p r \<noteq> None \<longleftrightarrow> json_at v p \<noteq> None"
  by (induction v p r rule: setAtPath.induct) (auto split: option.splits)

lemma setAtPath_at: "setAtPath v p r = Some v' \<Longrightarrow> json_at v' p = Some r"
  by (induction v p r arbitrary: v' rule: setAtPath.induct)
    (auto simp: map_of_gm_upd slice_index_less split: option.splits if_splits)

lemma setAtPath_any_ok:
  "setAtPath v p r = Some v' \<Longrightarrow> any_ok v \<Longrightarrow> any_ok r \<Longrightarrow> any_ok v'"
proof (induction v p r arbitrary: v' rule: setAtPath.induct)
  case (2 m seg rest r)
  have "any_ok w" if "map_of m seg = Some w" for w
    using 2(3) map_of_SomeD [OF that] by (force simp: list_all_iff)
  with 2 show ?case
    by (auto split: option.splits if_splits simp: list_all_gm_upd)
next
  case (3 xs seg rest r)
  then show ?case
    by (auto split: option.splits if_splits simp: list_all_iff slice_index_less dest!: set_update_subset_insert [THEN subsetD])
qed auto

lemma hidden_simps [simp]:
  "hidden (JObj m) [] = False" "hidden (JArr xs) [] = False" "hidden (JStr redactedPlaceholder) q"
  "hidden (JObj m) (k # q) = (case map_of m k of None \<Rightarrow> True | Some w \<Rightarrow> hidden w q)"
  "hidden (JArr xs) (k # q) = (case slice_index xs k of None \<Rightarrow> True | Some i \<Rightarrow> hidden (xs ! i) q)"
  by (cases q; auto simp: hidden_def split: option.splits)+

lemma setAtPath_hidden:
  "setAtPath v p (JStr redactedPlaceholder) = Some v' \<Longrightarrow> hidden v q \<Longrightarrow> hidden v' q"
proof (induction v p "JStr redactedPlaceholder" arbitrary: v' q rule: setAtPath.induct)
  case (2 m seg rest)
  then show ?case
    by (cases q) (auto simp: map_of_gm_upd split: option.splits if_splits)
next
  case (3 xs seg rest)
  then show ?case
    by (cases q) (auto simp: nth_list_update slice_index_less split: option.splits if_splits)
qed auto

lemma diverge_Nil [simp]: "diverge v [] q = False" "diverge v p [] = False"
  by (cases v; cases p; simp)+

lemma setAtPath_diverge:
  "setAtPath v p r = Some v' \<Longrightarrow> diverge v p q \<Longrightarrow> json_at v' q = json_at v q"
proof (induction v p r arbitrary: v' q rule: setAtPath.induct)
  case (2 m seg rest r)
  then show ?case
    by (cases q) (auto simp: map_of_gm_upd split: option.splits if_splits)
next
  case (3 xs seg rest r)
  then show ?case
    by (cases q) (auto simp: nth_list_update slice_index_less split: option.splits if_splits)
qed auto

text \<open>The effect of all obligations on one field.\<close>

lemma applyObligations_structured:
  "tr_StructuredContent (applyObligations r obs) =
     fold (\<lambda>segs raw. redactInJSON raw segs) (targets ''structuredContent'' obs) (tr_StructuredContent r)"
  by (induction r obs rule: applyObligations.induct) (auto simp: targets_def redactPath_def Let_def)

lemma applyObligations_content:
  "tr_Content (applyObligations r obs) =
     fold (\<lambda>segs raw. redactInJSON raw segs) (targets ''content'' obs) (tr_Content r)"
  by (induction r obs rule: applyObligations.induct) (auto simp: targets_def redactPath_def Let_def)

lemma applyObligations_IsError [simp]: "tr_IsError (applyObligations r obs) = tr_IsError r"
  by (induction r obs rule: applyObligations.induct) (auto simp: redactPath_def Let_def)

lemma targets_not_Nil: "segs \<in> set (targets f obs) \<Longrightarrow> segs \<noteq> []"
  by (auto simp: targets_def) (metis One_nat_def Suc_1 Suc_le_length_iff list.sel(3) list.simps(3))

lemma redactInJSON_step:
  assumes "any_of j = Some v"
  obtains j' v' where "redactInJSON (Some j) p = Some j'" "any_of j' = Some v'"
    "\<And>q. hidden v q \<Longrightarrow> hidden v' q" "p \<noteq> [] \<Longrightarrow> hidden v' p"
proof (cases "setAtPath v p (JStr redactedPlaceholder)")
  case None
  show thesis
    by (rule that [of j v])
      (use None assms setAtPath_found [of p v "JStr redactedPlaceholder"] in
        \<open>auto simp: redactInJSON_def hidden_def\<close>)
next
  case (Some v')
  have "any_ok v'" by (rule setAtPath_any_ok [OF Some any_of_ok [OF assms]]) simp
  then have "any_of v' = Some v'" by (rule any_of_id)
  then show thesis
    by (intro that [of v' v'])
      (use Some assms in \<open>auto simp: redactInJSON_def setAtPath_hidden setAtPath_at hidden_def [of v' p]\<close>)
qed

lemma redact_fold:
  assumes "any_of j = Some v" "\<forall>segs \<in> set ps. segs \<noteq> []"
  shows "\<exists>j' v'. fold (\<lambda>segs raw. redactInJSON raw segs) ps (Some j) = Some j' \<and> any_of j' = Some v' \<and>
     (\<forall>q. hidden v q \<longrightarrow> hidden v' q) \<and> (\<forall>p \<in> set ps. hidden v' p)"
  using assms
proof (induction ps arbitrary: j v)
  case (Cons p ps)
  obtain j1 v1 where 1: "redactInJSON (Some j) p = Some j1" "any_of j1 = Some v1"
    "\<And>q. hidden v q \<Longrightarrow> hidden v1 q" "hidden v1 p"
    using redactInJSON_step [OF Cons.prems(1), of p] Cons.prems(2) by (metis list.set_intros(1))
  from Cons.IH [OF 1(2)] Cons.prems(2) 1 show ?case by fastforce
qed auto

section \<open>Properties\<close>

text \<open>C27. Redaction of a field that decodes: whenever a field of the upstream's result can be decoded into \<^verbatim>\<open>any\<close>, the field of the final result
  can be decoded too, and the path of each redaction obligation for that field, whatever its position in the list and
  whatever the other obligations do, denotes nothing there or the placeholder. Nothing is claimed of a field that cannot be decoded, which
  is passed on unredacted.\<close>

theorem applyObligations_redacts:
  assumes "field = ''structuredContent'' \<and> get = tr_StructuredContent \<or> field = ''content'' \<and> get = tr_Content"
    and "get result = Some j" and "any_of j = Some v" and "segs \<in> set (targets field obs)"
  shows "\<exists>j' v'. get (applyObligations result obs) = Some j' \<and> any_of j' = Some v' \<and> hidden v' segs"
proof -
  have "get (applyObligations result obs) =
      fold (\<lambda>segs raw. redactInJSON raw segs) (targets field obs) (get result)"
    using assms(1) by (auto simp: applyObligations_structured applyObligations_content)
  moreover have "\<forall>s \<in> set (targets field obs). s \<noteq> []" using targets_not_Nil by blast
  from redact_fold [OF assms(3) this] assms(2,4) calculation show ?thesis by fastforce
qed

text \<open>A result with an account number and an amount, and the obligation to redact the first.\<close>

definition example_result :: ToolResult where
  "example_result = \<lparr>tr_Content = None,
     tr_StructuredContent = Some (JObj [(''account'', JStr ''123''), (''paid'', JBool True)]), tr_IsError = False\<rparr>"

definition example_redact :: Obligation where
  "example_redact = \<lparr>ob_Type = ''redact'', ob_Target = ''structuredContent.account''\<rparr>"

lemma example_targets [simp]: "targets ''structuredContent'' [example_redact] = [[''account'']]"
  by (simp add: targets_def example_redact_def ObligationRedact_def)

theorem applyObligations_redacts_witness:
  "\<exists>j' v'. tr_StructuredContent (applyObligations example_result [example_redact]) = Some j' \<and>
     any_of j' = Some v' \<and> hidden v' [''account'']"
  by (rule applyObligations_redacts [where field = "''structuredContent''"
        and j = "JObj [(''account'', JStr ''123''), (''paid'', JBool True)]"
        and v = "JObj [(''account'', JStr ''123''), (''paid'', JBool True)]"])
    (simp_all add: example_result_def)

text \<open>A redaction touches nothing else: it succeeds exactly when its path denotes something, then
  puts the placeholder there, and every path that parts ways with it shows the same value as
  before.\<close>

lemma setAtPath_exact:
  assumes "p \<noteq> []"
  shows "(setAtPath v p r = None \<longleftrightarrow> json_at v p = None) \<and>
    (\<forall>v'. setAtPath v p r = Some v' \<longrightarrow>
       json_at v' p = Some r \<and> (\<forall>q. diverge v p q \<longrightarrow> json_at v' q = json_at v q))"
  using setAtPath_found [OF assms, of v r] setAtPath_at setAtPath_diverge by auto

text \<open>C31. Redaction fails open on a field that does not decode: a number beyond the range of a
  \<^verbatim>\<open>float64\<close> anywhere in it, which is valid JSON, makes every obligation on the field a no-op and the
  field reaches the agent as the upstream sent it.\<close>

theorem applyObligations_fails_open:
  assumes "tr_StructuredContent result = Some j" and "any_of j = None"
  shows "tr_StructuredContent (applyObligations result obs) = Some j"
proof -
  have "redactInJSON (Some j) segs = Some j" for segs
    using assms(2) by (simp add: redactInJSON_def)
  then have "fold (\<lambda>segs raw. redactInJSON raw segs) ps (Some j) = Some j" for ps
    by (induction ps) auto
  with assms(1) show ?thesis by (simp add: applyObligations_structured)
qed

definition example_open :: json where
  "example_open = JObj [(''account'', JStr ''123''), (''n'', JNum ''1e400'')]"

theorem applyObligations_fails_open_witness:
  "tr_StructuredContent (applyObligations (example_result\<lparr>tr_StructuredContent := Some example_open\<rparr>)
     [example_redact]) = Some example_open \<and> json_at example_open [''account''] = Some (JStr ''123'')"
proof
  show "tr_StructuredContent (applyObligations (example_result\<lparr>tr_StructuredContent := Some example_open\<rparr>)
      [example_redact]) = Some example_open"
    by (rule applyObligations_fails_open) (simp_all add: example_open_def f64_canon_1e400)
  show "json_at example_open [''account''] = Some (JStr ''123'')"
    by (simp add: example_open_def)
qed

end
