(* ===== verification/Go_Json_Text.thy ===== *)
theory Go_Json_Text
  imports Go_Json
begin

text \<open>
  The text level of \<^verbatim>\<open>encoding/json\<close>: what \<^verbatim>\<open>Marshal\<close> writes for a tree and what \<^verbatim>\<open>Unmarshal\<close> reads back.

  Strings are bytes. \<^verbatim>\<open>Marshal\<close> escapes quotes, control characters, the HTML characters and the two
  line separators, and writes an escaped U+FFFD for every byte that is not part of a valid
  UTF-8 sequence; \<^verbatim>\<open>Unmarshal\<close> decodes escapes and replaces such bytes by U+FFFD itself. Reading is
  a lexer over the characters and a stack machine over the tokens, with the package's limit on
  nesting, so both recur on their input.

  \<open>parse_json_text\<close>: reading what was written gives the tree back, its strings coerced to valid
  UTF-8.
\<close>

section \<open>UTF-8\<close>

definition byte_in :: "nat \<Rightarrow> nat \<Rightarrow> char \<Rightarrow> bool" where
  "byte_in lo hi c \<longleftrightarrow> lo \<le> of_char c \<and> of_char c \<le> hi"

abbreviation cont_byte :: "char \<Rightarrow> bool" where
  "cont_byte \<equiv> byte_in 0x80 0xBF"

text \<open>The number of bytes of the first rune, 0 when there is none (\<^verbatim>\<open>utf8.DecodeRune\<close>).\<close>

fun rune_len :: "string \<Rightarrow> nat" where
  "rune_len [] = 0"
| "rune_len (a # s) =
     (if byte_in 0 0x7F a then 1
      else case s of
        [] \<Rightarrow> 0
      | b # s \<Rightarrow>
          if byte_in 0xC2 0xDF a \<and> cont_byte b then 2
          else case s of
            [] \<Rightarrow> 0
          | c # s \<Rightarrow>
              if cont_byte c \<and>
                 (byte_in 0xE0 0xE0 a \<and> byte_in 0xA0 0xBF b \<or> byte_in 0xE1 0xEC a \<and> cont_byte b \<or>
                  byte_in 0xED 0xED a \<and> byte_in 0x80 0x9F b \<or> byte_in 0xEE 0xEF a \<and> cont_byte b) then 3
              else case s of
                [] \<Rightarrow> 0
              | d # s \<Rightarrow>
                  if cont_byte c \<and> cont_byte d \<and>
                     (byte_in 0xF0 0xF0 a \<and> byte_in 0x90 0xBF b \<or> byte_in 0xF1 0xF3 a \<and> cont_byte b \<or>
                      byte_in 0xF4 0xF4 a \<and> byte_in 0x80 0x8F b) then 4
                  else 0)"

definition replacement :: string where
  "replacement = [CHR 0xEF, CHR 0xBF, CHR 0xBD]"

text \<open>A string with every invalid byte replaced by U+FFFD.\<close>

fun coerce_utf8 :: "string \<Rightarrow> string" where
  "coerce_utf8 [] = []"
| "coerce_utf8 (c # cs) =
     (let n = rune_len (c # cs)
      in if n = 0 then replacement @ coerce_utf8 cs
         else take n (c # cs) @ coerce_utf8 (drop (n - 1) cs))"

definition utf8_enc :: "nat \<Rightarrow> string" where
  "utf8_enc r =
     (if r < 0x80 then [char_of r]
      else if r < 0x800 then [char_of (0xC0 + r div 64), char_of (0x80 + r mod 64)]
      else if r < 0x10000 then
        [char_of (0xE0 + r div 4096), char_of (0x80 + r div 64 mod 64), char_of (0x80 + r mod 64)]
      else [char_of (0xF0 + r div 262144), char_of (0x80 + r div 4096 mod 64),
            char_of (0x80 + r div 64 mod 64), char_of (0x80 + r mod 64)])"

section \<open>Writing\<close>

definition u_esc :: "nat \<Rightarrow> string" where
  "u_esc r = [CHR 0x5C, CHR ''u'', digit_char (r div 4096), digit_char (r div 256 mod 16),
              digit_char (r div 16 mod 16), digit_char (r mod 16)]"

definition rune_text :: "string \<Rightarrow> string" where
  "rune_text r =
     (if r = [CHR 0xE2, CHR 0x80, CHR 0xA8] then u_esc 0x2028
      else if r = [CHR 0xE2, CHR 0x80, CHR 0xA9] then u_esc 0x2029
      else case r of
        [c] \<Rightarrow>
          (let n = of_char c :: nat in
           if n = 0x22 \<or> n = 0x5C then [CHR 0x5C, c]
           else if n = 8 then [CHR 0x5C, CHR ''b'']
           else if n = 12 then [CHR 0x5C, CHR ''f'']
           else if n = 10 then [CHR 0x5C, CHR ''n'']
           else if n = 13 then [CHR 0x5C, CHR ''r'']
           else if n = 9 then [CHR 0x5C, CHR ''t'']
           else if n < 0x20 \<or> n = 0x3C \<or> n = 0x3E \<or> n = 0x26 then u_esc n
           else [c])
      | _ \<Rightarrow> r)"

fun esc_text :: "string \<Rightarrow> string" where
  "esc_text [] = []"
| "esc_text (c # cs) =
     (let n = rune_len (c # cs)
      in if n = 0 then u_esc 0xFFFD @ esc_text cs
         else rune_text (take n (c # cs)) @ esc_text (drop (n - 1) cs))"

definition str_text :: "string \<Rightarrow> string" where
  "str_text s = [CHR 0x22] @ esc_text s @ [CHR 0x22]"

fun json_text :: "json \<Rightarrow> string" where
  "json_text JNull = ''null''"
| "json_text (JBool b) = (if b then ''true'' else ''false'')"
| "json_text (JNum n) = n"
| "json_text (JStr s) = str_text s"
| "json_text (JArr xs) = ''['' @ joinWith '','' (map json_text xs) @ '']''"
| "json_text (JObj es) = ''{'' @ joinWith '','' (map (\<lambda>(k, v). str_text k @ '':'' @ json_text v) es) @ ''}''"

section \<open>Reading\<close>

definition hex_digit :: "char \<Rightarrow> nat option" where
  "hex_digit c =
     (let n = of_char c :: nat in
      if 48 \<le> n \<and> n \<le> 57 then Some (n - 48)
      else if 97 \<le> n \<and> n \<le> 102 then Some (n - 87)
      else if 65 \<le> n \<and> n \<le> 70 then Some (n - 55)
      else None)"

definition hex4 :: "string \<Rightarrow> nat option" where
  "hex4 s =
     (case s of
        a # b # c # d # _ \<Rightarrow>
          (case (hex_digit a, hex_digit b, hex_digit c, hex_digit d) of
             (Some w, Some x, Some y, Some z) \<Rightarrow> Some (4096 * w + 256 * x + 16 * y + z)
           | _ \<Rightarrow> None)
      | _ \<Rightarrow> None)"

text \<open>What follows a backslash: the bytes it stands for and the number of characters it takes.\<close>

definition simple_escape :: "char \<Rightarrow> char option" where
  "simple_escape c = map_of
     [(CHR 0x22, CHR 0x22), (CHR 0x5C, CHR 0x5C), (CHR 0x2F, CHR 0x2F), (CHR ''b'', CHR 8),
      (CHR ''f'', CHR 12), (CHR ''n'', CHR 10), (CHR ''r'', CHR 13), (CHR ''t'', CHR 9)] c"

definition unicode_escape :: "string \<Rightarrow> (string \<times> nat) option" where
  "unicode_escape cs =
     (case hex4 cs of
        None \<Rightarrow> None
      | Some r \<Rightarrow>
          if 0xD800 \<le> r \<and> r < 0xE000 then
            (case (if r < 0xDC00 \<and> take 2 (drop 4 cs) = [CHR 0x5C, CHR ''u''] then hex4 (drop 6 cs) else None) of
               Some r2 \<Rightarrow>
                 if 0xDC00 \<le> r2 \<and> r2 < 0xE000
                 then Some (utf8_enc (0x10000 + (r - 0xD800) * 1024 + (r2 - 0xDC00)), 11)
                 else Some (replacement, 5)
             | None \<Rightarrow> Some (replacement, 5))
          else Some (utf8_enc r, 5))"

definition read_escape :: "string \<Rightarrow> (string \<times> nat) option" where
  "read_escape s =
     (case s of
        [] \<Rightarrow> None
      | c # cs \<Rightarrow>
          (case simple_escape c of
             Some b \<Rightarrow> Some ([b], 1)
           | None \<Rightarrow> if c = CHR ''u'' then unicode_escape cs else None))"

definition prepend :: "string \<Rightarrow> (string \<times> string) option \<Rightarrow> (string \<times> string) option" where
  "prepend bs r = map_option (\<lambda>(s, rest). (bs @ s, rest)) r"

text \<open>A string literal after its opening quote: its bytes and the text after the closing quote.\<close>

fun read_str :: "string \<Rightarrow> (string \<times> string) option" where
  "read_str [] = None"
| "read_str (c # cs) =
     (if c = CHR 0x22 then Some ([], cs)
      else if c = CHR 0x5C then
        (case read_escape cs of None \<Rightarrow> None | Some (bs, n) \<Rightarrow> prepend bs (read_str (drop n cs)))
      else if byte_in 0 0x1F c then None
      else
        (let n = rune_len (c # cs)
         in if n = 0 then prepend replacement (read_str cs)
            else prepend (take n (c # cs)) (read_str (drop (n - 1) cs))))"

datatype token = TLBrack | TRBrack | TLBrace | TRBrace | TColon | TComma | TVal json

definition is_space :: "char \<Rightarrow> bool" where
  "is_space c \<longleftrightarrow> c = CHR '' '' \<or> c = CHR 9 \<or> c = CHR 10 \<or> c = CHR 13"

definition num_char :: "char \<Rightarrow> bool" where
  "num_char c \<longleftrightarrow> is_digit c \<or> c = CHR ''-'' \<or> c = CHR ''+'' \<or> c = CHR ''.'' \<or> c = CHR ''e'' \<or> c = CHR ''E''"

definition punct :: "char \<Rightarrow> token option" where
  "punct c =
     (if c = CHR ''['' then Some TLBrack else if c = CHR '']'' then Some TRBrack
      else if c = CHR ''{'' then Some TLBrace else if c = CHR ''}'' then Some TRBrace
      else if c = CHR '':'' then Some TColon else if c = CHR '','' then Some TComma else None)"

definition keyword :: "string \<Rightarrow> (json \<times> nat) option" where
  "keyword s =
     (if hasPrefix s ''null'' then Some (JNull, 4)
      else if hasPrefix s ''true'' then Some (JBool True, 4)
      else if hasPrefix s ''false'' then Some (JBool False, 5)
      else None)"

text \<open>The first token of a text and the rest, or an error.\<close>

definition next_token :: "char \<Rightarrow> string \<Rightarrow> (token \<times> string) option" where
  "next_token c cs =
     (case punct c of
        Some t \<Rightarrow> Some (t, cs)
      | None \<Rightarrow>
          if c = CHR 0x22 then map_option (\<lambda>(s, rest). (TVal (JStr s), rest)) (read_str cs)
          else if is_digit c \<or> c = CHR ''-'' then
            (let n = takeWhile num_char (c # cs)
             in if valid_num n then Some (TVal (JNum n), drop (length n - 1) cs) else None)
          else map_option (\<lambda>(v, n). (TVal v, drop (n - 1) cs)) (keyword (c # cs)))"

lemma read_str_length: "read_str s = Some (x, r) \<Longrightarrow> length r < length s"
proof (induction s arbitrary: x r rule: read_str.induct)
  case (2 c cs)
  then show ?case
    by (fastforce simp: prepend_def Let_def split: if_splits option.splits)
qed simp

lemma next_token_length: "next_token c cs = Some (t, r) \<Longrightarrow> length r < Suc (length cs)"
  by (auto simp: next_token_def Let_def dest: read_str_length split: option.splits if_splits)

function lexer :: "string \<Rightarrow> token list option" where
  "lexer [] = Some []"
| "lexer (c # cs) =
     (if is_space c then lexer cs
      else case next_token c cs of
        None \<Rightarrow> None
      | Some (t, rest) \<Rightarrow> map_option (\<lambda>ts. t # ts) (lexer rest))"
  by pat_completeness auto

termination
  by (relation "measure length") (auto dest: next_token_length)

text \<open>
  The stack machine: what is expected next, and the arrays and objects that are open, with
  their elements in reverse and, for an object, the key of the member being read.
\<close>

datatype frame = FArr "json list" | FObj "(string \<times> json) list" string
datatype expect = EVal | EValEnd | EKeyEnd | EKey | EColon string | EDone json

definition max_depth :: nat where
  "max_depth = 10000"

definition open_frame :: "nat \<Rightarrow> expect \<Rightarrow> frame \<Rightarrow> frame list \<Rightarrow> (expect \<times> frame list) option" where
  "open_frame d m f stk = (if length stk < d then Some (m, f # stk) else None)"

fun value_step :: "nat \<Rightarrow> token \<Rightarrow> frame list \<Rightarrow> (expect \<times> frame list) option" where
  "value_step d (TVal v) stk = Some (EDone v, stk)"
| "value_step d TLBrack stk = open_frame d EValEnd (FArr []) stk"
| "value_step d TLBrace stk = open_frame d EKeyEnd (FObj [] []) stk"
| "value_step d t stk = None"

fun parse_step :: "nat \<Rightarrow> expect \<times> frame list \<Rightarrow> token \<Rightarrow> (expect \<times> frame list) option" where
  "parse_step d (EVal, stk) t = value_step d t stk"
| "parse_step d (EValEnd, FArr [] # stk) TRBrack = Some (EDone (JArr []), stk)"
| "parse_step d (EValEnd, stk) t = value_step d t stk"
| "parse_step d (EKeyEnd, FObj ms k # stk) TRBrace = Some (EDone (JObj []), stk)"
| "parse_step d (EKeyEnd, stk) (TVal (JStr k)) = Some (EColon k, stk)"
| "parse_step d (EKey, stk) (TVal (JStr k)) = Some (EColon k, stk)"
| "parse_step d (EColon k, FObj ms k' # stk) TColon = Some (EVal, FObj ms k # stk)"
| "parse_step d (EDone v, FArr xs # stk) TComma = Some (EVal, FArr (v # xs) # stk)"
| "parse_step d (EDone v, FArr xs # stk) TRBrack = Some (EDone (JArr (rev (v # xs))), stk)"
| "parse_step d (EDone v, FObj ms k # stk) TComma = Some (EKey, FObj ((k, v) # ms) [] # stk)"
| "parse_step d (EDone v, FObj ms k # stk) TRBrace = Some (EDone (JObj (rev ((k, v) # ms))), stk)"
| "parse_step d s t = None"

fun parse_run :: "nat \<Rightarrow> expect \<times> frame list \<Rightarrow> token list \<Rightarrow> json option" where
  "parse_run d s [] = (case s of (EDone v, []) \<Rightarrow> Some v | _ \<Rightarrow> None)"
| "parse_run d s (t # ts) = (case parse_step d s t of None \<Rightarrow> None | Some s' \<Rightarrow> parse_run d s' ts)"

definition parse_depth :: "nat \<Rightarrow> string \<Rightarrow> json option" where
  "parse_depth d s = (case lexer s of None \<Rightarrow> None | Some ts \<Rightarrow> parse_run d (EVal, []) ts)"

definition parse_json :: "string \<Rightarrow> json option" where
  "parse_json s = parse_depth max_depth s"

text \<open>
  \<^verbatim>\<open>Decoder.Decode\<close>: the first value of a stream; what follows it is not looked at.
\<close>

function first_run :: "nat \<Rightarrow> expect \<times> frame list \<Rightarrow> string \<Rightarrow> json option" where
  "first_run d st [] = (case st of (EDone v, []) \<Rightarrow> Some v | _ \<Rightarrow> None)"
| "first_run d st (c # cs) =
     (case st of
        (EDone v, []) \<Rightarrow> Some v
      | _ \<Rightarrow>
          if is_space c then first_run d st cs
          else (case next_token c cs of
             None \<Rightarrow> None
           | Some (t, rest) \<Rightarrow>
               (case parse_step d st t of None \<Rightarrow> None | Some st' \<Rightarrow> first_run d st' rest)))"
  by pat_completeness auto

termination
  by (relation "measure (\<lambda>(d, st, s). length s)") (auto dest: next_token_length)

definition first_json :: "string \<Rightarrow> json option" where
  "first_json s = first_run max_depth (EVal, []) s"

section \<open>Trees that can be written\<close>

fun json_ok :: "json \<Rightarrow> bool" where
  "json_ok (JNum n) = valid_num n"
| "json_ok (JArr xs) = list_all json_ok xs"
| "json_ok (JObj es) = list_all (\<lambda>e. json_ok (snd e)) es"
| "json_ok v = True"

fun json_depth :: "json \<Rightarrow> nat" where
  "json_depth (JArr xs) = Suc (fold max (map json_depth xs) 0)"
| "json_depth (JObj es) = Suc (fold max (map (\<lambda>e. json_depth (snd e)) es) 0)"
| "json_depth v = 0"

fun coerce_json :: "json \<Rightarrow> json" where
  "coerce_json (JStr s) = JStr (coerce_utf8 s)"
| "coerce_json (JArr xs) = JArr (map coerce_json xs)"
| "coerce_json (JObj es) = JObj (map (\<lambda>(k, v). (coerce_utf8 k, coerce_json v)) es)"
| "coerce_json v = v"

fun utf8_json :: "json \<Rightarrow> bool" where
  "utf8_json (JStr s) = (coerce_utf8 s = s)"
| "utf8_json (JArr xs) = list_all utf8_json xs"
| "utf8_json (JObj es) = list_all (\<lambda>e. coerce_utf8 (fst e) = fst e \<and> utf8_json (snd e)) es"
| "utf8_json v = True"

section \<open>Strings read back\<close>

lemma rune_len_le: "rune_len s \<le> length s"
  by (cases s) (auto split: list.splits)

lemma rune_len_take:
  assumes "rune_len s = n" "0 < n"
  shows "rune_len (take n s @ t) = n"
  using assms by (cases s) (auto split: list.splits if_splits)

lemma rune_len_4: "rune_len s \<le> 4"
  by (cases s) (auto split: list.splits)

lemma of_char_eq: "of_char c = (k :: nat) \<Longrightarrow> c = char_of k"
  by auto

lemma char_eqI: "(of_char c :: nat) = of_char d \<Longrightarrow> c = d"
  by simp

lemma rune_len_1: "rune_len (a # s) = Suc 0 \<longleftrightarrow> byte_in 0 0x7F a"
  by (simp split: list.split)

lemma hex_digit_char [simp]: "d < 16 \<Longrightarrow> hex_digit (digit_char d) = Some d"
  by (auto simp: hex_digit_def digit_char_def Let_def)

lemma hex4_u_esc: "r < 65536 \<Longrightarrow> hex4 (drop 2 (u_esc r) @ t) = Some r"
proof -
  assume r: "r < 65536"
  have "4096 * (r div 4096) + 256 * (r div 256 mod 16) + 16 * (r div 16 mod 16) + r mod 16 = r"
  proof -
    have "16 * (r div 4096) + r div 256 mod 16 = r div 256" "16 * (r div 256) + r div 16 mod 16 = r div 16"
      using mult_div_mod_eq [of 16 "r div 16"] mult_div_mod_eq [of 16 "r div 256"]
      by (simp_all add: div_mult2_eq [symmetric])
    with mult_div_mod_eq [of 16 r] show ?thesis by linarith
  qed
  with r show ?thesis by (simp add: u_esc_def hex4_def)
qed

lemma read_str_u_esc:
  assumes "r < 65536" "\<not> (0xD800 \<le> r \<and> r < 0xE000)"
  shows "read_str (u_esc r @ t) = prepend (utf8_enc r) (read_str t)"
proof -
  have "read_escape (tl (u_esc r) @ t) = Some (utf8_enc r, 5)"
    using hex4_u_esc [OF assms(1), of t] assms(2)
    by (auto simp: u_esc_def read_escape_def simple_escape_def unicode_escape_def)
  then show ?thesis by (simp add: u_esc_def)
qed

lemma read_str_ascii:
  assumes "byte_in 0 0x7F c"
  shows "read_str (rune_text [c] @ t) = prepend [c] (read_str t)"
proof -
  let ?n = "of_char c :: nat"
  have c: "c = char_of ?n" by simp
  have lt: "?n < 128" using assms by (simp add: byte_in_def)
  consider "?n = 0x22 \<or> ?n = 0x5C" | "?n = 8" | "?n = 12" | "?n = 10" | "?n = 13" | "?n = 9"
    | "?n \<noteq> 8" "?n \<noteq> 12" "?n \<noteq> 10" "?n \<noteq> 13" "?n \<noteq> 9" "?n < 0x20 \<or> ?n = 0x3C \<or> ?n = 0x3E \<or> ?n = 0x26"
    | "0x20 \<le> ?n" "?n \<noteq> 0x22" "?n \<noteq> 0x5C" "?n \<noteq> 0x3C" "?n \<noteq> 0x3E" "?n \<noteq> 0x26"
    by linarith
  then show ?thesis
  proof cases
    case 1
    then have "c = CHR 0x22 \<or> c = CHR 0x5C" by (auto intro: char_eqI)
    then show ?thesis by (auto simp: rune_text_def read_escape_def simple_escape_def)
  next
    case 7
    then have "rune_text [c] = u_esc ?n" by (auto simp: rune_text_def Let_def)
    moreover have "utf8_enc ?n = [c]" using lt by (simp add: utf8_enc_def)
    ultimately show ?thesis using lt by (simp add: read_str_u_esc)
  next
    case 8
    then have "rune_text [c] = [c]" by (auto simp: rune_text_def Let_def)
    moreover have "c \<noteq> CHR 0x22" "c \<noteq> CHR 0x5C" using 8 by auto
    ultimately show ?thesis using 8 assms by (auto simp: byte_in_def Let_def)
  qed (auto simp: rune_text_def read_escape_def simple_escape_def intro!: char_eqI arg_cong2 [of _ _ _ _ prepend])
qed

lemma read_str_rune:
  assumes n: "rune_len s = n" "0 < n"
  shows "read_str (rune_text (take n s) @ t) = prepend (take n s) (read_str t)"
proof (cases "n = 1")
  case True
  then obtain c cs where "s = c # cs" "byte_in 0 0x7F c"
    using n by (cases s) (auto simp: rune_len_1 simp del: rune_len.simps(2))
  with True show ?thesis by (simp add: read_str_ascii)
next
  case False
  obtain a s' where s: "s = a # s'" using n by (cases s) auto
  have a: "\<not> byte_in 0 0x7F a" using False n by (auto simp: s)
  have len: "length (take n s) = n" using rune_len_le [of s] n(1) by simp
  have copy: "read_str (take n s @ t) = prepend (take n s) (read_str t)"
  proof -
    have "take n s @ t = a # (take (n - 1) s' @ t)" using n(2) by (cases n) (auto simp: s)
    moreover have "rune_len (a # (take (n - 1) s' @ t)) = n"
      using rune_len_take [OF n, of t] calculation by simp
    moreover have "length (take (n - 1) s') = n - 1" using len n(2) by (simp add: s)
    moreover have "take n (a # take (n - 1) s' @ t) = take n s"
      using calculation(1) len by (metis append_eq_conv_conj)
    moreover have "a \<noteq> CHR 0x22" "a \<noteq> CHR 0x5C" "\<not> byte_in 0 0x1F a"
      using a by (auto simp: byte_in_def)
    ultimately show ?thesis using n(2) by (simp add: Let_def)
  qed
  show ?thesis
  proof (cases "take n s = [CHR 0xE2, CHR 0x80, CHR 0xA8] \<or> take n s = [CHR 0xE2, CHR 0x80, CHR 0xA9]")
    case True
    have "utf8_enc 0x2028 = [CHR 0xE2, CHR 0x80, CHR 0xA8]" "utf8_enc 0x2029 = [CHR 0xE2, CHR 0x80, CHR 0xA9]"
      by (auto simp: utf8_enc_def intro!: char_eqI)
    with True show ?thesis by (auto simp: rune_text_def read_str_u_esc)
  next
    case sep: False
    obtain x y zs where "take n s = x # y # zs"
      using len False n(2) by (cases "take n s"; cases "tl (take n s)") auto
    with sep have "rune_text (take n s) = take n s" by (auto simp: rune_text_def)
    with copy show ?thesis by simp
  qed
qed

lemma read_str_esc: "read_str (esc_text s @ CHR 0x22 # rest) = Some (coerce_utf8 s, rest)"
proof (induction s rule: esc_text.induct)
  case (2 c cs)
  have fffd: "utf8_enc 0xFFFD = replacement" by (auto simp: utf8_enc_def replacement_def intro!: char_eqI)
  show ?case
  proof (cases "rune_len (c # cs) = 0")
    case True
    with 2 show ?thesis
      using read_str_u_esc [where r = 65533 and t = "esc_text cs @ CHR 0x22 # rest"]
      by (simp add: Let_def fffd prepend_def)
  next
    case False
    with 2 read_str_rune [OF refl, where ?s = "c # cs" and t = "esc_text (drop (rune_len (c # cs) - 1) cs) @ CHR 0x22 # rest"]
    show ?thesis by (simp add: Let_def prepend_def)
  qed
qed simp

section \<open>Trees read back\<close>

text \<open>The tokens of a tree, and what follows a number.\<close>

fun tok_join :: "token list list \<Rightarrow> token list" where
  "tok_join [] = []"
| "tok_join [p] = p"
| "tok_join (p # q # ps) = p @ TComma # tok_join (q # ps)"

fun json_tokens :: "json \<Rightarrow> token list" where
  "json_tokens (JArr xs) = TLBrack # tok_join (map json_tokens xs) @ [TRBrack]"
| "json_tokens (JObj es) = TLBrace # tok_join (map (\<lambda>(k, v). TVal (JStr k) # TColon # json_tokens v) es) @ [TRBrace]"
| "json_tokens v = [TVal v]"

abbreviation delim :: "string \<Rightarrow> bool" where
  "delim rest \<equiv> rest = [] \<or> \<not> num_char (hd rest)"

lemma digits1_num: "digits1 ds \<Longrightarrow> list_all num_char ds \<and> ds \<noteq> [] \<and> is_digit (hd ds)"
  by (cases ds) (auto simp: digits1_def num_char_def list_all_iff)

lemma split_exp_cases:
  "split_exp s = (m, e) \<Longrightarrow> s = m @ (case e of None \<Rightarrow> [] | Some x \<Rightarrow> [s ! length m] @ x) \<and>
     (e \<noteq> None \<longrightarrow> s ! length m = CHR ''e'' \<or> s ! length m = CHR ''E'')"
proof -
  assume a: "split_exp s = (m, e)"
  let ?P = "\<lambda>c. c \<noteq> CHR ''e'' \<and> c \<noteq> CHR ''E''"
  have m: "m = takeWhile ?P s" and e: "e = (if dropWhile ?P s = [] then None else Some (tl (dropWhile ?P s)))"
    using a by (auto simp: split_exp_def Let_def dropWhile_eq_drop)
  show ?thesis
  proof (cases "dropWhile ?P s")
    case Nil
    then have "s = m" using takeWhile_dropWhile_id [of ?P s] by (metis append_Nil2 m)
    then show ?thesis using Nil by (simp add: e)
  next
    case (Cons c x)
    then have "s = m @ c # x" using takeWhile_dropWhile_id [of ?P s] by (simp add: m)
    moreover have "\<not> ?P c" using Cons hd_dropWhile [of ?P s] by simp
    ultimately show ?thesis using Cons by (auto simp: e)
  qed
qed

lemma split_frac_cases:
  "split_frac s = (m, f) \<Longrightarrow> s = m @ (case f of None \<Rightarrow> [] | Some x \<Rightarrow> [CHR ''.''] @ x)"
proof -
  assume a: "split_frac s = (m, f)"
  let ?P = "\<lambda>c. c \<noteq> CHR ''.''"
  have m: "m = takeWhile ?P s" and f: "f = (if dropWhile ?P s = [] then None else Some (tl (dropWhile ?P s)))"
    using a by (auto simp: split_frac_def Let_def dropWhile_eq_drop)
  show ?thesis
  proof (cases "dropWhile ?P s")
    case Nil
    then have "s = m" using takeWhile_dropWhile_id [of ?P s] by (metis append_Nil2 m)
    then show ?thesis using Nil by (simp add: f)
  next
    case (Cons c x)
    then have "s = m @ c # x" using takeWhile_dropWhile_id [of ?P s] by (simp add: m)
    moreover have "\<not> ?P c" using Cons hd_dropWhile [of ?P s] by simp
    ultimately show ?thesis using Cons by (auto simp: f)
  qed
qed

lemma exp_val_num: "exp_val (Some x) = Some k \<Longrightarrow> list_all num_char x"
  by (cases x) (auto simp: exp_val_def num_char_def dest: digits1_num split: if_splits)

lemma valid_num_chars:
  assumes "valid_num n"
  shows "n \<noteq> [] \<and> list_all num_char n \<and> (is_digit (hd n) \<or> hd n = CHR ''-'')"
proof -
  define u where "u = (if n \<noteq> [] \<and> hd n = CHR ''-'' then tl n else n)"
  obtain m e where me: "split_exp u = (m, e)" by fastforce
  obtain i f where if': "split_frac m = (i, f)" by fastforce
  obtain k where i: "int_part_ok i" and f: "case f of None \<Rightarrow> True | Some ds \<Rightarrow> digits1 ds"
    and k: "exp_val e = Some k"
    using assms me if' by (auto simp: valid_num_def num_parts_def u_def [symmetric] Let_def split: if_splits option.splits)
  have di: "list_all num_char i" "i \<noteq> []" "is_digit (hd i)" using i digits1_num by (auto simp: int_part_ok_def)
  have m: "m = i @ (case f of None \<Rightarrow> [] | Some x \<Rightarrow> [CHR ''.''] @ x)" using if' by (rule split_frac_cases)
  have "list_all num_char m"
    using f di by (auto simp: m num_char_def split: option.splits dest: digits1_num)
  moreover have u: "u = m @ (case e of None \<Rightarrow> [] | Some x \<Rightarrow> [u ! length m] @ x)"
    "e \<noteq> None \<longrightarrow> u ! length m = CHR ''e'' \<or> u ! length m = CHR ''E''"
    using split_exp_cases [OF me] by auto
  have "list_all num_char (case e of None \<Rightarrow> [] | Some x \<Rightarrow> [u ! length m] @ x)"
    using u(2) k exp_val_num by (auto simp: num_char_def split: option.splits)
  ultimately have "list_all num_char u" using u(1) by (metis list_all_append)
  moreover have "u \<noteq> [] \<and> is_digit (hd u)"
    using u(1) m di by (metis append_is_Nil_conv hd_append2)
  ultimately show ?thesis
    by (cases n) (auto simp: u_def num_char_def split: if_splits)
qed

lemma lex_num:
  assumes "valid_num n" "delim rest"
  shows "lexer (n @ rest) = map_option (\<lambda>ts. TVal (JNum n) # ts) (lexer rest)"
proof -
  note v = valid_num_chars [OF assms(1)]
  obtain c cs where n: "n = c # cs" using v by (cases n) auto
  have c: "is_digit c \<or> c = CHR ''-''" using v n by simp
  have "takeWhile num_char (n @ rest) = n"
    using v assms(2) by (cases rest) (auto simp: takeWhile_append2 list_all_iff)
  then have tw: "takeWhile num_char (c # cs @ rest) = c # cs" by (simp add: n)
  have "punct c = None" "\<not> is_space c" "c \<noteq> CHR 0x22"
    using c by (auto simp: punct_def is_space_def is_digit_def)
  with tw c assms(1) show ?thesis
    by (simp add: n next_token_def)
qed

lemma lex_str: "lexer (str_text s @ rest) = map_option (\<lambda>ts. TVal (JStr (coerce_utf8 s)) # ts) (lexer rest)"
  using read_str_esc [of s rest]
  by (simp add: str_text_def next_token_def is_space_def punct_def)

lemma lex_punct:
  "lexer (CHR ''['' # s) = map_option (\<lambda>ts. TLBrack # ts) (lexer s)"
  "lexer (CHR '']'' # s) = map_option (\<lambda>ts. TRBrack # ts) (lexer s)"
  "lexer (CHR ''{'' # s) = map_option (\<lambda>ts. TLBrace # ts) (lexer s)"
  "lexer (CHR ''}'' # s) = map_option (\<lambda>ts. TRBrace # ts) (lexer s)"
  "lexer (CHR '':'' # s) = map_option (\<lambda>ts. TColon # ts) (lexer s)"
  "lexer (CHR '','' # s) = map_option (\<lambda>ts. TComma # ts) (lexer s)"
  by (simp_all add: next_token_def is_space_def punct_def)

lemma lex_keyword:
  "lexer (''null'' @ s) = map_option (\<lambda>ts. TVal JNull # ts) (lexer s)"
  "lexer (''true'' @ s) = map_option (\<lambda>ts. TVal (JBool True) # ts) (lexer s)"
  "lexer (''false'' @ s) = map_option (\<lambda>ts. TVal (JBool False) # ts) (lexer s)"
  by (simp_all add: next_token_def is_space_def punct_def is_digit_def keyword_def hasPrefix_def)

declare lexer.simps(2) [simp del]

lemma delim_punct [simp]: "\<not> num_char (CHR '','')" "\<not> num_char (CHR '']'')" "\<not> num_char (CHR ''}'')"
  by (simp_all add: num_char_def is_digit_def)

lemma lex_join:
  assumes "\<And>x rest. x \<in> set xs \<Longrightarrow> delim rest \<Longrightarrow> lexer (f x @ rest) = map_option (\<lambda>ts. g x @ ts) (lexer rest)"
    and "delim rest"
  shows "lexer (joinWith '','' (map f xs) @ rest) = map_option (\<lambda>ts. tok_join (map g xs) @ ts) (lexer rest)"
  using assms(1)
proof (induction xs rule: induct_list012)
  case 1
  then show ?case by (simp add: option.map_ident)
next
  case (2 x)
  then show ?case using assms(2) by simp
next
  case (3 x y zs)
  then have "lexer (joinWith '','' (map f (y # zs)) @ rest) = map_option (\<lambda>ts. tok_join (map g (y # zs)) @ ts) (lexer rest)"
    by simp
  moreover have "lexer (f x @ CHR '','' # joinWith '','' (map f (y # zs)) @ rest) =
      map_option (\<lambda>ts. g x @ ts) (lexer (CHR '','' # joinWith '','' (map f (y # zs)) @ rest))"
    by (rule 3(3)) simp_all
  ultimately show ?case by (simp add: lex_punct option.map_comp o_def)
qed

lemma lex_json_text:
  "json_ok v \<Longrightarrow> delim rest \<Longrightarrow> lexer (json_text v @ rest) = map_option (\<lambda>ts. json_tokens (coerce_json v) @ ts) (lexer rest)"
proof (induction v arbitrary: rest)
  case JNull
  then show ?case using lex_keyword by simp
next
  case (JBool b)
  then show ?case using lex_keyword by (cases b) simp_all
next
  case (JNum n)
  then show ?case by (simp add: lex_num)
next
  case (JStr s)
  then show ?case by (simp add: lex_str)
next
  case (JArr xs)
  have "lexer (joinWith '','' (map json_text xs) @ CHR '']'' # rest) =
      map_option (\<lambda>ts. tok_join (map (json_tokens \<circ> coerce_json) xs) @ ts) (lexer (CHR '']'' # rest))"
    using JArr by (intro lex_join) (auto simp: list_all_iff)
  then show ?case by (simp add: lex_punct option.map_comp o_def)
next
  case (JObj es)
  let ?f = "\<lambda>(k, v). str_text k @ '':'' @ json_text v"
  let ?g = "\<lambda>(k, v). TVal (JStr (coerce_utf8 k)) # TColon # json_tokens (coerce_json v)"
  have "lexer (joinWith '','' (map ?f es) @ CHR ''}'' # rest) =
      map_option (\<lambda>ts. tok_join (map ?g es) @ ts) (lexer (CHR ''}'' # rest))"
  proof (rule lex_join)
    fix e r
    assume e: "e \<in> set es" and r: "delim r"
    obtain k v where kv: "e = (k, v)" by (cases e)
    have "lexer (json_text v @ r) = map_option (\<lambda>ts. json_tokens (coerce_json v) @ ts) (lexer r)"
      using JObj e r by (intro JObj.IH) (auto simp: kv list_all_iff)
    then show "lexer (?f e @ r) = map_option (\<lambda>ts. ?g e @ ts) (lexer r)"
      by (simp add: kv lex_str lex_punct option.map_comp o_def)
  qed simp
  then show ?case
    by (simp add: lex_punct option.map_comp o_def case_prod_unfold)
qed

lemma fold_max_ge_init: "a \<le> fold max xs (a :: nat)"
proof (induction xs arbitrary: a)
  case (Cons y ys)
  from Cons [of "max y a"] show ?case by simp
qed simp

lemma fold_max_ge: "x \<in> set xs \<Longrightarrow> x \<le> fold max xs (a :: nat)"
proof (induction xs arbitrary: a)
  case (Cons y ys)
  then show ?case using fold_max_ge_init [of "max y a" ys] by auto
qed simp

lemma value_step_first: "t \<noteq> TRBrack \<Longrightarrow> parse_step d (EValEnd, s) t = value_step d t s"
  by (cases "(d, (EValEnd, s), t)" rule: parse_step.cases) auto

lemma parse_first: "parse_run d (EValEnd, s) (json_tokens v @ ts) = parse_run d (EVal, s) (json_tokens v @ ts)"
  by (cases v) (simp_all add: value_step_first)

lemma parse_key_first:
  "parse_run d (EKeyEnd, s) (TVal (JStr k) # ts) = parse_run d (EKey, s) (TVal (JStr k) # ts)"
  by (cases "(d, (EKeyEnd, s), TVal (JStr k))" rule: parse_step.cases) auto

lemma parse_elems:
  assumes "\<And>v stk' ts. v \<in> set (x # xs) \<Longrightarrow> length stk' = Suc (length stk) \<Longrightarrow>
      parse_run d (EVal, stk') (json_tokens v @ ts) = parse_run d (EDone v, stk') ts"
  shows "parse_run d (EVal, FArr acc # stk) (tok_join (map json_tokens (x # xs)) @ TRBrack # ts) =
     parse_run d (EDone (JArr (rev acc @ x # xs)), stk) ts"
  using assms
proof (induction xs arbitrary: x acc)
  case (Cons y ys)
  have "parse_run d (EVal, FArr acc # stk) (json_tokens x @ TComma # tok_join (map json_tokens (y # ys)) @ TRBrack # ts) =
      parse_run d (EVal, FArr (x # acc) # stk) (tok_join (map json_tokens (y # ys)) @ TRBrack # ts)"
    using Cons.prems [of x] by simp
  also have "\<dots> = parse_run d (EDone (JArr (rev (x # acc) @ y # ys)), stk) ts"
    by (rule Cons.IH) (use Cons.prems in auto)
  finally show ?case by simp
qed simp

lemma parse_members:
  assumes "\<And>k v stk' ts. (k, v) \<in> set (e # es) \<Longrightarrow> length stk' = Suc (length stk) \<Longrightarrow>
      parse_run d (EVal, stk') (json_tokens v @ ts) = parse_run d (EDone v, stk') ts"
  shows "parse_run d (EKey, FObj acc k0 # stk)
      (tok_join (map (\<lambda>(k, v). TVal (JStr k) # TColon # json_tokens v) (e # es)) @ TRBrace # ts) =
     parse_run d (EDone (JObj (rev acc @ e # es)), stk) ts"
  using assms
proof (induction es arbitrary: e acc k0)
  case Nil
  then show ?case by (cases e) simp
next
  case (Cons f fs)
  obtain k v where e: "e = (k, v)" by (cases e)
  let ?m = "\<lambda>(k, v). TVal (JStr k) # TColon # json_tokens v"
  have "parse_run d (EKey, FObj acc k0 # stk) (?m e @ TComma # tok_join (map ?m (f # fs)) @ TRBrace # ts) =
      parse_run d (EKey, FObj (e # acc) [] # stk) (tok_join (map ?m (f # fs)) @ TRBrace # ts)"
    using Cons.prems [of k v] by (simp add: e)
  also have "\<dots> = parse_run d (EDone (JObj (rev (e # acc) @ f # fs)), stk) ts"
    by (rule Cons.IH) (use Cons.prems in auto)
  finally show ?case by simp
qed

lemma parse_tokens:
  "json_depth v + length stk \<le> d \<Longrightarrow> parse_run d (EVal, stk) (json_tokens v @ ts) = parse_run d (EDone v, stk) ts"
proof (induction v arbitrary: stk ts)
  case (JArr xs)
  have sub: "parse_run d (EVal, stk') (json_tokens v @ ts) = parse_run d (EDone v, stk') ts"
    if "v \<in> set xs" "length stk' = Suc (length stk)" for v stk' ts
    using that JArr.prems fold_max_ge [of "json_depth v" "map json_depth xs" 0] by (intro JArr.IH) auto
  show ?case
  proof (cases xs)
    case Nil
    with JArr.prems show ?thesis by (simp add: open_frame_def)
  next
    case (Cons y ys)
    have "parse_run d (EVal, stk) (json_tokens (JArr xs) @ ts) =
        parse_run d (EValEnd, FArr [] # stk) (tok_join (map json_tokens xs) @ TRBrack # ts)"
      using JArr.prems by (simp add: open_frame_def)
    also have "\<dots> = parse_run d (EVal, FArr [] # stk) (tok_join (map json_tokens xs) @ TRBrack # ts)"
      by (cases ys) (simp_all add: Cons parse_first)
    also have "\<dots> = parse_run d (EDone (JArr xs), stk) ts"
      using parse_elems [where x = y and xs = ys and stk = stk and acc = "[]"] sub Cons by simp
    finally show ?thesis .
  qed
next
  case (JObj es)
  have sub: "parse_run d (EVal, stk') (json_tokens v @ ts) = parse_run d (EDone v, stk') ts"
    if "(k, v) \<in> set es" "length stk' = Suc (length stk)" for k v stk' ts
  proof (rule JObj.IH)
    show "(k, v) \<in> set es" by fact
    show "v \<in> Basic_BNFs.snds (k, v)" by simp
    have "json_depth v \<in> set (map (\<lambda>e. json_depth (snd e)) es)" using that(1) by force
    from fold_max_ge [OF this, of 0] show "json_depth v + length stk' \<le> d"
      using that(2) JObj.prems by simp
  qed
  show ?case
  proof (cases es)
    case Nil
    with JObj.prems show ?thesis by (simp add: open_frame_def)
  next
    case (Cons e fs)
    let ?m = "\<lambda>(k, v). TVal (JStr k) # TColon # json_tokens v"
    have "parse_run d (EVal, stk) (json_tokens (JObj es) @ ts) =
        parse_run d (EKeyEnd, FObj [] [] # stk) (tok_join (map ?m es) @ TRBrace # ts)"
      using JObj.prems by (simp add: open_frame_def)
    also have "\<dots> = parse_run d (EKey, FObj [] [] # stk) (tok_join (map ?m es) @ TRBrace # ts)"
      by (cases e; cases fs) (simp_all add: Cons parse_key_first del: parse_run.simps)
    also have "\<dots> = parse_run d (EDone (JObj es), stk) ts"
      using parse_members [where e = e and es = fs and stk = stk and acc = "[]"] sub Cons by simp
    finally show ?thesis .
  qed
qed simp_all

lemma coerce_depth [simp]: "json_depth (coerce_json v) = json_depth v"
  by (induction v) (auto simp: o_def case_prod_unfold intro!: arg_cong2 [of _ _ _ _ "fold max"] map_cong)

lemma parse_depth_text:
  assumes "json_ok v" "json_depth v \<le> d"
  shows "parse_depth d (json_text v) = Some (coerce_json v)"
  using lex_json_text [OF assms(1), of "[]"] parse_tokens [where v = "coerce_json v" and stk = "[]" and d = d and ts = "[]"] assms(2)
  by (simp add: parse_depth_def)

theorem parse_json_text:
  "json_ok v \<Longrightarrow> json_depth v \<le> max_depth \<Longrightarrow> parse_json (json_text v) = Some (coerce_json v)"
  unfolding parse_json_def by (rule parse_depth_text)

text \<open>The first value of a text that is a value is that value.\<close>

lemma first_run_parse:
  "lexer s = Some ts \<Longrightarrow> parse_run d st ts = Some v \<Longrightarrow> first_run d st s = Some v"
proof (induction "length s" arbitrary: s st ts rule: less_induct)
  case less
  show ?case
  proof (cases s)
    case Nil
    with less.prems show ?thesis by simp
  next
    case (Cons c cs)
    show ?thesis
    proof (cases "\<exists>w. st = (EDone w, [])")
      case True
      then obtain w where st: "st = (EDone w, [])" by blast
      with less.prems(2) have "ts = []" by (cases ts) auto
      with st less.prems(2) show ?thesis by (simp add: Cons)
    next
      case False
      then have step: "first_run d st s =
          (if is_space c then first_run d st cs
           else (case next_token c cs of
               None \<Rightarrow> None
             | Some (t, rest) \<Rightarrow>
                 (case parse_step d st t of None \<Rightarrow> None | Some st' \<Rightarrow> first_run d st' rest)))"
        by (cases st) (auto simp: Cons split: expect.splits list.splits)
      show ?thesis
      proof (cases "is_space c")
        case True
        with less.prems(1) have "lexer cs = Some ts" by (simp add: Cons lexer.simps(2))
        with less.hyps [of cs ts st] less.prems(2) step True show ?thesis by (simp add: Cons)
      next
        case sp: False
        with less.prems(1) obtain t rest ts' where
          t: "next_token c cs = Some (t, rest)" "lexer rest = Some ts'" "ts = t # ts'"
          by (auto simp: Cons lexer.simps(2) split: option.splits)
        with less.prems(2) obtain st' where "parse_step d st t = Some st'" "parse_run d st' ts' = Some v"
          by (auto split: option.splits)
        with less.hyps [of rest ts' st'] next_token_length [OF t(1)] t step sp show ?thesis by (simp add: Cons)
      qed
    qed
  qed
qed

lemma first_json_text:
  "json_ok v \<Longrightarrow> json_depth v \<le> max_depth \<Longrightarrow> first_json (json_text v) = Some (coerce_json v)"
  using parse_json_text [of v] first_run_parse
  by (auto simp: parse_json_def parse_depth_def first_json_def split: option.splits)
text \<open>Different trees of valid UTF-8 have different texts, whatever their depth.\<close>

lemma json_text_inj:
  assumes "json_ok v" "json_ok w" "json_text v = json_text w"
  shows "coerce_json v = coerce_json w"
  using parse_depth_text [OF assms(1), of "json_depth v + json_depth w"]
    parse_depth_text [OF assms(2), of "json_depth v + json_depth w"] assms(3) by simp

lemma coerce_json_id: "utf8_json v \<Longrightarrow> coerce_json v = v"
  by (induction v) (auto simp: list_all_iff intro!: map_idI)

lemma any_ok_json_ok: "any_ok v \<Longrightarrow> json_ok v"
  by (induction v) (auto simp: list_all_iff dest: f64_canon_valid)

text \<open>A text written by \<^verbatim>\<open>Marshal\<close> has no line break, and one after it does not matter.\<close>

lemma digit_char_ne [simp]: "d < 16 \<Longrightarrow> CHR 10 \<noteq> digit_char d"
  by (auto simp: digit_char_def dest!: arg_cong [of _ _ "of_char :: char \<Rightarrow> nat"])

lemma u_esc_no_newline: "r < 65536 \<Longrightarrow> CHR 10 \<notin> set (u_esc r)"
  by (simp add: u_esc_def)

lemma byte_in_high:
  "byte_in 0x80 0xBF c \<Longrightarrow> \<not> byte_in 0 0x7F c" "byte_in 0xA0 0xBF c \<Longrightarrow> \<not> byte_in 0 0x7F c"
  "byte_in 0x80 0x9F c \<Longrightarrow> \<not> byte_in 0 0x7F c" "byte_in 0x90 0xBF c \<Longrightarrow> \<not> byte_in 0 0x7F c"
  "byte_in 0x80 0x8F c \<Longrightarrow> \<not> byte_in 0 0x7F c"
  by (simp_all add: byte_in_def)

lemma rune_bytes:
  assumes "rune_len s = n" "1 < n"
  shows "list_all (\<lambda>c. \<not> byte_in 0 0x7F c) (take n s)"
proof (cases s)
  case (Cons a s')
  with assms have "\<not> byte_in 0 0x7F a" by auto
  then show ?thesis
    using assms by (auto simp: Cons split: list.splits if_splits dest: byte_in_high)
qed simp

lemma rune_text_no_newline:
  assumes "rune_len s = n" "0 < n"
  shows "CHR 10 \<notin> set (rune_text (take n s))"
proof (cases "n = 1")
  case True
  then obtain c cs where s: "s = c # cs" "byte_in 0 0x7F c"
    using assms by (cases s) (auto simp: rune_len_1 simp del: rune_len.simps(2))
  have "(of_char c :: nat) < 65536" using s(2) by (simp add: byte_in_def)
  from u_esc_no_newline [OF this] show ?thesis
    using True s by (auto simp: rune_text_def Let_def)
next
  case False
  then have "list_all (\<lambda>c. \<not> byte_in 0 0x7F c) (take n s)" using assms(2) by (intro rune_bytes [OF assms(1)]) simp
  then have *: "CHR 10 \<notin> set (take n s)" by (auto simp: list_all_iff byte_in_def)
  have "length (take n s) = n" using assms rune_len_le [of s] by simp
  with False assms(2) obtain x y zs where "take n s = x # y # zs"
    by (cases "take n s"; cases "tl (take n s)") auto
  then have "rune_text (take n s) \<in> {u_esc 0x2028, u_esc 0x2029, take n s}"
    by (auto simp: rune_text_def)
  with * u_esc_no_newline show ?thesis by auto
qed

lemma esc_text_no_newline: "CHR 10 \<notin> set (esc_text s)"
proof (induction s rule: esc_text.induct)
  case (2 c cs)
  then show ?case
    using u_esc_no_newline [of "0xFFFD"] rune_text_no_newline [OF refl, where ?s = "c # cs"]
    by (auto simp: Let_def simp del: rune_len.simps)
qed simp

lemma joinWith_set: "x \<in> set (joinWith sep ps) \<Longrightarrow> x \<in> set sep \<or> (\<exists>p \<in> set ps. x \<in> set p)"
  by (induction sep ps rule: joinWith.induct) auto

lemma str_text_no_newline: "CHR 10 \<notin> set (str_text s)"
  by (simp add: str_text_def esc_text_no_newline)

lemma json_text_no_newline: "json_ok v \<Longrightarrow> CHR 10 \<notin> set (json_text v)"
proof (induction v)
  case (JNum n)
  then show ?case using valid_num_chars [of n] by (auto simp: list_all_iff num_char_def is_digit_def)
next
  case (JArr xs)
  then show ?case by (auto simp: list_all_iff dest!: joinWith_set)
next
  case (JObj es)
  then show ?case by (fastforce simp: list_all_iff str_text_no_newline dest!: joinWith_set)
qed (auto simp: str_text_no_newline)

lemma parse_json_line:
  assumes "json_ok v" "json_depth v \<le> max_depth"
  shows "parse_json (json_text v @ [CHR 10]) = Some (coerce_json v)"
proof -
  have "lexer [CHR 10] = Some []" by (simp add: lexer.simps(2) is_space_def)
  then show ?thesis
    using lex_json_text [OF assms(1), of "[CHR 10]"] assms(2)
      parse_tokens [where v = "coerce_json v" and stk = "[]" and d = max_depth and ts = "[]"]
    by (simp add: parse_json_def parse_depth_def num_char_def is_digit_def)
qed

lemma first_json_line:
  assumes "json_ok v" "json_depth v \<le> max_depth"
  shows "first_json (json_text v @ [CHR 10]) = Some (coerce_json v)"
  using parse_json_line [OF assms] first_run_parse
  by (auto simp: parse_json_def parse_depth_def first_json_def split: option.splits)

lemma coerce_ascii: "list_all (byte_in 0 0x7F) s \<Longrightarrow> coerce_utf8 s = s"
  by (induction s) auto

declare coerce_utf8.simps(2) [simp del]
declare esc_text.simps(2) [simp del]
declare read_str.simps(2) [simp del]
declare rune_len.simps(2) [simp del]

section \<open>What is read is valid UTF-8\<close>

lemma coerce_rune: "rune_len r = length r \<Longrightarrow> r \<noteq> [] \<Longrightarrow> coerce_utf8 (r @ t) = r @ coerce_utf8 t"
proof -
  assume r: "rune_len r = length r" "r \<noteq> []"
  then have "rune_len (r @ t) = length r" using rune_len_take [of r "length r" t] by simp
  with r show ?thesis by (cases r) (auto simp: coerce_utf8.simps(2) Let_def)
qed

lemma rune_take: "rune_len s = n \<Longrightarrow> 0 < n \<Longrightarrow> rune_len (take n s) = length (take n s) \<and> take n s \<noteq> []"
  using rune_len_take [of s n "[]"] rune_len_le [of s] by auto

lemma replacement_rune: "rune_len replacement = length replacement" "replacement \<noteq> []"
  by (simp_all add: replacement_def rune_len.simps(2) byte_in_def)

lemma byte_in_char_of: "k < 256 \<Longrightarrow> byte_in lo hi (char_of k) \<longleftrightarrow> lo \<le> k \<and> k \<le> hi"
  by (simp add: byte_in_def)

lemma utf8_enc_rune:
  assumes "r < 0x110000" "\<not> (0xD800 \<le> r \<and> r < 0xE000)"
  shows "rune_len (utf8_enc r) = length (utf8_enc r) \<and> utf8_enc r \<noteq> []"
proof -
  define a where "a = r div 262144" define b where "b = r div 4096 mod 64"
  define c where "c = r div 64 mod 64" define d where "d = r mod 64"
  have r: "r = 262144 * a + 4096 * b + 64 * c + d"
  proof -
    have "r = 64 * (r div 64) + d" by (simp add: d_def)
    moreover have "r div 64 = 64 * (r div 4096) + c"
      using mult_div_mod_eq [of 64 "r div 64"] by (simp add: c_def div_mult2_eq [symmetric])
    moreover have "r div 4096 = 64 * a + b"
      using mult_div_mod_eq [of 64 "r div 4096"] by (simp add: a_def b_def div_mult2_eq [symmetric])
    ultimately show ?thesis by linarith
  qed
  have lt: "b < 64" "c < 64" "d < 64" by (simp_all add: b_def c_def d_def)
  consider "r < 0x80" | "0x80 \<le> r" "r < 0x800" | "0x800 \<le> r" "r < 0x10000" | "0x10000 \<le> r" by linarith
  then show ?thesis
  proof cases
    case 1
    then show ?thesis by (simp add: utf8_enc_def rune_len.simps(2) byte_in_char_of)
  next
    case 2
    then have "a = 0" "b = 0" using r by auto
    with r lt 2 have "r div 64 = c" "2 \<le> c" "c < 32" by auto
    with 2 lt show ?thesis
      by (simp add: utf8_enc_def rune_len.simps(2) byte_in_char_of d_def [symmetric])
  next
    case 3
    then have a0: "a = 0" using r by auto
    with r lt 3 have b: "r div 4096 = b" "b < 16" "b = 0 \<Longrightarrow> 32 \<le> c" "b = 13 \<Longrightarrow> c < 32" using assms(2) by auto
    then show ?thesis using 3 lt
      by (auto simp: utf8_enc_def rune_len.simps(2) byte_in_char_of d_def [symmetric] c_def [symmetric])
  next
    case 4
    with r lt assms(1) consider "a = 0" "16 \<le> b" | "1 \<le> a" "a \<le> 3" | "a = 4" "b < 16" by fastforce
    then show ?thesis using 4 lt
      by cases (simp_all add: utf8_enc_def rune_len.simps(2) byte_in_char_of d_def [symmetric] c_def [symmetric]
          b_def [symmetric] a_def [symmetric])
  qed
qed

lemma hex_digit_less: "hex_digit c = Some d \<Longrightarrow> d < 16"
  by (auto simp: hex_digit_def Let_def split: if_splits)

lemma hex4_less: "hex4 s = Some r \<Longrightarrow> r < 65536"
  by (auto simp: hex4_def split: list.splits option.splits dest!: hex_digit_less)

lemma read_escape_rune: "read_escape s = Some (bs, n) \<Longrightarrow> rune_len bs = length bs \<and> bs \<noteq> []"
proof -
  assume a: "read_escape s = Some (bs, n)"
  then obtain c cs where s: "s = c # cs" by (cases s) (auto simp: read_escape_def)
  show ?thesis
  proof (cases "simple_escape c")
    case (Some b)
    from map_of_SomeD [OF this [unfolded simple_escape_def]] have "byte_in 0 0x7F b"
      by (auto simp: byte_in_def)
    with a Some show ?thesis by (auto simp: s read_escape_def rune_len.simps(2))
  next
    case None
    with a have u: "unicode_escape cs = Some (bs, n)" by (auto simp: s read_escape_def split: if_splits)
    then obtain r where r: "hex4 cs = Some r" by (auto simp: unicode_escape_def split: option.splits)
    show ?thesis
    proof (cases "0xD800 \<le> r \<and> r < 0xE000")
      case False
      then have "bs = utf8_enc r" using u r by (auto simp: unicode_escape_def)
      with False hex4_less [OF r] utf8_enc_rune [of r] show ?thesis by simp
    next
      case sur: True
      then consider "bs = replacement"
        | r2 where "r < 0xDC00" "0xDC00 \<le> r2" "r2 < 0xE000" "bs = utf8_enc (0x10000 + (r - 0xD800) * 1024 + (r2 - 0xDC00))"
        using u r by (auto simp: unicode_escape_def split: option.splits if_splits)
      then show ?thesis
      proof cases
        case 1
        then show ?thesis using replacement_rune by simp
      next
        case 2
        have "0x10000 + (r - 0xD800) * 1024 + (r2 - 0xDC00) < 0x110000"
          using 2 sur by linarith
        with 2 utf8_enc_rune show ?thesis by simp
      qed
    qed
  qed
qed

lemma prepend_Some: "prepend bs m = Some (x, r) \<longleftrightarrow> (\<exists>y. m = Some (y, r) \<and> x = bs @ y)"
  by (auto simp: prepend_def)

lemma read_str_utf8: "read_str s = Some (x, r) \<Longrightarrow> coerce_utf8 x = x"
proof (induction s arbitrary: x r rule: read_str.induct)
  case (2 c cs)
  consider "c = CHR 0x22" | "c = CHR 0x5C" | "c \<noteq> CHR 0x22" "c \<noteq> CHR 0x5C" by blast
  then show ?case
  proof cases
    case 1
    with 2 show ?thesis by (simp add: read_str.simps(2))
  next
    case c: 2
    with 2(4) obtain bs n y where e: "read_escape cs = Some (bs, n)" and y: "read_str (drop n cs) = Some (y, r)" "x = bs @ y"
      by (auto simp: read_str.simps(2) prepend_Some split: option.splits)
    from 2(1) [OF _ c e refl y(1)] c have "coerce_utf8 y = y" by simp
    with coerce_rune read_escape_rune [OF e] y(2) show ?thesis by simp
  next
    case c: 3
    with 2(4) have ctl: "\<not> byte_in 0 0x1F c" by (auto simp: read_str.simps(2) split: if_splits)
    show ?thesis
    proof (cases "rune_len (c # cs) = 0")
      case True
      with c ctl 2(4) obtain y where y: "read_str cs = Some (y, r)" "x = replacement @ y"
        by (auto simp: read_str.simps(2) prepend_Some)
      from 2(2) [OF c ctl refl True y(1)] coerce_rune [OF replacement_rune] y(2) show ?thesis by simp
    next
      case False
      with c ctl 2(4) obtain y where y: "read_str (drop (rune_len (c # cs) - 1) cs) = Some (y, r)"
        "x = take (rune_len (c # cs)) (c # cs) @ y"
        by (auto simp: read_str.simps(2) prepend_Some Let_def)
      from 2(3) [OF c ctl refl False y(1)] coerce_rune rune_take [OF refl, where ?s = "c # cs"] False y(2)
      show ?thesis by simp
    qed
  qed
qed simp

fun tok_utf8 :: "token \<Rightarrow> bool" where
  "tok_utf8 (TVal v) = utf8_json v"
| "tok_utf8 t = True"

lemma next_token_utf8: "next_token c cs = Some (t, r) \<Longrightarrow> tok_utf8 t"
proof -
  have "punct c = Some t \<Longrightarrow> tok_utf8 t" for t by (auto simp: punct_def split: if_split_asm)
  moreover have "keyword s = Some (v, n) \<Longrightarrow> utf8_json v" for s v n
    by (auto simp: keyword_def split: if_split_asm)
  ultimately show "next_token c cs = Some (t, r) \<Longrightarrow> tok_utf8 t"
    by (auto simp: next_token_def Let_def dest: read_str_utf8 split: option.splits if_split_asm)
qed

lemma lexer_utf8: "lexer s = Some ts \<Longrightarrow> list_all tok_utf8 ts"
proof (induction s arbitrary: ts rule: lexer.induct)
  case (2 c cs)
  then show ?case
    by (auto simp: lexer.simps(2) dest: next_token_utf8 split: if_splits option.splits)
qed simp

fun frame_utf8 :: "frame \<Rightarrow> bool" where
  "frame_utf8 (FArr xs) = list_all utf8_json xs"
| "frame_utf8 (FObj ms k) = (list_all (\<lambda>e. coerce_utf8 (fst e) = fst e \<and> utf8_json (snd e)) ms \<and> coerce_utf8 k = k)"

fun expect_utf8 :: "expect \<Rightarrow> bool" where
  "expect_utf8 (EColon k) = (coerce_utf8 k = k)"
| "expect_utf8 (EDone v) = utf8_json v"
| "expect_utf8 e = True"

lemma value_step_utf8:
  "value_step d t stk = Some (e', stk') \<Longrightarrow> tok_utf8 t \<Longrightarrow> list_all frame_utf8 stk \<Longrightarrow>
     expect_utf8 e' \<and> list_all frame_utf8 stk'"
  by (cases t) (auto simp: open_frame_def split: if_splits)

lemma parse_step_utf8:
  "parse_step d s t = Some (e', stk') \<Longrightarrow> tok_utf8 t \<Longrightarrow> expect_utf8 (fst s) \<Longrightarrow> list_all frame_utf8 (snd s) \<Longrightarrow>
     expect_utf8 e' \<and> list_all frame_utf8 stk'"
  by (induction d s t rule: parse_step.induct) (auto simp: open_frame_def split: if_splits dest: value_step_utf8)

lemma parse_run_utf8:
  "parse_run d s ts = Some v \<Longrightarrow> list_all tok_utf8 ts \<Longrightarrow> expect_utf8 (fst s) \<Longrightarrow> list_all frame_utf8 (snd s) \<Longrightarrow>
     utf8_json v"
proof (induction d s ts rule: parse_run.induct)
  case (1 d s)
  then show ?case by (auto split: prod.splits expect.splits list.splits)
next
  case (2 d s t ts)
  then obtain s' where s': "parse_step d s t = Some s'" "parse_run d s' ts = Some v" by (auto split: option.splits)
  have "expect_utf8 (fst s') \<and> list_all frame_utf8 (snd s')"
    using parse_step_utf8 [of d s t "fst s'" "snd s'"] 2 s' by simp
  with 2 s' show ?case by simp
qed

theorem parse_json_utf8: "parse_json s = Some v \<Longrightarrow> utf8_json v"
  by (auto simp: parse_json_def parse_depth_def split: option.splits dest!: lexer_utf8 parse_run_utf8)

section \<open>Nothing deeper than the limit is read\<close>

fun frame_values :: "frame \<Rightarrow> json list" where
  "frame_values (FArr xs) = xs"
| "frame_values (FObj ms k) = map snd ms"

fun frames_within :: "nat \<Rightarrow> frame list \<Rightarrow> bool" where
  "frames_within d [] = True"
| "frames_within d (f # stk) =
     (Suc (length stk) \<le> d \<and> list_all (\<lambda>v. json_depth v + Suc (length stk) \<le> d) (frame_values f) \<and> frames_within d stk)"

fun expect_within :: "nat \<Rightarrow> nat \<Rightarrow> expect \<Rightarrow> bool" where
  "expect_within d n (EDone v) = (json_depth v + n \<le> d)"
| "expect_within d n e = True"

fun tok_flat :: "token \<Rightarrow> bool" where
  "tok_flat (TVal v) = (json_depth v = 0)"
| "tok_flat t = True"

lemma fold_max_less: "fold max xs a + n < (d :: nat) \<longleftrightarrow> a + n < d \<and> (\<forall>x \<in> set xs. x + n < d)"
  by (induction xs arbitrary: a) (auto simp: max_add_distrib_left)

lemma value_step_within:
  "value_step d t stk = Some (e', stk') \<Longrightarrow> tok_flat t \<Longrightarrow> length stk \<le> d \<Longrightarrow> frames_within d stk \<Longrightarrow>
     expect_within d (length stk') e' \<and> frames_within d stk'"
  by (cases t) (auto simp: open_frame_def split: if_splits)

lemma frames_within_length: "frames_within d stk \<Longrightarrow> length stk \<le> d"
  by (cases stk) auto

lemma parse_step_within:
  "parse_step d s t = Some (e', stk') \<Longrightarrow> tok_flat t \<Longrightarrow> expect_within d (length (snd s)) (fst s) \<Longrightarrow> frames_within d (snd s) \<Longrightarrow>
     expect_within d (length stk') e' \<and> frames_within d stk'"
  by (induction d s t rule: parse_step.induct)
    (auto simp: list_all_iff fold_max_less less_eq_Suc_le [symmetric] max_add_distrib_left open_frame_def split: if_splits dest: value_step_within frames_within_length)

lemma parse_run_within:
  "parse_run d s ts = Some v \<Longrightarrow> list_all tok_flat ts \<Longrightarrow> expect_within d (length (snd s)) (fst s) \<Longrightarrow> frames_within d (snd s) \<Longrightarrow>
     json_depth v \<le> d"
proof (induction d s ts rule: parse_run.induct)
  case (1 d s)
  then show ?case by (auto split: prod.splits expect.splits list.splits)
next
  case (2 d s t ts)
  then obtain s' where s': "parse_step d s t = Some s'" "parse_run d s' ts = Some v" by (auto split: option.splits)
  have "expect_within d (length (snd s')) (fst s') \<and> frames_within d (snd s')"
    using parse_step_within [of d s t "fst s'" "snd s'"] 2 s' by simp
  with 2 s' show ?case by simp
qed

lemma value_step_mono: "value_step d t stk = Some s' \<Longrightarrow> d \<le> e \<Longrightarrow> value_step e t stk = Some s'"
  by (cases t) (auto simp: open_frame_def split: if_splits)

lemma parse_step_mono: "parse_step d s t = Some s' \<Longrightarrow> d \<le> e \<Longrightarrow> parse_step e s t = Some s'"
  by (induction d s t rule: parse_step.induct) (auto simp: open_frame_def split: if_splits dest: value_step_mono)

lemma parse_run_mono: "parse_run d s ts = Some v \<Longrightarrow> d \<le> e \<Longrightarrow> parse_run e s ts = Some v"
  by (induction d s ts rule: parse_run.induct) (auto split: option.splits dest: parse_step_mono)


lemma tok_join_flat: "list_all (list_all tok_flat) ps \<Longrightarrow> list_all tok_flat (tok_join ps)"
  by (induction ps rule: tok_join.induct) auto

lemma tokens_flat: "list_all tok_flat (json_tokens v)"
proof (induction v)
  case (JArr xs)
  then have "list_all (list_all tok_flat) (map json_tokens xs)" by (simp add: list_all_iff)
  from tok_join_flat [OF this] show ?case by simp
next
  case (JObj es)
  then have "list_all (list_all tok_flat) (map (\<lambda>(k, v). TVal (JStr k) # TColon # json_tokens v) es)"
    by (fastforce simp: list_all_iff)
  from tok_join_flat [OF this] show ?case by simp
qed simp_all

lemma parse_tokens_too_deep:
  assumes "d < json_depth v"
  shows "parse_run d (EVal, []) (json_tokens v) = None"
proof (rule ccontr)
  assume "parse_run d (EVal, []) (json_tokens v) \<noteq> None"
  then obtain w where w: "parse_run d (EVal, []) (json_tokens v) = Some w" by blast
  have "parse_run (json_depth v) (EVal, []) (json_tokens v) = Some v"
    using parse_tokens [of v "[]" "json_depth v" "[]"] by simp
  with parse_run_mono [OF w] assms have "w = v" by simp
  with parse_run_within [OF w tokens_flat] assms show False by simp
qed

lemma parse_json_too_deep:
  assumes "json_ok v" "max_depth < json_depth v"
  shows "parse_json (json_text v) = None" "parse_json (json_text v @ [CHR 10]) = None"
proof -
  have "lexer [CHR 10] = Some []" by (simp add: lexer.simps(2) is_space_def)
  then show "parse_json (json_text v) = None" "parse_json (json_text v @ [CHR 10]) = None"
    using lex_json_text [OF assms(1), of "[]"] lex_json_text [OF assms(1), of "[CHR 10]"] assms(2)
      parse_tokens_too_deep [of max_depth "coerce_json v"]
    by (simp_all add: parse_json_def parse_depth_def num_char_def is_digit_def)
qed

end
