(* ===== verification/HD_Record_Text.thy ===== *)
theory HD_Record_Text
  imports HD_Types Go_Json_Text
begin

text \<open>
  Action records read from text are well-formed: integers of 64 bits, values in normal form,
  maps with distinct keys and only valid UTF-8, field by field; and a well-formed record is
  encoded to valid UTF-8. So a record read from a file is determined by its encoding.
\<close>

section \<open>Decoders keep well-formedness\<close>

abbreviation utf8 :: "string \<Rightarrow> bool" where
  "utf8 s \<equiv> coerce_utf8 s = s"

lemma find_field_mem: "find_field fs k = Some f \<Longrightarrow> \<exists>k'. (k', f) \<in> set fs"
  by (auto simp: find_field_def find_Some_iff split: option.splits dest: map_of_SomeD)
    (metis nth_mem prod.collapse)

text \<open>A field decoder that keeps a property as long as it reads valid UTF-8.\<close>

definition keeps :: "('r \<Rightarrow> bool) \<Rightarrow> (json \<Rightarrow> 'r \<Rightarrow> 'r option) \<Rightarrow> bool" where
  "keeps P f \<longleftrightarrow> (\<forall>v r r'. utf8_json v \<longrightarrow> P r \<longrightarrow> f v r = Some r' \<longrightarrow> P r')"

lemma keepsI: "(\<And>v r r'. utf8_json v \<Longrightarrow> P r \<Longrightarrow> f v r = Some r' \<Longrightarrow> P r') \<Longrightarrow> keeps P f"
  by (simp add: keeps_def)

lemma keepsD: "keeps P f \<Longrightarrow> f v r = Some r' \<Longrightarrow> utf8_json v \<Longrightarrow> P r \<Longrightarrow> P r'"
  by (simp add: keeps_def)

lemma keeps_fields:
  assumes "list_all (\<lambda>(k, f). keeps P f) fs"
  shows "utf8_json (JObj es) \<Longrightarrow> P r \<Longrightarrow> dec_fields fs es r = Some r' \<Longrightarrow> P r'"
proof (induction es arbitrary: r)
  case (Cons e es)
  obtain k v where e: "e = (k, v)" by (cases e)
  show ?case
  proof (cases "find_field fs k")
    case None
    with Cons show ?thesis by (simp add: e)
  next
    case (Some f)
    then have "keeps P f" using find_field_mem assms by (fastforce simp: list_all_iff)
    moreover obtain r1 where "f v r = Some r1" "dec_fields fs es r1 = Some r'"
      using Cons.prems(3) Some by (auto simp: e split: option.splits)
    ultimately show ?thesis using Cons by (auto simp: e dest: keepsD)
  qed
qed simp

lemma keeps_struct: "list_all (\<lambda>(k, f). keeps P f) fs \<Longrightarrow> keeps P (dec_struct fs)"
  by (rule keepsI) (auto simp: dec_struct_def split: json.splits intro: keeps_fields)

lemma keeps_str: "(\<And>x r. utf8 x \<Longrightarrow> P r \<Longrightarrow> P (upd x r)) \<Longrightarrow> keeps P (dec_str upd)"
  by (rule keepsI) (auto simp: dec_str_def split: json.splits)

lemma int_of_lit_int64: "int_of_lit s = Some i \<Longrightarrow> int64_ok i"
  by (auto simp: int_of_lit_def atoi_def Let_def int64_ok_def split: if_splits)

lemma keeps_int: "(\<And>x r. int64_ok x \<Longrightarrow> P r \<Longrightarrow> P (upd x r)) \<Longrightarrow> keeps P (dec_int upd)"
  by (rule keepsI) (auto simp: dec_int_def split: json.splits dest: int_of_lit_int64)

lemma keeps_bool: "(\<And>x r. P r \<Longrightarrow> P (upd x r)) \<Longrightarrow> keeps P (dec_bool upd)"
  by (rule keepsI) (auto simp: dec_bool_def split: json.splits)

lemma keeps_time: "(\<And>x r. P r \<Longrightarrow> P (upd x r)) \<Longrightarrow> keeps P (dec_time upd)"
  by (rule keepsI) (auto simp: dec_time_def split: json.splits)

lemma dec_elems_all:
  "dec_elems f xs = Some ys \<Longrightarrow> \<forall>x \<in> set xs. \<forall>y. f x = Some y \<longrightarrow> Q y \<Longrightarrow> list_all Q ys"
  by (induction xs arbitrary: ys) (auto split: option.splits)

lemma keeps_slice:
  assumes "\<And>x y. utf8_json x \<Longrightarrow> f x = Some y \<Longrightarrow> Q y" "\<And>xs r. list_all Q xs \<Longrightarrow> P r \<Longrightarrow> P (upd xs r)"
  shows "keeps P (dec_slice f upd)"
proof (rule keepsI)
  fix v r r'
  assume "utf8_json v" "P r" "dec_slice f upd v r = Some r'"
  moreover have "list_all Q ys" if "v = JArr xs" "dec_elems f xs = Some ys" for xs ys
    using that(2) by (rule dec_elems_all) (use assms(1) \<open>utf8_json v\<close> that in \<open>auto simp: list_all_iff\<close>)
  ultimately show "P r'"
    using assms(2) [of "[]"] by (auto simp: dec_slice_def assms(2) split: json.splits)
qed

lemma keeps_strs: "(\<And>xs r. list_all utf8 xs \<Longrightarrow> P r \<Longrightarrow> P (upd xs r)) \<Longrightarrow> keeps P (dec_strs upd)"
  by (rule keeps_slice [where Q = utf8]) (auto simp: str_elem_def split: json.splits)

lemma keeps_nested:
  assumes "keeps Q g" "\<And>r. P r \<Longrightarrow> Q (get r)" "\<And>x r. Q x \<Longrightarrow> P r \<Longrightarrow> P (put x r)"
  shows "keeps P (\<lambda>v r. map_option (\<lambda>x. put x r) (g v (get r)))"
  by (rule keepsI) (use assms in \<open>auto dest: keepsD\<close>)

lemmas keeps_intros = keeps_str keeps_int keeps_bool keeps_time keeps_strs

lemma any_of_utf8_aux:
  "any_of x = Some y \<Longrightarrow> utf8_json x \<Longrightarrow> utf8_json y"
  "any_list xs = Some ys \<Longrightarrow> list_all utf8_json xs \<Longrightarrow> list_all utf8_json ys"
  "any_obj es m = Some n \<Longrightarrow> utf8_json (JObj es) \<Longrightarrow> utf8_json (JObj m) \<Longrightarrow> utf8_json (JObj n)"
proof (induction x and xs and es m arbitrary: y and ys and n rule: any_of_any_list_any_obj.induct)
  case (10 k v es m)
  have "list_all P (gm_upd k w m)" if "P (k, w)" "list_all P m" for P :: "string \<times> json \<Rightarrow> bool" and w
    using that by (induction k w m rule: gm_upd.induct) auto
  with 10 show ?case by (auto split: option.splits)
qed (auto split: option.splits)

lemmas any_of_utf8 = any_of_utf8_aux(1)

definition subject_wf :: "Subject \<Rightarrow> bool" where
  "subject_wf s \<longleftrightarrow> subject_ok s \<and> utf8 (sub_ID s) \<and> utf8 (sub_Kind s) \<and> utf8 (sub_AgentVersion s) \<and>
     list_all utf8 (sub_DelegationChain s) \<and> list_all utf8 (sub_Scopes s)"

definition value_wf :: "Value \<Rightarrow> bool" where
  "value_wf v \<longleftrightarrow> any_ok (val_Data v) \<and> utf8_json (val_Data v) \<and> utf8 (prov_Source (val_Provenance v))"

definition action_wf :: "Action \<Rightarrow> bool" where
  "action_wf a \<longleftrightarrow> utf8 (act_Type a) \<and> utf8 (act_Tool a) \<and> utf8 (act_Resource a) \<and> utf8 (act_Risk a) \<and>
     list_all utf8 (act_DataClasses a) \<and> list_all utf8 (act_RequiredScopes a) \<and>
     (case act_Arguments a of None \<Rightarrow> True | Some m \<Rightarrow> gm_ok m \<and> list_all (\<lambda>e. utf8 (fst e) \<and> value_wf (snd e)) m)"

definition decision_wf :: "DecisionResponse \<Rightarrow> bool" where
  "decision_wf d \<longleftrightarrow> utf8 (dr_Outcome d) \<and> utf8 (dr_PolicyID d) \<and> utf8 (dr_Reason d) \<and>
     list_all (\<lambda>b. utf8 (ob_Type b) \<and> utf8 (ob_Target b)) (dr_Obligations d)"

definition bundle_wf :: "PolicyBundleRef option \<Rightarrow> bool" where
  "bundle_wf b \<longleftrightarrow> (case b of None \<Rightarrow> True | Some p \<Rightarrow> utf8 (pbr_Version p) \<and> utf8 (pbr_Digest p))"

definition record_wf :: "ActionRecord \<Rightarrow> bool" where
  "record_wf r \<longleftrightarrow> subject_wf (rec_Subject r) \<and> action_wf (rec_Action r) \<and> decision_wf (rec_Decision r) \<and>
     utf8 (rec_Outcome r) \<and> bundle_wf (rec_PolicyBundle r) \<and> utf8 (rec_PrevHash r) \<and> utf8 (rec_Hash r)"

lemma keeps_subject: "keeps subject_wf (dec_struct subject_fields)"
  by (rule keeps_struct) (auto simp: subject_fields_def subject_wf_def subject_ok_def intro!: keeps_intros)

lemma keeps_provenance: "keeps (\<lambda>p. utf8 (prov_Source p)) (dec_struct provenance_fields)"
  by (rule keeps_struct) (auto simp: provenance_fields_def intro!: keeps_intros)

lemma keeps_value: "keeps value_wf (dec_struct value_fields)"
proof (rule keeps_struct)
  have "keeps value_wf (dec_any (\<lambda>x. val_Data_update (\<lambda>_. x)))"
    by (rule keepsI) (auto simp: dec_any_def value_wf_def dest: any_of_utf8 any_of_ok)
  moreover have "keeps value_wf (\<lambda>v r. map_option (\<lambda>p. r\<lparr>val_Provenance := p\<rparr>)
      (dec_struct provenance_fields v (val_Provenance r)))"
    by (rule keeps_nested [OF keeps_provenance]) (auto simp: value_wf_def)
  ultimately show "list_all (\<lambda>(k, f). keeps value_wf f) value_fields"
    by (simp add: value_fields_def)
qed

lemma list_all_upd: "P (k, w) \<Longrightarrow> list_all P m \<Longrightarrow> list_all P (gm_upd k w m)"
  by (induction k w m rule: gm_upd.induct) auto

lemma dec_value_members_wf:
  "dec_value_members es m = Some n \<Longrightarrow> utf8_json (JObj es) \<Longrightarrow>
     gm_ok m \<Longrightarrow> list_all (\<lambda>e. utf8 (fst e) \<and> value_wf (snd e)) m \<Longrightarrow>
     gm_ok n \<and> list_all (\<lambda>e. utf8 (fst e) \<and> value_wf (snd e)) n"
proof (induction es m rule: dec_value_members.induct)
  case (2 k v es m)
  have "value_wf zero_Value" by (simp add: value_wf_def zero_Value_def)
  with 2 keepsD [OF keeps_value, of v zero_Value] show ?case
    by (auto split: option.splits simp: list_all_upd)
qed simp

lemma keeps_arguments: "keeps action_wf dec_arguments"
proof (rule keepsI)
  fix v r r'
  assume a: "utf8_json v" "action_wf r" "dec_arguments v r = Some r'"
  then show "action_wf r'"
    using dec_value_members_wf [of _ "case act_Arguments r of None \<Rightarrow> [] | Some m \<Rightarrow> m"]
    by (auto simp: dec_arguments_def action_wf_def split: json.splits option.splits)
qed

lemma keeps_action: "keeps action_wf (dec_struct action_fields)"
proof (rule keeps_struct)
  show "list_all (\<lambda>(k, f). keeps action_wf f) action_fields"
    using keeps_arguments by (auto simp: action_fields_def action_wf_def intro!: keeps_intros)
qed

lemma keeps_obligation:
  "keeps (\<lambda>b. utf8 (ob_Type b) \<and> utf8 (ob_Target b)) (dec_struct obligation_fields)"
  by (rule keeps_struct) (auto simp: obligation_fields_def intro!: keeps_intros)

lemma keeps_decision: "keeps decision_wf (dec_struct decision_fields)"
proof (rule keeps_struct)
  have "keeps decision_wf (dec_slice obligation_elem (\<lambda>x. dr_Obligations_update (\<lambda>_. x)))"
  proof (rule keeps_slice)
    show "utf8_json x \<Longrightarrow> obligation_elem x = Some y \<Longrightarrow> utf8 (ob_Type y) \<and> utf8 (ob_Target y)" for x y
      using keepsD [OF keeps_obligation, of x _ y] by (simp add: obligation_elem_def)
  qed (auto simp: decision_wf_def)
  then show "list_all (\<lambda>(k, f). keeps decision_wf f) decision_fields"
    by (auto simp: decision_fields_def decision_wf_def intro!: keeps_intros)
qed

lemma keeps_bundle: "keeps record_wf dec_policy_bundle"
proof (rule keepsI)
  fix v r r'
  assume a: "utf8_json v" "record_wf r" "dec_policy_bundle v r = Some r'"
  have k: "keeps (\<lambda>p. utf8 (pbr_Version p) \<and> utf8 (pbr_Digest p)) (dec_struct bundle_ref_fields)"
    by (rule keeps_struct) (auto simp: bundle_ref_fields_def intro!: keeps_intros)
  show "record_wf r'"
    using a keepsD [OF k, of v]
    by (auto simp: dec_policy_bundle_def record_wf_def bundle_wf_def split: if_splits option.splits)
qed

lemma keeps_record: "keeps record_wf (dec_struct record_fields)"
proof (rule keeps_struct)
  have "keeps record_wf (\<lambda>v r. map_option (\<lambda>s. r\<lparr>rec_Subject := s\<rparr>) (dec_struct subject_fields v (rec_Subject r)))"
    by (rule keeps_nested [OF keeps_subject]) (auto simp: record_wf_def)
  moreover have "keeps record_wf (\<lambda>v r. map_option (\<lambda>s. r\<lparr>rec_Action := s\<rparr>) (dec_struct action_fields v (rec_Action r)))"
    by (rule keeps_nested [OF keeps_action]) (auto simp: record_wf_def)
  moreover have "keeps record_wf (\<lambda>v r. map_option (\<lambda>s. r\<lparr>rec_Decision := s\<rparr>) (dec_struct decision_fields v (rec_Decision r)))"
    by (rule keeps_nested [OF keeps_decision]) (auto simp: record_wf_def)
  ultimately show "list_all (\<lambda>(k, f). keeps record_wf f) record_fields"
    using keeps_bundle by (auto simp: record_fields_def record_wf_def intro!: keeps_intros)
qed

lemma record_of_json_wf: "record_of_json v = Some r \<Longrightarrow> utf8_json v \<Longrightarrow> record_wf r"
  unfolding record_of_json_def
  by (erule keepsD [OF keeps_record])
    (simp_all add: record_wf_def zero_ActionRecord_def zero_Subject_def zero_Action_def
      zero_DecisionResponse_def subject_wf_def action_wf_def decision_wf_def bundle_wf_def
      subject_ok_def int64_ok_def)

lemma record_wf_ok: "record_wf r \<Longrightarrow> record_ok r"
  by (auto simp: record_wf_def record_ok_def subject_wf_def action_wf_def value_wf_def arguments_ok_def list_all_iff
      split: option.splits)

text \<open>The encoding of valid text is valid.\<close>

lemma utf8_subject: "subject_wf s \<Longrightarrow> utf8_json (json_of_subject s)"
  by (auto simp: json_of_subject_def subject_wf_def omit_str_def omit_strs_def list_all_iff coerce_ascii byte_in_def)

lemma utf8_value: "value_wf v \<Longrightarrow> utf8_json (json_of_value v)"
  by (auto simp: json_of_value_def value_wf_def json_of_provenance_def coerce_ascii byte_in_def)

lemma utf8_action: "action_wf a \<Longrightarrow> utf8_json (json_of_action a)"
  by (auto simp: json_of_action_def action_wf_def omit_str_def omit_strs_def list_all_iff json_of_arguments_def
      coerce_ascii byte_in_def utf8_value split: option.splits)

lemma utf8_decision: "decision_wf d \<Longrightarrow> utf8_json (json_of_decision d)"
  by (auto simp: json_of_decision_def decision_wf_def omit_str_def json_of_obligation_def list_all_iff
      coerce_ascii byte_in_def)

lemma is_digit_ascii: "list_all is_digit s \<Longrightarrow> list_all (byte_in 0 0x7F) s"
  by (auto simp: list_all_iff is_digit_iff byte_in_def)


lemma pad_ascii: "list_all (byte_in 0 0x7F) (pad w n)"
  by (rule is_digit_ascii) (rule pad_digits)

lemma list_all_dropWhile: "list_all P xs \<Longrightarrow> list_all P (dropWhile Q (rev xs))"
  by (auto simp: list_all_iff dest: set_dropWhileD)

lemma time_text_ascii: "time_text t = Some s \<Longrightarrow> list_all (byte_in 0 0x7F) s"
  by (auto simp: time_text_def Let_def frac_text_def zone_text_def pad_ascii list_all_dropWhile byte_in_def
      split: prod.splits if_splits)

lemma utf8_record: "record_wf r \<Longrightarrow> record_members r = Some ms \<Longrightarrow> utf8_json (JObj ms)"
  by (auto simp: record_members_def record_wf_def utf8_subject utf8_action utf8_decision coerce_ascii
      time_text_ascii byte_in_def bundle_wf_def json_of_bundle_ref_def split: option.splits)

lemma json_ok_subject: "json_ok (json_of_subject s)"
  by (simp add: json_of_subject_def omit_str_def omit_strs_def valid_num_show_int list_all_iff)

lemma json_ok_action: "arguments_ok (act_Arguments a) \<Longrightarrow> json_ok (json_of_action a)"
  by (auto simp: json_of_action_def omit_str_def omit_strs_def json_of_arguments_def arguments_ok_def
      json_of_value_def json_of_provenance_def list_all_iff any_ok_json_ok split: option.splits)

lemma json_ok_decision: "json_ok (json_of_decision d)"
  by (auto simp: json_of_decision_def omit_str_def json_of_obligation_def list_all_iff)

lemma json_ok_record: "record_ok r \<Longrightarrow> record_members r = Some ms \<Longrightarrow> json_ok (JObj ms)"
  by (auto simp: record_members_def record_ok_def json_ok_subject json_ok_action json_ok_decision
      json_of_bundle_ref_def split: option.splits)

end
