(* ===== verification/HD_Audit.thy ===== *)
theory HD_Audit
  imports HD_Record_Text
begin

text \<open>
  \<^verbatim>\<open>pkg/audit\<close>: the append-only, hash-chained file of action records, at the level of its bytes. The
  store's state is the hash it remembers and the content of its file (\<open>None\<close> before the file
  exists); every method holds the store's mutex, so a method is one step. \<^verbatim>\<open>crypto/sha256\<close> is the
  argument \<open>sha256\<close>. What the operating system answers is an argument too: an append can fail to
  open the file, fail after writing some of the bytes, fail to sync, or succeed.

  The abstract log is a list of sealed records. The store refines it: appends extend the list,
  the file is the concatenation of the records' lines, reading the file gives the records back,
  \<^verbatim>\<open>Verify\<close> accepts, and reopening the file recovers the remembered hash.
\<close>

section \<open>Hashing\<close>

text \<open>The only way \<^verbatim>\<open>Marshal\<close> can fail on a record is its time.\<close>

definition time_marshal_error :: error where
  "time_marshal_error = ''json: error calling MarshalJSON for type time.Time: Time.MarshalJSON: year outside of range [0,9999]''"

definition computeHash :: "(string \<Rightarrow> string) \<Rightarrow> ActionRecord \<Rightarrow> error + string" where
  "computeHash sha256 rec =
     (case record_members rec of
        None \<Rightarrow> Inl (''marshal record for hashing: '' @ time_marshal_error)
      | Some ms \<Rightarrow> Inr (hex_encode (sha256 (json_text (JObj ms)))))"

definition marshal_record :: "ActionRecord \<Rightarrow> error + string" where
  "marshal_record rec =
     (case json_of_record rec of
        None \<Rightarrow> Inl (''marshal action record: '' @ time_marshal_error)
      | Some j \<Rightarrow> Inr (json_text j))"

definition unmarshal_record :: "string \<Rightarrow> ActionRecord option" where
  "unmarshal_record line = (case parse_json line of None \<Rightarrow> None | Some j \<Rightarrow> record_of_json j)"

section \<open>The file store\<close>

record FileStore =
  fs_lastHash :: string
  fs_file :: "string option"

abbreviation newline :: char where
  "newline \<equiv> CHR 10"

abbreviation file_content :: "FileStore \<Rightarrow> string" where
  "file_content s \<equiv> (case fs_file s of None \<Rightarrow> [] | Some c \<Rightarrow> c)"

text \<open>The lines of a file, each with its newline; the last may lack one (\<^verbatim>\<open>Reader.ReadBytes\<close>).\<close>

fun file_lines :: "string \<Rightarrow> string list" where
  "file_lines [] = []"
| "file_lines (c # cs) =
     (if c = newline then [c] # file_lines cs
      else case file_lines cs of [] \<Rightarrow> [[c]] | l # ls \<Rightarrow> (c # l) # ls)"

text \<open>The token of a line in \<^verbatim>\<open>bufio.ScanLines\<close>: without the newline and a carriage return before it.\<close>

definition scan_line :: "string \<Rightarrow> string" where
  "scan_line l = trimSuffix (trimSuffix l [newline]) [CHR 13]"

definition max_token :: nat where
  "max_token = 8 * 1024 * 1024"

datatype open_io = OpenOK | MkdirFails error | OpenFails error

fun recover_tail :: "string \<Rightarrow> string \<Rightarrow> string list \<Rightarrow> error + string" where
  "recover_tail path h [] = Inr h"
| "recover_tail path h (l # ls) =
     (if max_token \<le> length (trimSuffix l [newline]) then Inl ''read audit log: bufio.Scanner: token too long''
      else if scan_line l = [] then recover_tail path h ls
      else case unmarshal_record (scan_line l) of
        None \<Rightarrow> Inl (''recover chain tail from '' @ quoteq path)
      | Some rec \<Rightarrow> recover_tail path (rec_Hash rec) ls)"

definition NewFileStore :: "open_io \<Rightarrow> string \<Rightarrow> string option \<Rightarrow> error + FileStore" where
  "NewFileStore io path file =
     (case io of
        MkdirFails e \<Rightarrow> Inl (''create audit log directory: '' @ e)
      | OpenFails e \<Rightarrow> Inl (''open audit log: '' @ e)
      | OpenOK \<Rightarrow>
          (let content = (case file of None \<Rightarrow> [] | Some c \<Rightarrow> c)
           in case recover_tail path [] (file_lines content) of
                Inl e \<Rightarrow> Inl e
              | Inr h \<Rightarrow> Inr \<lparr>fs_lastHash = h, fs_file = Some content\<rparr>))"

datatype append_io = IoOK | IoOpenFails error | IoWriteFails nat error | IoSyncFails error

definition FileStore_Append ::
  "(string \<Rightarrow> string) \<Rightarrow> append_io \<Rightarrow> ActionRecord \<Rightarrow> FileStore \<Rightarrow> error option \<times> FileStore" where
  "FileStore_Append sha256 io rec s =
     (let rec = rec\<lparr>rec_PrevHash := fs_lastHash s\<rparr>
      in case computeHash sha256 rec of
           Inl e \<Rightarrow> (Some e, s)
         | Inr hash \<Rightarrow>
             (case marshal_record (rec\<lparr>rec_Hash := hash\<rparr>) of
                Inl e \<Rightarrow> (Some e, s)
              | Inr text \<Rightarrow>
                  (let line = text @ [newline]
                   in case io of
                        IoOpenFails e \<Rightarrow> (Some (''open audit log for append: '' @ e), s)
                      | IoWriteFails n e \<Rightarrow>
                          (Some (''write action record: '' @ e), s\<lparr>fs_file := Some (file_content s @ take n line)\<rparr>)
                      | IoSyncFails e \<Rightarrow>
                          (Some (''fsync audit log: '' @ e), s\<lparr>fs_file := Some (file_content s @ line)\<rparr>)
                      | IoOK \<Rightarrow>
                          (None, \<lparr>fs_lastHash = hash, fs_file = Some (file_content s @ line)\<rparr>))))"

text \<open>
  \<^verbatim>\<open>Check\<close> opens the file for appending, which creates it, and syncs it; it writes nothing. The
  first argument is the error of the request's context, if it is done.
\<close>

definition FileStore_Check :: "error option \<Rightarrow> append_io \<Rightarrow> FileStore \<Rightarrow> error option \<times> FileStore" where
  "FileStore_Check ctxErr io s =
     (case ctxErr of
        Some e \<Rightarrow> (Some e, s)
      | None \<Rightarrow>
          (case io of
             IoOpenFails e \<Rightarrow> (Some (''open audit log for append: '' @ e), s)
           | IoSyncFails e \<Rightarrow> (Some (''fsync audit log: '' @ e), s\<lparr>fs_file := Some (file_content s)\<rparr>)
           | _ \<Rightarrow> (None, s\<lparr>fs_file := Some (file_content s)\<rparr>)))"

text \<open>\<^verbatim>\<open>Verify\<close> and the errors it reports, each with the number of its line.\<close>

datatype verify_error =
    NoFile
  | NotValidJSON nat
  | PrevHashMismatch nat string string
  | HashError nat error
  | HashMismatch nat string string

fun verify_loop :: "(string \<Rightarrow> string) \<Rightarrow> nat \<Rightarrow> string \<Rightarrow> string list \<Rightarrow> verify_error + string" where
  "verify_loop sha256 lineNum prevHash [] = Inr prevHash"
| "verify_loop sha256 lineNum prevHash (l # ls) =
     (case unmarshal_record l of
        None \<Rightarrow> Inl (NotValidJSON lineNum)
      | Some rec \<Rightarrow>
          if rec_PrevHash rec \<noteq> prevHash then Inl (PrevHashMismatch lineNum (rec_PrevHash rec) prevHash)
          else case computeHash sha256 rec of
            Inl e \<Rightarrow> Inl (HashError lineNum e)
          | Inr want \<Rightarrow>
              if rec_Hash rec \<noteq> want then Inl (HashMismatch lineNum (rec_Hash rec) want)
              else verify_loop sha256 (lineNum + 1) (rec_Hash rec) ls)"

definition FileStore_Verify :: "(string \<Rightarrow> string) \<Rightarrow> FileStore \<Rightarrow> verify_error option" where
  "FileStore_Verify sha256 s =
     (case fs_file s of
        None \<Rightarrow> Some NoFile
      | Some content \<Rightarrow>
          (case verify_loop sha256 1 [] (file_lines content) of Inl e \<Rightarrow> Some e | Inr h \<Rightarrow> None))"

section \<open>The abstract log\<close>

text \<open>Records chained from a hash on: each names its predecessor's hash and carries its own.\<close>

fun chained :: "(string \<Rightarrow> string) \<Rightarrow> string \<Rightarrow> ActionRecord list \<Rightarrow> bool" where
  "chained sha256 prev [] \<longleftrightarrow> True"
| "chained sha256 prev (r # rs) \<longleftrightarrow>
     rec_PrevHash r = prev \<and> computeHash sha256 r = Inr (rec_Hash r) \<and> chained sha256 (rec_Hash r) rs"

definition tail_hash :: "string \<Rightarrow> ActionRecord list \<Rightarrow> string" where
  "tail_hash prev rs = (if rs = [] then prev else rec_Hash (last rs))"

text \<open>The records of a file: those of all its lines, if each line holds one.\<close>

definition file_records :: "string \<Rightarrow> ActionRecord list option" where
  "file_records content = dec_elems unmarshal_record (file_lines content)"

definition record_line :: "ActionRecord \<Rightarrow> string" where
  "record_line r = (case json_of_record r of None \<Rightarrow> [] | Some j \<Rightarrow> json_text j @ [newline])"

text \<open>
  A record the store can write so that it is read back: a time in range, text in valid UTF-8,
  values in normal form and nested no deeper than a reader accepts.
\<close>

definition recordable :: "ActionRecord \<Rightarrow> bool" where
  "recordable r \<longleftrightarrow> record_ok r \<and>
     (case record_members r of
        None \<Rightarrow> False
      | Some ms \<Rightarrow> utf8_json (JObj ms) \<and> json_depth (JObj ms) \<le> max_depth)"

definition store_rep :: "(string \<Rightarrow> string) \<Rightarrow> ActionRecord list \<Rightarrow> FileStore \<Rightarrow> bool" where
  "store_rep sha256 rs s \<longleftrightarrow>
     file_content s = concat (map record_line rs) \<and> chained sha256 [] rs \<and>
     fs_lastHash s = tail_hash [] rs \<and> list_all recordable rs"

section \<open>Lemmas\<close>

lemma verify_loop_chained:
  "(\<exists>h. verify_loop sha256 n prev ls = Inr h) \<longleftrightarrow>
     (\<exists>rs. map unmarshal_record ls = map Some rs \<and> chained sha256 prev rs)"
proof (induction ls arbitrary: n prev)
  case (Cons l ls)
  show ?case
    by (auto simp: Cons map_eq_Cons_conv Cons_eq_map_conv split: option.splits sum.splits)
qed simp

lemma verify_loop_tail:
  "verify_loop sha256 n prev ls = Inr h \<Longrightarrow> map unmarshal_record ls = map Some rs \<Longrightarrow> h = tail_hash prev rs"
proof (induction ls arbitrary: n prev rs)
  case (Cons l ls)
  then obtain r rs' where rs: "rs = r # rs'" "unmarshal_record l = Some r" "map unmarshal_record ls = map Some rs'"
    by (auto simp: Cons_eq_map_conv)
  with Cons.prems(1) have "verify_loop sha256 (n + 1) (rec_Hash r) ls = Inr h"
    by (simp split: if_splits sum.splits)
  from Cons.IH [OF this rs(3)] rs(1) show ?case by (simp add: tail_hash_def)
qed (simp add: tail_hash_def)

lemma file_records_iff: "file_records c = Some rs \<longleftrightarrow> map unmarshal_record (file_lines c) = map Some rs"
  by (simp add: file_records_def dec_elems_iff)

lemma computeHash_Hash [simp]: "computeHash sha256 (r\<lparr>rec_Hash := h\<rparr>) = computeHash sha256 r"
  by (simp add: computeHash_def record_members_def)

text \<open>Hashes are ASCII text.\<close>

lemma hex2_ascii: "n < 256 \<Longrightarrow> list_all (byte_in 0 0x7F) (hex2 n)"
  by (auto simp: hex2_def byte_in_def digit_char_def)

lemma hex_encode_ascii: "list_all (byte_in 0 0x7F) (hex_encode bs)"
  by (induction bs) (use hex2_ascii in \<open>auto simp: hex_encode_def\<close>)

lemma computeHash_ascii: "computeHash sha256 r = Inr h \<Longrightarrow> list_all (byte_in 0 0x7F) h"
  using hex_encode_ascii by (auto simp: computeHash_def split: option.splits)

text \<open>Lines.\<close>

lemma file_lines_line: "newline \<notin> set l \<Longrightarrow> file_lines (l @ newline # rest) = (l @ [newline]) # file_lines rest"
  by (induction l) auto

lemma file_lines_no_newline: "newline \<notin> set l \<Longrightarrow> l \<noteq> [] \<Longrightarrow> file_lines l = [l]"
proof (induction l)
  case (Cons c l)
  then show ?case by (cases l) auto
qed simp

lemma file_lines_concat:
  "(\<And>l. l \<in> set ls \<Longrightarrow> newline \<notin> set l) \<Longrightarrow>
     file_lines (concat (map (\<lambda>l. l @ [newline]) ls)) = map (\<lambda>l. l @ [newline]) ls"
  by (induction ls) (auto simp: file_lines_line)

lemma concat_file_lines: "concat (file_lines c) = c"
  by (induction c) (auto split: list.splits)

text \<open>What a record's hash fields contribute to its encoding.\<close>

lemma record_members_prev:
  assumes "record_members r = Some ms"
  shows "\<exists>ms0. (\<forall>h. record_members (r\<lparr>rec_PrevHash := h\<rparr>) = Some (ms0 @ [(''prev_hash'', JStr h)])) \<and>
    ms = ms0 @ [(''prev_hash'', JStr (rec_PrevHash r))]"
  using assms by (fastforce simp: record_members_def)

lemma depth_snoc: "json_depth (JObj (ms @ [(k, JStr s)])) = json_depth (JObj ms)"
  by simp

lemma recordable_prev:
  assumes "recordable r" "coerce_utf8 h = h"
  shows "recordable (r\<lparr>rec_PrevHash := h\<rparr>)"
proof -
  obtain ms where ms: "record_members r = Some ms" "utf8_json (JObj ms)" "json_depth (JObj ms) \<le> max_depth"
    and ok: "record_ok r"
    using assms(1) by (auto simp: recordable_def split: option.splits)
  obtain ms0 where ms0: "\<forall>h. record_members (r\<lparr>rec_PrevHash := h\<rparr>) = Some (ms0 @ [(''prev_hash'', JStr h)])"
    "ms = ms0 @ [(''prev_hash'', JStr (rec_PrevHash r))]"
    using record_members_prev [OF ms(1)] by blast
  have "json_depth (JObj (ms0 @ [(''prev_hash'', JStr h)])) \<le> max_depth"
    using ms(3) unfolding ms0(2) depth_snoc .
  then show ?thesis
    using ms(2) ms0 ok assms(2)
    by (simp add: recordable_def record_ok_def del: json_depth.simps)
qed

lemma record_members_Hash [simp]: "record_members (r\<lparr>rec_Hash := h\<rparr>) = record_members r"
  by (simp add: record_members_def)

lemma recordable_hash [simp]: "recordable (r\<lparr>rec_Hash := h\<rparr>) = recordable r"
  by (simp add: recordable_def record_ok_def)

lemma record_text:
  assumes "recordable r" "coerce_utf8 (rec_Hash r) = rec_Hash r"
  obtains j where "json_of_record r = Some j" "json_ok j" "utf8_json j" "json_depth j \<le> max_depth"
    "record_of_json j = Some r"
proof -
  obtain ms where ms: "record_members r = Some ms" "utf8_json (JObj ms)" "json_depth (JObj ms) \<le> max_depth"
    and ok: "record_ok r"
    using assms(1) by (auto simp: recordable_def split: option.splits)
  let ?j = "JObj (ms @ [(''hash'', JStr (rec_Hash r))])"
  have j: "json_of_record r = Some ?j" by (simp add: json_of_record_def ms(1))
  show thesis
  proof (rule that [OF j])
    show "json_ok ?j" using json_ok_record [OF ok ms(1)] by simp
    show "utf8_json ?j" using ms(2) assms(2) by (simp add: coerce_ascii byte_in_def)
    show "json_depth ?j \<le> max_depth" using ms(3) unfolding depth_snoc .
    show "record_of_json ?j = Some r" by (rule record_of_json_of_record [OF ok j])
  qed
qed

lemma unmarshal_record_text:
  assumes "recordable r" "coerce_utf8 (rec_Hash r) = rec_Hash r" "json_of_record r = Some j"
  shows "unmarshal_record (json_text j @ [newline]) = Some r" "unmarshal_record (json_text j) = Some r"
    "newline \<notin> set (json_text j)" "json_text j \<noteq> [] \<and> last (json_text j) \<noteq> CHR 13"
proof -
  obtain j' where j': "json_of_record r = Some j'" "json_ok j'" "utf8_json j'" "json_depth j' \<le> max_depth"
    "record_of_json j' = Some r"
    using record_text [OF assms(1,2)] by blast
  then have "j' = j" using assms(3) by simp
  with j' show "unmarshal_record (json_text j @ [newline]) = Some r" "unmarshal_record (json_text j) = Some r"
    "newline \<notin> set (json_text j)"
    by (simp_all add: unmarshal_record_def parse_json_line parse_json_text coerce_json_id json_text_no_newline)
  show "json_text j \<noteq> [] \<and> last (json_text j) \<noteq> CHR 13"
    using assms(3) by (auto simp: json_of_record_def)
qed

lemma chained_append: "chained sha256 p (rs @ ss) \<longleftrightarrow> chained sha256 p rs \<and> chained sha256 (tail_hash p rs) ss"
  by (induction rs arbitrary: p) (auto simp: tail_hash_def)

lemma chained_snoc:
  "chained sha256 p (rs @ [r]) \<longleftrightarrow>
     chained sha256 p rs \<and> rec_PrevHash r = tail_hash p rs \<and> computeHash sha256 r = Inr (rec_Hash r)"
  by (simp add: chained_append)

lemma chained_utf8: "chained sha256 p rs \<Longrightarrow> r \<in> set rs \<Longrightarrow> coerce_utf8 (rec_Hash r) = rec_Hash r"
  by (induction rs arbitrary: p) (auto intro: coerce_ascii computeHash_ascii)

lemma record_line_text:
  assumes "recordable r" "coerce_utf8 (rec_Hash r) = rec_Hash r"
  obtains t where "record_line r = t @ [newline]" "newline \<notin> set t" "unmarshal_record t = Some r"
    "unmarshal_record (t @ [newline]) = Some r" "scan_line (t @ [newline]) = t" "t \<noteq> []"
proof -
  obtain j where j: "json_of_record r = Some j" using record_text [OF assms] by metis
  note u = unmarshal_record_text [OF assms j]
  have "scan_line (json_text j @ [newline]) = json_text j"
    using u(4) by (cases "json_text j" rule: rev_cases) (auto simp: scan_line_def trimSuffix_def hasSuffix_def)
  with u j show thesis by (intro that [of "json_text j"]) (auto simp: record_line_def)
qed

lemma store_lines:
  assumes "list_all (\<lambda>r. recordable r \<and> utf8 (rec_Hash r)) rs"
  shows "file_lines (concat (map record_line rs)) = map record_line rs"
    "map unmarshal_record (map record_line rs) = map Some rs"
proof -
  have "\<forall>r \<in> set rs. \<exists>t. record_line r = t @ [newline] \<and> newline \<notin> set t \<and> unmarshal_record (t @ [newline]) = Some r"
    using assms record_line_text unfolding list_all_iff by metis
  then obtain f where f: "\<forall>r \<in> set rs. record_line r = f r @ [newline] \<and> newline \<notin> set (f r) \<and>
      unmarshal_record (f r @ [newline]) = Some r"
    by metis
  then have m: "map record_line rs = map (\<lambda>l. l @ [newline]) (map f rs)" by simp
  show "file_lines (concat (map record_line rs)) = map record_line rs"
    unfolding m by (rule file_lines_concat) (use f in auto)
  show "map unmarshal_record (map record_line rs) = map Some rs" using f by simp
qed

lemma chained_lines:
  "chained sha256 p rs \<Longrightarrow> list_all recordable rs \<Longrightarrow> list_all (\<lambda>r. recordable r \<and> utf8 (rec_Hash r)) rs"
  using chained_utf8 by (auto simp: list_all_iff)


text \<open>The bytes that are hashed for a record.\<close>

definition hash_text :: "ActionRecord \<Rightarrow> string" where
  "hash_text r = (case record_members r of None \<Rightarrow> [] | Some ms \<Rightarrow> json_text (JObj ms))"

lemma computeHash_text: "computeHash sha256 r = Inr h \<Longrightarrow> record_members r \<noteq> None \<and> h = hex_encode (sha256 (hash_text r))"
  by (auto simp: computeHash_def hash_text_def simp del: json_text.simps split: option.splits)

text \<open>The record the store writes for a submitted one.\<close>

definition seal :: "(string \<Rightarrow> string) \<Rightarrow> string \<Rightarrow> ActionRecord \<Rightarrow> ActionRecord" where
  "seal sha256 p rec = rec\<lparr>rec_PrevHash := p, rec_Hash := hex_encode (sha256 (hash_text (rec\<lparr>rec_PrevHash := p\<rparr>)))\<rparr>"

lemma seal_ok:
  assumes "recordable rec" "utf8 p"
  shows "recordable (seal sha256 p rec)" "utf8 (rec_Hash (seal sha256 p rec))"
    "computeHash sha256 (rec\<lparr>rec_PrevHash := p\<rparr>) = Inr (rec_Hash (seal sha256 p rec))"
proof -
  have prev: "recordable (rec\<lparr>rec_PrevHash := p\<rparr>)" using assms by (rule recordable_prev)
  then show "recordable (seal sha256 p rec)" by (simp add: seal_def)
  show "utf8 (rec_Hash (seal sha256 p rec))" using hex_encode_ascii by (simp add: seal_def coerce_ascii)
  show "computeHash sha256 (rec\<lparr>rec_PrevHash := p\<rparr>) = Inr (rec_Hash (seal sha256 p rec))"
    using prev by (auto simp: seal_def recordable_def computeHash_def hash_text_def simp del: json_text.simps
        split: option.splits)
qed

lemma seal_chained:
  "recordable rec \<Longrightarrow> utf8 p \<Longrightarrow> computeHash sha256 (seal sha256 p rec) = Inr (rec_Hash (seal sha256 p rec))"
  "rec_PrevHash (seal sha256 p rec) = p"
  using seal_ok(3) [of rec p sha256] by (simp_all add: seal_def)

lemma Append_seal:
  assumes "recordable rec" "utf8 (fs_lastHash s)"
  shows "FileStore_Append sha256 io rec s =
    (let q = seal sha256 (fs_lastHash s) rec; line = record_line q
     in case io of
          IoOpenFails e \<Rightarrow> (Some (''open audit log for append: '' @ e), s)
        | IoWriteFails n e \<Rightarrow> (Some (''write action record: '' @ e), s\<lparr>fs_file := Some (file_content s @ take n line)\<rparr>)
        | IoSyncFails e \<Rightarrow> (Some (''fsync audit log: '' @ e), s\<lparr>fs_file := Some (file_content s @ line)\<rparr>)
        | IoOK \<Rightarrow> (None, \<lparr>fs_lastHash = rec_Hash q, fs_file = Some (file_content s @ line)\<rparr>))"
proof -
  note q = seal_ok [OF assms, of sha256]
  obtain j where j: "json_of_record (seal sha256 (fs_lastHash s) rec) = Some j" using record_text [OF q(1,2)] by metis
  have eq: "rec\<lparr>rec_PrevHash := fs_lastHash s, rec_Hash := rec_Hash (seal sha256 (fs_lastHash s) rec)\<rparr> =
      seal sha256 (fs_lastHash s) rec"
    by (simp add: seal_def)
  show ?thesis
    unfolding FileStore_Append_def Let_def q(3) sum.case eq
    by (cases io) (simp_all add: marshal_record_def record_line_def j)
qed

lemma tail_hash_utf8: "chained sha256 [] rs \<Longrightarrow> utf8 (tail_hash [] rs)"
  using chained_utf8 [of sha256 "[]" rs "last rs"] by (simp add: tail_hash_def coerce_ascii)

lemma store_rep_append:
  assumes rep: "store_rep sha256 rs s" and rec: "recordable rec"
  shows "\<exists>s'. FileStore_Append sha256 IoOK rec s = (None, s') \<and>
     store_rep sha256 (rs @ [seal sha256 (tail_hash [] rs) rec]) s'"
proof -
  have last: "fs_lastHash s = tail_hash [] rs" and chain: "chained sha256 [] rs"
    using rep by (auto simp: store_rep_def)
  note u = tail_hash_utf8 [OF chain]
  show ?thesis
    using Append_seal [OF rec, of s sha256 IoOK] rep u seal_ok [OF rec u, of sha256] seal_chained(1) [OF rec u, of sha256]
      seal_chained(2) [of sha256 "tail_hash [] rs" rec]
    by (auto simp: last store_rep_def chained_snoc tail_hash_def [of _ "_ @ _"] Let_def)
qed

lemma Verify_None_iff:
  "FileStore_Verify sha256 s = None \<longleftrightarrow>
     (\<exists>c rs. fs_file s = Some c \<and> file_records c = Some rs \<and> chained sha256 [] rs)"
proof -
  have "FileStore_Verify sha256 s = None \<longleftrightarrow>
      (\<exists>c. fs_file s = Some c \<and> (\<exists>h. verify_loop sha256 1 [] (file_lines c) = Inr h))"
    by (auto simp: FileStore_Verify_def split: option.splits sum.splits)
  then show ?thesis by (auto simp: verify_loop_chained file_records_iff)
qed

lemma store_rep_reads:
  assumes "store_rep sha256 rs s" "fs_file s = Some c"
  shows "file_records c = Some rs" "FileStore_Verify sha256 s = None"
proof -
  have c: "c = concat (map record_line rs)" and chain: "chained sha256 [] rs" and ok: "list_all recordable rs"
    using assms by (auto simp: store_rep_def)
  note l = store_lines [OF chained_lines [OF chain ok]]
  show "file_records c = Some rs" unfolding file_records_iff c l(1) by (rule l(2))
  have "\<exists>h. verify_loop sha256 1 [] (file_lines c) = Inr h"
    unfolding verify_loop_chained c l(1) using l(2) chain by blast
  then show "FileStore_Verify sha256 s = None"
    using assms(2) by (auto simp: FileStore_Verify_def)
qed

text \<open>Equal hashes mean equal records, or a collision.\<close>

lemma hex_encode_inj: "hex_encode a = hex_encode b \<Longrightarrow> a = b"
proof (induction a arbitrary: b)
  case Nil
  then show ?case by (cases b) (auto simp: hex_encode_def hex2_def)
next
  case (Cons x a)
  then obtain y b' where b: "b = y # b'" by (cases b) (auto simp: hex_encode_def hex2_def)
  have eq: "digit_char (n div 16 mod 16) = digit_char (m div 16 mod 16) \<Longrightarrow>
      digit_char (n mod 16) = digit_char (m mod 16) \<Longrightarrow> n < 256 \<Longrightarrow> m < 256 \<Longrightarrow> n = m" for n m
  proof -
    assume d: "digit_char (n div 16 mod 16) = digit_char (m div 16 mod 16)" "digit_char (n mod 16) = digit_char (m mod 16)"
      and lt: "n < 256" "m < 256"
    have inj: "x = y" if "digit_char x = digit_char y" "x < 16" "y < 16" for x y
      using that hex_digit_char by (metis option.inject)
    have "n div 16 = m div 16" using inj [OF d(1)] lt by simp
    moreover have "n mod 16 = m mod 16" using inj [OF d(2)] by simp
    ultimately show ?thesis by (metis div_mult_mod_eq)
  qed
  have split: "hex_encode (z # w) = hex2 (of_char z) @ hex_encode w" for z w by (simp add: hex_encode_def)
  have "hex2 (of_char x) = hex2 (of_char y)" "hex_encode a = hex_encode b'"
    using Cons.prems by (simp_all add: b split hex2_def)
  then have "(of_char x :: nat) = of_char y"
    by (intro eq) (simp_all add: hex2_def)
  with Cons.IH [OF \<open>hex_encode a = hex_encode b'\<close>] b show ?case by simp
qed

lemma record_members_inj:
  assumes "record_wf r" "record_wf q" "record_members r = Some ms" "record_members q = Some ms" "rec_Hash r = rec_Hash q"
  shows "r = q"
proof -
  have "json_of_record r = json_of_record q" "json_of_record r \<noteq> None"
    using assms by (simp_all add: json_of_record_def)
  then show ?thesis
    using record_of_json_of_record [OF record_wf_ok [OF assms(1)]]
      record_of_json_of_record [OF record_wf_ok [OF assms(2)]] by (metis not_None_eq option.inject)
qed

lemma hash_text_inj:
  assumes "record_wf r" "record_wf q" "record_members r \<noteq> None" "record_members q \<noteq> None"
    and "hash_text r = hash_text q" "rec_Hash r = rec_Hash q"
  shows "r = q"
proof -
  obtain ms ns where ms: "record_members r = Some ms" "record_members q = Some ns" using assms(3,4) by auto
  with assms(5) have "json_text (JObj ms) = json_text (JObj ns)"
    by (simp add: hash_text_def del: json_text.simps)
  then have "coerce_json (JObj ms) = coerce_json (JObj ns)"
    by (intro json_text_inj json_ok_record [OF record_wf_ok [OF assms(1)] ms(1)]
        json_ok_record [OF record_wf_ok [OF assms(2)] ms(2)])
  moreover have "coerce_json (JObj ms) = JObj ms" "coerce_json (JObj ns) = JObj ns"
    using utf8_record [OF assms(1) ms(1)] utf8_record [OF assms(2) ms(2)] by (blast intro: coerce_json_id)+
  ultimately have "ms = ns" by simp
  with record_members_inj [OF assms(1,2)] ms assms(6) show ?thesis by simp
qed

lemma chained_hash_not_Nil:
  assumes "chained sha256 p rs" "\<And>x. sha256 x \<noteq> []" "rs \<noteq> []"
  shows "tail_hash q rs \<noteq> []"
proof -
  have "hex_encode bs \<noteq> []" if "bs \<noteq> []" for bs
    using that by (cases bs) (auto simp: hex_encode_def hex2_def)
  moreover obtain xs r where "rs = xs @ [r]" using assms(3) by (cases rs rule: rev_cases) auto
  moreover from this have "rec_Hash r = hex_encode (sha256 (hash_text r))"
    using assms(1) computeHash_text by (auto simp: chained_snoc)
  ultimately show ?thesis using assms(2) by (simp add: tail_hash_def)
qed

lemma chained_unique:
  assumes "chained sha256 [] rs" "chained sha256 [] qs" "tail_hash [] rs = tail_hash [] qs"
    and "list_all record_wf rs" "list_all record_wf qs"
    and ne: "\<And>x. sha256 x \<noteq> []" and inj: "inj_on sha256 (hash_text ` (set rs \<union> set qs))"
  shows "rs = qs"
  using assms
proof (induction rs arbitrary: qs rule: rev_induct)
  case Nil
  have "qs = []" using chained_hash_not_Nil [OF Nil(2) ne, of "[]"] Nil(3) by (cases "qs = []") (auto simp: tail_hash_def)
  then show ?case by simp
next
  case (snoc r rs)
  obtain ys q where qs: "qs = ys @ [q]"
    using chained_hash_not_Nil [OF snoc.prems(1) ne, of "[]"] snoc.prems(3)
    by (cases qs rule: rev_cases) (auto simp: tail_hash_def)
  have hash: "rec_Hash r = rec_Hash q" using snoc.prems(3) by (simp add: qs tail_hash_def)
  have h: "computeHash sha256 r = Inr (rec_Hash r)" "computeHash sha256 q = Inr (rec_Hash q)"
    using snoc.prems(1,2) by (auto simp: qs chained_snoc)
  from h computeHash_text hash have "sha256 (hash_text r) = sha256 (hash_text q)"
    by (metis hex_encode_inj)
  then have "hash_text r = hash_text q"
    by (rule inj_onD [OF snoc.prems(7)]) (auto simp: qs)
  then have "r = q"
    using snoc.prems(4,5) h hash computeHash_text by (intro hash_text_inj) (auto simp: qs)
  moreover have "rs = ys"
  proof (rule snoc.IH)
    show "tail_hash [] rs = tail_hash [] ys"
      using snoc.prems(1,2) \<open>r = q\<close> by (auto simp: qs chained_snoc)
    show "inj_on sha256 (hash_text ` (set rs \<union> set ys))"
      using snoc.prems(7) by (rule inj_on_subset) (auto simp: qs)
  qed (use snoc.prems in \<open>auto simp: qs chained_snoc\<close>)
  ultimately show ?case by (simp add: qs)
qed

lemma file_records_wf: "file_records c = Some rs \<Longrightarrow> list_all record_wf rs"
  unfolding file_records_def
  by (erule dec_elems_all) (auto simp: unmarshal_record_def split: option.splits dest: parse_json_utf8 record_of_json_wf)

text \<open>A prefix of lines.\<close>

lemma file_lines_take: "file_lines (concat (take k (file_lines c))) = take k (file_lines c)"
proof (induction c arbitrary: k)
  case (Cons x c)
  show ?case
  proof (cases k)
    case (Suc j)
    show ?thesis
    proof (cases "x = newline \<or> file_lines c = []")
      case True
      then show ?thesis using Cons [of j] Suc by auto
    next
      case False
      then obtain l ls where l: "file_lines c = l # ls" by (cases "file_lines c") auto
      have "file_lines (l @ concat (take j ls)) = l # take j ls" using Cons [of "Suc j"] by (simp add: l)
      with False show ?thesis by (simp add: Suc l)
    qed
  qed simp
qed simp

text \<open>Records nested too deep.\<close>

lemma recover_unreadable:
  "l \<in> set ls \<Longrightarrow> scan_line l \<noteq> [] \<Longrightarrow> unmarshal_record (scan_line l) = None \<Longrightarrow> \<exists>e. recover_tail path h ls = Inl e"
  by (induction ls arbitrary: h) (auto split: option.splits)

lemma verify_unreadable: "l \<in> set ls \<Longrightarrow> unmarshal_record l = None \<Longrightarrow> \<exists>e. verify_loop sha256 n h ls = Inl e"
  by (induction ls arbitrary: n h) (auto split: option.splits sum.splits)

lemma record_text_too_deep:
  assumes "record_ok r" "record_members r = Some ms" "max_depth < json_depth (JObj ms)" "json_of_record r = Some j"
  shows "unmarshal_record (json_text j) = None" "unmarshal_record (json_text j @ [newline]) = None" "newline \<notin> set (json_text j)"
    "json_text j \<noteq> [] \<and> last (json_text j) \<noteq> CHR 13"
proof -
  have j: "j = JObj (ms @ [(''hash'', JStr (rec_Hash r))])" using assms(2,4) by (simp add: json_of_record_def)
  have "json_ok j" using json_ok_record [OF assms(1,2)] by (simp add: j)
  moreover have "max_depth < json_depth j" using assms(3) unfolding j depth_snoc .
  ultimately show "unmarshal_record (json_text j) = None" "unmarshal_record (json_text j @ [newline]) = None" "newline \<notin> set (json_text j)"
    by (simp_all add: unmarshal_record_def parse_json_too_deep json_text_no_newline)
  show "json_text j \<noteq> [] \<and> last (json_text j) \<noteq> CHR 13" by (auto simp: j)
qed

lemma file_lines_append:
  "c = [] \<or> last c = newline \<Longrightarrow> file_lines (c @ x) = file_lines c @ file_lines x"
proof (induction c)
  case (Cons a c)
  show ?case
  proof (cases "c = []")
    case False
    with Cons have "file_lines (c @ x) = file_lines c @ file_lines x" by simp
    moreover have "file_lines c \<noteq> []" using False concat_file_lines [of c] by auto
    ultimately show ?thesis by (auto split: list.splits)
  qed (use Cons in simp)
qed simp

lemma store_rep_ends: "store_rep sha256 rs s \<Longrightarrow> file_content s = [] \<or> last (file_content s) = newline"
  by (induction rs rule: rev_induct)
    (auto simp: store_rep_def record_line_def recordable_def json_of_record_def split: option.splits)

section \<open>Properties\<close>

text \<open>C11. \<^verbatim>\<open>Verify\<close> accepts exactly the intact logs: the file exists, every line is a record, the first
  record names no predecessor, every other one names the hash of the record before it, and
  every record carries the hash of its own contents.\<close>

theorem Verify_iff_chained:
  "FileStore_Verify sha256 s = None \<longleftrightarrow>
     (\<exists>c rs. fs_file s = Some c \<and> file_records c = Some rs \<and> chained sha256 [] rs)"
  by (rule Verify_None_iff)





definition example_record :: ActionRecord where
  "example_record = zero_ActionRecord\<lparr>rec_Action := zero_Action\<lparr>act_Tool := ''pay''\<rparr>\<rparr>"

definition example_sha :: "string \<Rightarrow> string" where
  "example_sha x = replicate 32 (CHR ''h'')"

lemma example_time: "time_text time_zero = Some ''0001-01-01T00:00:00Z''"
  by code_simp

lemma example_recordable: "recordable example_record"
  by (simp add: recordable_def record_ok_def example_record_def zero_ActionRecord_def zero_Subject_def
      zero_Action_def zero_DecisionResponse_def subject_ok_def int64_ok_def arguments_ok_def record_members_def
      example_time json_of_subject_def json_of_action_def json_of_decision_def json_of_arguments_def
      omit_str_def omit_strs_def coerce_ascii byte_in_def max_depth_def)


text \<open>C12. Tamper evidence: as long as the hash function has no collision among the contents of the two
  logs, a file that passes \<^verbatim>\<open>Verify\<close> and ends in a given hash holds one possible list of records.
  Editing, inserting, removing or reordering records anywhere before the end changes the hash
  of the last record or is refused by \<^verbatim>\<open>Verify\<close>.\<close>

theorem Verify_tamper_evident:
  assumes "FileStore_Verify sha256 s = None" "FileStore_Verify sha256 t = None"
    and "fs_file s = Some c" "fs_file t = Some d" "file_records c = Some rs" "file_records d = Some qs"
    and "tail_hash [] rs = tail_hash [] qs"
    and "\<And>x. length (sha256 x) = 32" and "inj_on sha256 (hash_text ` (set rs \<union> set qs))"
  shows "rs = qs"
proof -
  have "chained sha256 [] rs" "chained sha256 [] qs"
    using assms(1-6) by (auto simp: Verify_None_iff)
  moreover have "sha256 x \<noteq> []" for x using assms(8) [of x] by auto
  ultimately show ?thesis
    using assms(7,9) file_records_wf [OF assms(5)] file_records_wf [OF assms(6)] by (intro chained_unique) auto
qed

definition example_store :: FileStore where
  "example_store = snd (FileStore_Append example_sha IoOK example_record \<lparr>fs_lastHash = [], fs_file = Some []\<rparr>)"

lemma example_store_reads:
  "\<exists>c rs. fs_file example_store = Some c \<and> file_records c = Some rs \<and>
     FileStore_Verify example_sha example_store = None \<and> length rs = 1"
proof -
  have "store_rep example_sha [] \<lparr>fs_lastHash = [], fs_file = Some []\<rparr>" by (simp add: store_rep_def tail_hash_def)
  from store_rep_append [OF this example_recordable] have
    rep: "store_rep example_sha [seal example_sha [] example_record] example_store"
    by (auto simp: example_store_def tail_hash_def)
  moreover have "fs_file example_store \<noteq> None"
    using Append_seal [OF example_recordable, of "\<lparr>fs_lastHash = [], fs_file = Some []\<rparr>" example_sha IoOK]
    by (simp add: example_store_def Let_def)
  ultimately show ?thesis using store_rep_reads [OF rep] by fastforce
qed

theorem Verify_tamper_evident_witness:
  "\<exists>c rs. fs_file example_store = Some c \<and> FileStore_Verify example_sha example_store = None \<and>
     file_records c = Some rs \<and> (\<forall>qs. file_records c = Some qs \<longrightarrow> rs = qs) \<and> length rs = 1"
proof -
  obtain c rs where c: "fs_file example_store = Some c" "file_records c = Some rs"
    "FileStore_Verify example_sha example_store = None" "length rs = 1"
    using example_store_reads by blast
  have "rs = qs" if q: "file_records c = Some qs" for qs
  proof (rule Verify_tamper_evident [OF c(3,3,1,1,2) q])
    show "tail_hash [] rs = tail_hash [] qs" using c(2) q by simp
    show "length (example_sha x) = 32" for x by (simp add: example_sha_def)
    show "inj_on example_sha (hash_text ` (set rs \<union> set qs))"
      using c(2,4) q by (auto simp: length_Suc_conv inj_on_def)
  qed
  with c show ?thesis by blast
qed

text \<open>Deleting records from the end is not detected: every file that passes \<^verbatim>\<open>Verify\<close> still passes after
  any number of its last lines have been removed. Without a copy of the last hash kept
  elsewhere, recent records can be dropped unnoticed.\<close>

lemma Verify_accepts_truncation:
  assumes "FileStore_Verify sha256 s = None" and "fs_file s = Some c"
  shows "FileStore_Verify sha256 (s\<lparr>fs_file := Some (concat (take k (file_lines c)))\<rparr>) = None"
proof -
  obtain rs where rs: "map unmarshal_record (file_lines c) = map Some rs" "chained sha256 [] rs"
    using assms by (auto simp: Verify_None_iff file_records_iff)
  have "file_records (concat (take k (file_lines c))) = Some (take k rs)"
    using rs(1) by (simp add: file_records_iff file_lines_take take_map [symmetric])
  moreover have "chained sha256 [] (take k rs)"
    using rs(2) chained_append [of sha256 "[]" "take k rs" "drop k rs"] by simp
  ultimately show ?thesis by (auto simp: Verify_None_iff)
qed

text \<open>C38. An append that fails after its line was written leaves the store unable to continue the chain:
  the line is in the file but the remembered hash is the old one, so the next successful append
  names the wrong predecessor and the file no longer passes \<^verbatim>\<open>Verify\<close>.\<close>

theorem Append_after_sync_failure:
  assumes rep: "store_rep sha256 rs s" and rec: "recordable r1" "recordable r2"
    and hash: "rec_Hash (seal sha256 (tail_hash [] rs) r1) \<noteq> tail_hash [] rs"
  shows "\<exists>e. fst (FileStore_Append sha256 (IoSyncFails io) r1 s) = Some e \<and>
    fst (FileStore_Append sha256 IoOK r2 (snd (FileStore_Append sha256 (IoSyncFails io) r1 s))) = None \<and>
    FileStore_Verify sha256 (snd (FileStore_Append sha256 IoOK r2 (snd (FileStore_Append sha256 (IoSyncFails io) r1 s)))) \<noteq> None"
proof -
  define p where "p = tail_hash [] rs"
  define q1 q2 where "q1 = seal sha256 p r1" and "q2 = seal sha256 p r2"
  have last: "fs_lastHash s = p" and chain: "chained sha256 [] rs" and ok: "list_all recordable rs"
    and content: "file_content s = concat (map record_line rs)"
    using rep by (auto simp: store_rep_def p_def)
  have u: "utf8 p" unfolding p_def by (rule tail_hash_utf8 [OF chain])
  define s1 where "s1 = snd (FileStore_Append sha256 (IoSyncFails io) r1 s)"
  have a1: "fst (FileStore_Append sha256 (IoSyncFails io) r1 s) \<noteq> None"
    and s1: "s1 = s\<lparr>fs_file := Some (file_content s @ record_line q1)\<rparr>"
    using Append_seal [OF rec(1), of s sha256 "IoSyncFails io"] u by (auto simp: s1_def last q1_def Let_def)
  have a2: "FileStore_Append sha256 IoOK r2 s1 =
      (None, \<lparr>fs_lastHash = rec_Hash q2, fs_file = Some (file_content s @ record_line q1 @ record_line q2)\<rparr>)"
    using Append_seal [OF rec(2), of s1 sha256 IoOK] u by (simp add: s1 last q2_def Let_def)
  let ?c = "concat (map record_line (rs @ [q1, q2]))"
  have lines: "list_all (\<lambda>r. recordable r \<and> utf8 (rec_Hash r)) (rs @ [q1, q2])"
    using chained_lines [OF chain ok] seal_ok [OF rec(1) u, of sha256] seal_ok [OF rec(2) u, of sha256]
    by (simp add: q1_def q2_def)
  have records: "file_records ?c = Some (rs @ [q1, q2])"
    unfolding file_records_iff store_lines(1) [OF lines] by (rule store_lines(2) [OF lines])
  have "\<not> chained sha256 [] (rs @ [q1, q2])"
    using hash by (auto simp: chained_append q1_def q2_def p_def [symmetric] seal_chained(2))
  with records have "FileStore_Verify sha256 \<lparr>fs_lastHash = h, fs_file = Some ?c\<rparr> \<noteq> None" for h
    by (simp only: Verify_None_iff) auto
  with a1 a2 content show ?thesis
    by (auto simp: s1_def [symmetric])
qed

theorem Append_after_sync_failure_witness:
  "FileStore_Verify example_sha (snd (FileStore_Append example_sha IoOK example_record
     (snd (FileStore_Append example_sha (IoSyncFails ''EIO'') example_record \<lparr>fs_lastHash = [], fs_file = Some []\<rparr>)))) \<noteq> None"
proof -
  have "store_rep example_sha [] \<lparr>fs_lastHash = [], fs_file = Some []\<rparr>" by (simp add: store_rep_def tail_hash_def)
  moreover have "rec_Hash (seal example_sha (tail_hash [] []) example_record) \<noteq> tail_hash [] []"
    by (simp add: seal_def tail_hash_def example_sha_def hex_encode_def hex2_def)
  ultimately show ?thesis
    using Append_after_sync_failure [OF _ example_recordable example_recordable] by metis
qed

text \<open>C39. A record nested deeper than a reader accepts makes the log unreadable: \<^verbatim>\<open>Append\<close> writes it and reports success, but from then
  on \<^verbatim>\<open>Verify\<close> refuses the log, and a gateway that is restarted cannot open it. One level of the record is the wrapping of an
  argument's value, so a call whose own request was nested within the limit can have such a record, and it is written
  even if the call is denied.\<close>

theorem Append_too_deep:
  assumes "record_ok rec" "record_members rec = Some ms" "max_depth < json_depth (JObj ms)"
    and "store_rep sha256 rs s"
  shows "\<exists>s'. FileStore_Append sha256 IoOK rec s = (None, s') \<and> FileStore_Verify sha256 s' \<noteq> None \<and>
    (\<forall>path. \<exists>e. NewFileStore OpenOK path (fs_file s') = Inl e)"
proof -
  obtain ms0 where ms0: "\<forall>h. record_members (rec\<lparr>rec_PrevHash := h\<rparr>) = Some (ms0 @ [(''prev_hash'', JStr h)])"
    "ms = ms0 @ [(''prev_hash'', JStr (rec_PrevHash rec))]"
    using record_members_prev [OF assms(2)] by blast
  define h where "h = hex_encode (sha256 (json_text (JObj (ms0 @ [(''prev_hash'', JStr (fs_lastHash s))]))))"
  define r where "r = rec\<lparr>rec_PrevHash := fs_lastHash s, rec_Hash := h\<rparr>"
  define j where "j = JObj ((ms0 @ [(''prev_hash'', JStr (fs_lastHash s))]) @ [(''hash'', JStr h)])"
  have r: "record_ok r" using assms(1) by (simp add: r_def record_ok_def)
  have rm: "record_members r = Some (ms0 @ [(''prev_hash'', JStr (fs_lastHash s))])" using ms0(1) by (simp add: r_def)
  have deep: "max_depth < json_depth (JObj (ms0 @ [(''prev_hash'', JStr (fs_lastHash s))]))"
    using assms(3) unfolding ms0(2) depth_snoc .
  have j: "json_of_record r = Some j" by (simp add: json_of_record_def rm j_def) (simp add: r_def)
  note t = record_text_too_deep [OF r rm deep j]
  define s' where "s' = \<lparr>fs_lastHash = h, fs_file = Some (file_content s @ json_text j @ [newline])\<rparr>"
  have "FileStore_Append sha256 IoOK rec s = (None, s')"
    using j by (simp add: FileStore_Append_def Let_def computeHash_def ms0(1) marshal_record_def h_def [symmetric] r_def [symmetric] s'_def
        del: json_text.simps)
  moreover from t(1,2,4) have unread: "unmarshal_record (json_text j @ [newline]) = None"
    "unmarshal_record (scan_line (json_text j @ [newline])) = None" "scan_line (json_text j @ [newline]) \<noteq> []"
    by (cases "json_text j" rule: rev_cases; simp add: scan_line_def trimSuffix_def hasSuffix_def del: json_text.simps)+
  have line: "json_text j @ [newline] \<in> set (file_lines (file_content s @ json_text j @ [newline]))"
    using file_lines_append [OF store_rep_ends [OF assms(4)], of "json_text j @ [newline]"] file_lines_line [OF t(3), of "[]"] by simp
  obtain e where "verify_loop sha256 1 [] (file_lines (file_content s @ json_text j @ [newline])) = Inl e"
    using verify_unreadable [OF line unread(1)] by blast
  then have "FileStore_Verify sha256 s' \<noteq> None" by (simp add: FileStore_Verify_def s'_def del: json_text.simps)
  moreover have "\<exists>e. NewFileStore OpenOK path (fs_file s') = Inl e" for path
  proof -
    obtain e where "recover_tail path [] (file_lines (file_content s @ json_text j @ [newline])) = Inl e"
      using recover_unreadable [OF line unread(3,2)] by blast
    then show ?thesis by (simp add: NewFileStore_def s'_def Let_def del: json_text.simps)
  qed
  ultimately show ?thesis by blast
qed

text \<open>An argument at the limit: the request it came in is read, its record is not.\<close>

fun nested :: "nat \<Rightarrow> json" where
  "nested 0 = JNull"
| "nested (Suc n) = JArr [nested n]"

lemma nested_ok [simp]: "json_depth (nested n) = n" "any_ok (nested n)" "json_ok (nested n)"
  by (induction n) simp_all

definition example_deep :: ActionRecord where
  "example_deep = zero_ActionRecord\<lparr>rec_Action := zero_Action\<lparr>act_Tool := ''pay'',
     act_Arguments := Some [(''x'', \<lparr>val_Data = nested (max_depth - 3), val_Provenance = \<lparr>prov_Source = [], prov_Trusted = False\<rparr>\<rparr>)]\<rparr>\<rparr>"

theorem Append_too_deep_witness:
  "json_depth (JObj [(''params'', JObj [(''arguments'', JObj [(''x'', nested (max_depth - 3))])])]) = max_depth \<and>
   (\<exists>s'. FileStore_Append example_sha IoOK example_deep \<lparr>fs_lastHash = [], fs_file = Some []\<rparr> = (None, s') \<and>
      FileStore_Verify example_sha s' \<noteq> None \<and> (\<forall>path. \<exists>e. NewFileStore OpenOK path (fs_file s') = Inl e))"
proof (rule conjI)
  show "json_depth (JObj [(''params'', JObj [(''arguments'', JObj [(''x'', nested (max_depth - 3))])])]) = max_depth"
    by (simp add: max_depth_def)
  have ok: "record_ok example_deep"
    by (simp add: record_ok_def example_deep_def zero_ActionRecord_def zero_Subject_def zero_Action_def zero_DecisionResponse_def
        subject_ok_def int64_ok_def arguments_ok_def gm_ok_def example_time)
  obtain ms where ms: "record_members example_deep = Some ms" "max_depth < json_depth (JObj ms)"
    by (simp add: record_members_def example_deep_def zero_ActionRecord_def zero_Subject_def zero_Action_def zero_DecisionResponse_def
        example_time json_of_subject_def json_of_action_def json_of_decision_def json_of_arguments_def json_of_value_def json_of_provenance_def
        omit_str_def omit_strs_def gm_map_def max_depth_def)
  have rep: "store_rep example_sha [] \<lparr>fs_lastHash = [], fs_file = Some []\<rparr>" by (simp add: store_rep_def tail_hash_def)
  show "\<exists>s'. FileStore_Append example_sha IoOK example_deep \<lparr>fs_lastHash = [], fs_file = Some []\<rparr> = (None, s') \<and>
      FileStore_Verify example_sha s' \<noteq> None \<and> (\<forall>path. \<exists>e. NewFileStore OpenOK path (fs_file s') = Inl e)"
    by (rule Append_too_deep [OF ok ms rep])
qed

end
