(* ===== verification/HD_Identity.thy ===== *)
theory HD_Identity
  imports HD_Types Go_Json_Text
begin

text \<open>
  Who is calling: the two implementations of \<^verbatim>\<open>identity.Resolver\<close> (\<^verbatim>\<open>StaticTokenResolver\<close> of
  \<^verbatim>\<open>internal/gateway/identity.go\<close> and \<^verbatim>\<open>JWTResolver\<close> of \<^verbatim>\<open>pkg/identity/jwt.go\<close>), the credential broker of
  \<^verbatim>\<open>pkg/identity/broker.go\<close>, and the development issuer of \<^verbatim>\<open>internal/devissuer/devissuer.go\<close> that both
  rely on in a test deployment.

  The JWT library is not part of the repository: parsing and signing are the arguments \<open>jwt_parse\<close>
  and \<open>jwt_sign\<close>, and \<open>jwt_library\<close> states what the library documents of them. The HTTP client is the
  argument \<open>http_post\<close>.

  The locale \<open>resolver\<close> is the contract the gateway relies on.
\<close>

section \<open>The static token resolver\<close>

record StaticIdentity =
  si_ID :: string
  si_Kind :: string
  si_TrustLevel :: int
  si_Scopes :: "string list"
  si_AgentVersion :: string

record StaticTokenResolver =
  str_tokens :: "string \<rightharpoonup> Subject"

definition NewStaticTokenResolver :: "(string \<rightharpoonup> StaticIdentity) \<Rightarrow> StaticTokenResolver" where
  "NewStaticTokenResolver tokens =
     \<lparr>str_tokens = (\<lambda>token. map_option (\<lambda>i.
        zero_Subject\<lparr>sub_ID := si_ID i, sub_Kind := si_Kind i, sub_TrustLevel := si_TrustLevel i,
          sub_Scopes := si_Scopes i, sub_AgentVersion := si_AgentVersion i\<rparr>) (tokens token))\<rparr>"

definition StaticTokenResolver_Resolve :: "StaticTokenResolver \<Rightarrow> string \<Rightarrow> error + Subject" where
  "StaticTokenResolver_Resolve r credential =
     (if credential = [] then Inl ''no credential presented''
      else case str_tokens r credential of
        None \<Rightarrow> Inl ''credential not recognized''
      | Some subj \<Rightarrow> Inr subj)"

section \<open>Tokens\<close>

text \<open>A parsed JSON Web Token: the registered claims the sources use, and the others by name.\<close>

record Token =
  tok_Subject :: string
  tok_Audience :: "string list"
  tok_IssuedAt :: gotime
  tok_Expiration :: gotime
  tok_Claims :: "string \<rightharpoonup> json"

text \<open>\<^verbatim>\<open>Token.Get\<close> into a \<^verbatim>\<open>string\<close> and into a \<^verbatim>\<open>[]string\<close>; \<open>None\<close> is an error.\<close>

definition get_string :: "Token \<Rightarrow> string \<Rightarrow> string option" where
  "get_string tok k = (case tok_Claims tok k of Some (JStr s) \<Rightarrow> Some s | _ \<Rightarrow> None)"

definition get_strings :: "Token \<Rightarrow> string \<Rightarrow> string list option" where
  "get_strings tok k =
     (case tok_Claims tok k of
        Some JNull \<Rightarrow> Some []
      | Some (JArr xs) \<Rightarrow> dec_elems str_elem xs
      | _ \<Rightarrow> None)"

text \<open>\<^verbatim>\<open>jwt.Parse\<close> with a key set, the audience to validate and the current time.\<close>

type_synonym 'keys jwt_parse = "'keys \<Rightarrow> string \<Rightarrow> gotime \<Rightarrow> string \<Rightarrow> error + Token"
type_synonym 'key jwt_sign = "'key \<Rightarrow> Token \<Rightarrow> error + string"

section \<open>The JWT resolver\<close>

record 'keys JWTResolver =
  jr_keySet :: 'keys
  jr_audience :: string

definition NewJWTResolver :: "'keys \<Rightarrow> string \<Rightarrow> 'keys JWTResolver" where
  "NewJWTResolver keySet aud = \<lparr>jr_keySet = keySet, jr_audience = aud\<rparr>"

definition JWTResolver_Resolve :: "'keys jwt_parse \<Rightarrow> 'keys JWTResolver \<Rightarrow> gotime \<Rightarrow> string \<Rightarrow> error + Subject" where
  "JWTResolver_Resolve jwt_parse r now credential =
     (if credential = [] then Inl ''no credential presented''
      else case jwt_parse (jr_keySet r) (jr_audience r) now credential of
        Inl err \<Rightarrow> Inl (''credential invalid: '' @ err)
      | Inr tok \<Rightarrow>
          (case get_string tok ''agent'' of
             None \<Rightarrow> Inl ''credential missing required 'agent' claim''
           | Some agentID \<Rightarrow>
               if agentID = [] then Inl ''credential missing required 'agent' claim''
               else Inr (zero_Subject\<lparr>
                 sub_ID := agentID, sub_Kind := SubjectKindAgent,
                 sub_DelegationChain := (case get_strings tok ''delegation_chain'' of None \<Rightarrow> [] | Some c \<Rightarrow> c),
                 sub_Scopes := (case get_strings tok ''scope'' of None \<Rightarrow> [] | Some c \<Rightarrow> c),
                 sub_AgentVersion := (case get_string tok ''agent_version'' of None \<Rightarrow> [] | Some v \<Rightarrow> v)\<rparr>)))"

section \<open>The credential broker\<close>

datatype http_result = BadRequest error | CallFailed error | Response int string

record HTTPCredentialBroker =
  hb_endpoint :: string

definition NewHTTPCredentialBroker :: "string \<Rightarrow> HTTPCredentialBroker" where
  "NewHTTPCredentialBroker endpoint = \<lparr>hb_endpoint = endpoint\<rparr>"

record exchangeResponse =
  er_AccessToken :: string
  er_Error :: string
  er_ErrorDesc :: string

definition exchange_fields :: "exchangeResponse field list" where
  "exchange_fields =
     [(''access_token'', dec_str (\<lambda>x. er_AccessToken_update (\<lambda>_. x))),
      (''error'', dec_str (\<lambda>x. er_Error_update (\<lambda>_. x))),
      (''error_description'', dec_str (\<lambda>x. er_ErrorDesc_update (\<lambda>_. x)))]"

definition exchange_response :: "string \<Rightarrow> exchangeResponse option" where
  "exchange_response body =
     (case first_json body of
        None \<Rightarrow> None
      | Some v \<Rightarrow> dec_struct exchange_fields v \<lparr>er_AccessToken = [], er_Error = [], er_ErrorDesc = []\<rparr>)"

definition exchange_form :: "string \<Rightarrow> string \<Rightarrow> string \<Rightarrow> (string \<times> string) list" where
  "exchange_form subjectCredential upstream tool =
     [(''grant_type'', ''urn:ietf:params:oauth:grant-type:token-exchange''),
      (''subject_token'', subjectCredential), (''resource'', upstream), (''tool'', tool)]"

text \<open>The broker posts the form and reads the answer; \<open>http_post\<close> is the HTTP client.\<close>

definition HTTPCredentialBroker_Exchange ::
  "(string \<Rightarrow> (string \<times> string) list \<Rightarrow> http_result) \<Rightarrow> HTTPCredentialBroker \<Rightarrow> string \<Rightarrow> string \<Rightarrow> string \<Rightarrow> error + string"
where
  "HTTPCredentialBroker_Exchange http_post b subjectCredential upstream tool =
     (case http_post (hb_endpoint b) (exchange_form subjectCredential upstream tool) of
        BadRequest err \<Rightarrow> Inl (''build token-exchange request: '' @ err)
      | CallFailed err \<Rightarrow> Inl (''call token-exchange endpoint: '' @ err)
      | Response status body \<Rightarrow>
          (case exchange_response body of
             None \<Rightarrow> Inl (''decode token-exchange response (HTTP '' @ show_int status @ '')'')
           | Some out \<Rightarrow>
               if er_Error out \<noteq> [] then Inl (''token exchange denied: '' @ er_Error out @ '': '' @ er_ErrorDesc out)
               else if er_AccessToken out = [] then
                 Inl (''token-exchange response had no access_token (HTTP '' @ show_int status @ '')'')
               else Inr (er_AccessToken out)))"

section \<open>The development issuer\<close>

record ('key, 'keys) Issuer =
  is_private :: 'key
  is_public :: 'keys
  is_audience :: string

text \<open>\<open>randomHex\<close> fills the instance identifier from the system's randomness, the argument \<open>rand\<close>.\<close>

definition SIT_token :: "('key, 'keys) Issuer \<Rightarrow> string \<Rightarrow> string \<Rightarrow> string list \<Rightarrow> string list \<Rightarrow> string \<Rightarrow> int \<Rightarrow> gotime \<Rightarrow> Token" where
  "SIT_token i instanceID agentID delegationChain scope agentVersion ttl now =
     \<lparr>tok_Subject = ''agent_instance:'' @ instanceID, tok_Audience = [is_audience i], tok_IssuedAt = now,
      tok_Expiration = time_add now ttl,
      tok_Claims = [''agent'' \<mapsto> JStr agentID, ''delegation_chain'' \<mapsto> JArr (map JStr delegationChain),
        ''scope'' \<mapsto> JArr (map JStr scope), ''agent_version'' \<mapsto> JStr agentVersion]\<rparr>"

definition IssueSIT ::
  "'key jwt_sign \<Rightarrow> error + string \<Rightarrow> ('key, 'keys) Issuer \<Rightarrow> string \<Rightarrow> string list \<Rightarrow> string list \<Rightarrow> string \<Rightarrow> int \<Rightarrow> gotime \<Rightarrow> error + string"
where
  "IssueSIT jwt_sign randomHex i agentID delegationChain scope agentVersion ttl now =
     (if agentID = [] then Inl ''agentID is required''
      else case randomHex of
        Inl err \<Rightarrow> Inl err
      | Inr instanceID \<Rightarrow>
          (case jwt_sign (is_private i) (SIT_token i instanceID agentID delegationChain scope agentVersion ttl now) of
             Inl err \<Rightarrow> Inl (''sign SIT: '' @ err)
           | Inr signed \<Rightarrow> Inr signed))"

record ExchangeResult =
  xr_Token :: string
  xr_ExpiresAt :: gotime

definition downstream_token :: "Token \<Rightarrow> string \<Rightarrow> string \<Rightarrow> string \<Rightarrow> int \<Rightarrow> gotime \<Rightarrow> Token" where
  "downstream_token tok agentID upstream tool ttl now =
     \<lparr>tok_Subject = tok_Subject tok, tok_Audience = [upstream], tok_IssuedAt = now,
      tok_Expiration = time_add now ttl,
      tok_Claims = [''agent'' \<mapsto> JStr agentID, ''upstream'' \<mapsto> JStr upstream, ''tool'' \<mapsto> JStr tool]\<rparr>"

definition Issuer_Exchange ::
  "'keys jwt_parse \<Rightarrow> 'key jwt_sign \<Rightarrow> ('key, 'keys) Issuer \<Rightarrow> string \<Rightarrow> string \<Rightarrow> string \<Rightarrow> int \<Rightarrow> gotime \<Rightarrow> error + ExchangeResult"
where
  "Issuer_Exchange jwt_parse jwt_sign i subjectToken upstream tool ttl now =
     (case jwt_parse (is_public i) (is_audience i) now subjectToken of
        Inl err \<Rightarrow> Inl (''subject_token invalid: '' @ err)
      | Inr tok \<Rightarrow>
          (case get_string tok ''agent'' of
             None \<Rightarrow> Inl ''subject_token missing required 'agent' claim''
           | Some agentID \<Rightarrow>
               if agentID = [] then Inl ''subject_token missing required 'agent' claim''
               else
                 (case jwt_sign (is_private i) (downstream_token tok agentID upstream tool ttl now) of
                    Inl err \<Rightarrow> Inl (''sign downstream token: '' @ err)
                  | Inr signed \<Rightarrow> Inr \<lparr>xr_Token = signed, xr_ExpiresAt = time_add now ttl\<rparr>)))"

section \<open>What the JWT library documents\<close>

text \<open>
  Times travel in whole seconds and claims as JSON text. For a matching pair of keys: a token that
  was signed is accepted exactly within its audience, from the second it was issued and before the
  second it expires; when its claims are UTF-8 text it is then read back as it was, up to the
  fraction of its times. Claims that are read are UTF-8 text, and the empty text is not a token.
\<close>

definition jwt_time :: "gotime \<Rightarrow> gotime" where
  "jwt_time t = \<lparr>t_ns = t_ns t div nsec_per_sec * nsec_per_sec, t_off = 0\<rparr>"

definition jwt_wire :: "Token \<Rightarrow> Token" where
  "jwt_wire tok = tok\<lparr>tok_IssuedAt := jwt_time (tok_IssuedAt tok), tok_Expiration := jwt_time (tok_Expiration tok)\<rparr>"

definition jwt_live :: "gotime \<Rightarrow> gotime \<Rightarrow> gotime \<Rightarrow> bool" where
  "jwt_live issued expires now \<longleftrightarrow>
     \<not> time_before (jwt_time now) (jwt_time issued) \<and> time_before (jwt_time now) (jwt_time expires)"

definition claims_utf8 :: "Token \<Rightarrow> bool" where
  "claims_utf8 tok \<longleftrightarrow> (\<forall>k v. tok_Claims tok k = Some v \<longrightarrow> utf8_json v)"

definition jwt_library :: "'keys jwt_parse \<Rightarrow> 'key jwt_sign \<Rightarrow> 'key \<Rightarrow> 'keys \<Rightarrow> bool" where
  "jwt_library jwt_parse jwt_sign private public \<longleftrightarrow>
     (\<forall>tok signed aud now. jwt_sign private tok = Inr signed \<longrightarrow> claims_utf8 tok \<longrightarrow>
        aud \<in> set (tok_Audience tok) \<longrightarrow> jwt_live (tok_IssuedAt tok) (tok_Expiration tok) now \<longrightarrow>
        jwt_parse public aud now signed = Inr (jwt_wire tok)) \<and>
     (\<forall>tok signed aud now. jwt_sign private tok = Inr signed \<longrightarrow>
        aud \<notin> set (tok_Audience tok) \<or> \<not> jwt_live (tok_IssuedAt tok) (tok_Expiration tok) now \<longrightarrow>
        (\<exists>e. jwt_parse public aud now signed = Inl e)) \<and>
     (\<forall>aud now s tok. jwt_parse public aud now s = Inr tok \<longrightarrow> claims_utf8 tok) \<and>
     (\<forall>aud now. \<exists>e. jwt_parse public aud now [] = Inl e)"

section \<open>The contract of a resolver\<close>

locale resolver =
  fixes resolve :: "string \<Rightarrow> error + Subject"
  assumes resolve_empty: "\<exists>e. resolve [] = Inl e"
begin

lemma resolved_credential: "resolve credential = Inr subj \<Longrightarrow> credential \<noteq> []"
  using resolve_empty by auto

end

interpretation static_resolver: resolver "StaticTokenResolver_Resolve r" for r
  by unfold_locales (simp add: StaticTokenResolver_Resolve_def)

interpretation jwt_resolver: resolver "JWTResolver_Resolve jwt_parse r now" for jwt_parse r now
  by unfold_locales (simp add: JWTResolver_Resolve_def)

section \<open>Properties\<close>

text \<open>The static resolver knows exactly the configured tokens: a credential resolves to a subject if
  and only if it is not empty and configured, and the subject is the configured identity, with
  no delegation chain; anything else is an error and never a zero subject.\<close>

lemma StaticTokenResolver_exact:
  "StaticTokenResolver_Resolve (NewStaticTokenResolver tokens) credential = Inr subj \<longleftrightarrow>
     credential \<noteq> [] \<and> (\<exists>i. tokens credential = Some i \<and>
       subj = \<lparr>sub_ID = si_ID i, sub_Kind = si_Kind i, sub_AgentVersion = si_AgentVersion i,
               sub_DelegationChain = [], sub_Scopes = si_Scopes i, sub_TrustLevel = si_TrustLevel i\<rparr>)"
  by (auto simp: StaticTokenResolver_Resolve_def NewStaticTokenResolver_def zero_Subject_def split: option.splits)

text \<open>Session tokens are accepted before they expire, and mean what was asked for.\<close>

lemma IssueSIT_token:
  assumes "IssueSIT jwt_sign rnd i agentID chain scope version ttl t0 = Inr sit"
  shows "agentID \<noteq> [] \<and> (\<exists>inst. jwt_sign (is_private i) (SIT_token i inst agentID chain scope version ttl t0) = Inr sit)"
  using assms by (auto simp: IssueSIT_def split: if_splits sum.splits)

lemma get_claims_SIT:
  "get_string (SIT_token i inst a c s v ttl now) ''agent'' = Some a"
  "get_string (SIT_token i inst a c s v ttl now) ''agent_version'' = Some v"
  "get_strings (SIT_token i inst a c s v ttl now) ''delegation_chain'' = Some c"
  "get_strings (SIT_token i inst a c s v ttl now) ''scope'' = Some s"
  by (simp_all add: get_string_def get_strings_def SIT_token_def)

lemma jwt_library_accepts:
  assumes lib: "jwt_library jwt_parse jwt_sign priv pub" and signed: "jwt_sign priv tok = Inr signed"
    and ok: "claims_utf8 tok" "aud \<in> set (tok_Audience tok)" "jwt_live (tok_IssuedAt tok) (tok_Expiration tok) now"
  shows "jwt_parse pub aud now signed = Inr (jwt_wire tok) \<and> signed \<noteq> []"
proof -
  have "jwt_parse pub aud now signed = Inr (jwt_wire tok)" using lib signed ok unfolding jwt_library_def by blast
  moreover obtain e where "jwt_parse pub aud now [] = Inl e" using lib unfolding jwt_library_def by blast
  ultimately show ?thesis by auto
qed

lemma jwt_library_refuses:
  assumes "jwt_library jwt_parse jwt_sign priv pub" "jwt_sign priv tok = Inr signed"
    and "aud \<notin> set (tok_Audience tok) \<or> \<not> jwt_live (tok_IssuedAt tok) (tok_Expiration tok) now"
  shows "\<exists>e. jwt_parse pub aud now signed = Inl e"
  using assms unfolding jwt_library_def by blast

lemma get_wire [simp]: "get_string (jwt_wire tok) k = get_string tok k" "get_strings (jwt_wire tok) k = get_strings tok k"
  "tok_Audience (jwt_wire tok) = tok_Audience tok"
  by (simp_all add: get_string_def get_strings_def jwt_wire_def)

lemma claims_utf8_SIT:
  "list_all (\<lambda>x. coerce_utf8 x = x) (a # v # c @ s) \<Longrightarrow> claims_utf8 (SIT_token i inst a c s v ttl now)"
  by (auto simp: claims_utf8_def SIT_token_def list_all_iff split: if_splits)

lemma claims_utf8_downstream:
  "coerce_utf8 a = a \<Longrightarrow> coerce_utf8 u = u \<Longrightarrow> coerce_utf8 t = t \<Longrightarrow> claims_utf8 (downstream_token tok a u t ttl now)"
  by (auto simp: claims_utf8_def downstream_token_def split: if_splits)

lemma get_string_utf8: "claims_utf8 tok \<Longrightarrow> get_string tok k = Some a \<Longrightarrow> coerce_utf8 a = a"
  by (force simp: claims_utf8_def get_string_def split: option.splits json.splits)

text \<open>Sessions end to end: a session token the issuer mints resolves, at a resolver for the issuer's
  audience, from the second it was issued and before the second it expires, to exactly the agent, delegation chain,
  scopes and version it was issued for; outside that time it is refused.\<close>

lemma SIT_resolves:
  assumes lib: "jwt_library jwt_parse jwt_sign (is_private i) (is_public i)"
    and sit: "IssueSIT jwt_sign rnd i agentID chain scope version ttl t0 = Inr sit"
    and utf: "list_all (\<lambda>x. coerce_utf8 x = x) (agentID # version # chain @ scope)"
  shows "if jwt_live t0 (time_add t0 ttl) now
    then JWTResolver_Resolve jwt_parse (NewJWTResolver (is_public i) (is_audience i)) now sit =
      Inr \<lparr>sub_ID = agentID, sub_Kind = SubjectKindAgent, sub_AgentVersion = version,
           sub_DelegationChain = chain, sub_Scopes = scope, sub_TrustLevel = 0\<rparr>
    else \<exists>e. JWTResolver_Resolve jwt_parse (NewJWTResolver (is_public i) (is_audience i)) now sit = Inl e"
proof -
  obtain inst where a: "agentID \<noteq> []"
    and s: "jwt_sign (is_private i) (SIT_token i inst agentID chain scope version ttl t0) = Inr sit"
    using IssueSIT_token [OF sit] by blast
  let ?tok = "SIT_token i inst agentID chain scope version ttl t0"
  have tok: "is_audience i \<in> set (tok_Audience ?tok)" "tok_IssuedAt ?tok = t0" "tok_Expiration ?tok = time_add t0 ttl"
    by (simp_all add: SIT_token_def)
  show ?thesis
  proof (cases "jwt_live t0 (time_add t0 ttl) now")
    case True
    then have "jwt_parse (is_public i) (is_audience i) now sit = Inr (jwt_wire ?tok)" "sit \<noteq> []"
      using jwt_library_accepts [OF lib s claims_utf8_SIT [OF utf] tok(1), of now] tok(2,3) by simp_all
    with True a show ?thesis
      by (simp add: JWTResolver_Resolve_def NewJWTResolver_def get_claims_SIT zero_Subject_def)
  next
    case False
    then obtain e where "jwt_parse (is_public i) (is_audience i) now sit = Inl e"
      using jwt_library_refuses [OF lib s, of "is_audience i" now] tok(2,3) by auto
    with False show ?thesis by (auto simp: JWTResolver_Resolve_def NewJWTResolver_def)
  qed
qed

text \<open>And at no other audience.\<close>

lemma SIT_resolves_iff:
  assumes lib: "jwt_library jwt_parse jwt_sign (is_private i) (is_public i)"
    and sit: "IssueSIT jwt_sign rnd i agentID chain scope version ttl t0 = Inr sit"
    and utf: "list_all (\<lambda>x. coerce_utf8 x = x) (agentID # version # chain @ scope)"
  shows "JWTResolver_Resolve jwt_parse (NewJWTResolver (is_public i) aud) now sit = Inr subject \<longleftrightarrow>
    aud = is_audience i \<and> jwt_live t0 (time_add t0 ttl) now \<and>
    subject = \<lparr>sub_ID = agentID, sub_Kind = SubjectKindAgent, sub_AgentVersion = version,
      sub_DelegationChain = chain, sub_Scopes = scope, sub_TrustLevel = 0\<rparr>"
proof (cases "aud = is_audience i")
  case True
  with SIT_resolves [OF assms, of now] show ?thesis by (auto split: if_splits)
next
  case False
  obtain inst where s: "jwt_sign (is_private i) (SIT_token i inst agentID chain scope version ttl t0) = Inr sit"
    using IssueSIT_token [OF sit] by blast
  obtain e where "jwt_parse (is_public i) aud now sit = Inl e"
    using jwt_library_refuses [OF lib s, of aud now] False by (auto simp: SIT_token_def)
  with False show ?thesis by (auto simp: JWTResolver_Resolve_def NewJWTResolver_def)
qed

text \<open>C33. What an exchanged credential is worth. It is minted only for a session token that is valid at that moment and names an
  agent. It carries that agent and the one upstream and tool it was asked for, and until the lifetime given to it is over, it can be read by a verifier for that
  upstream. A resolver accepts it exactly if its audience is that upstream and within that lifetime, and then as the agent
  alone, without delegation chain, scopes or version. So it is no session at a gateway with another audience than the upstream; but
  \<^verbatim>\<open>Exchange\<close> does not refuse the gateway's own audience as the upstream, and then the credential is a new session of the agent.\<close>

theorem Exchange_confined:
  assumes lib: "jwt_library jwt_parse jwt_sign (is_private i) (is_public i)"
    and x: "Issuer_Exchange jwt_parse jwt_sign i subjectToken upstream tool ttl now = Inr r"
    and utf: "coerce_utf8 upstream = upstream" "coerce_utf8 tool = tool"
  shows "\<exists>tok agent. jwt_parse (is_public i) (is_audience i) now subjectToken = Inr tok \<and>
    get_string tok ''agent'' = Some agent \<and> agent \<noteq> [] \<and> xr_ExpiresAt r = time_add now ttl \<and>
    (\<forall>later. jwt_live now (time_add now ttl) later \<longrightarrow>
       (\<exists>down. jwt_parse (is_public i) upstream later (xr_Token r) = Inr down \<and> tok_Audience down = [upstream] \<and>
          get_string down ''agent'' = Some agent \<and> get_string down ''upstream'' = Some upstream \<and> get_string down ''tool'' = Some tool)) \<and>
    (\<forall>aud later subject. JWTResolver_Resolve jwt_parse (NewJWTResolver (is_public i) aud) later (xr_Token r) = Inr subject \<longleftrightarrow>
       aud = upstream \<and> jwt_live now (time_add now ttl) later \<and>
       subject = zero_Subject\<lparr>sub_ID := agent, sub_Kind := SubjectKindAgent\<rparr>)"
proof -
  obtain tok a where p: "jwt_parse (is_public i) (is_audience i) now subjectToken = Inr tok"
    and a: "get_string tok ''agent'' = Some a" "a \<noteq> []"
    and s: "jwt_sign (is_private i) (downstream_token tok a upstream tool ttl now) = Inr (xr_Token r)"
    and e: "xr_ExpiresAt r = time_add now ttl"
    using x by (auto simp: Issuer_Exchange_def split: sum.splits option.splits if_splits)
  let ?d = "downstream_token tok a upstream tool ttl now"
  have d: "tok_Audience ?d = [upstream]" "tok_IssuedAt ?d = now" "tok_Expiration ?d = time_add now ttl"
    "get_string ?d ''agent'' = Some a" "get_string ?d ''upstream'' = Some upstream" "get_string ?d ''tool'' = Some tool"
    "get_strings ?d ''delegation_chain'' = None" "get_strings ?d ''scope'' = None" "get_string ?d ''agent_version'' = None"
    by (simp_all add: downstream_token_def get_string_def get_strings_def)
  from p lib have "claims_utf8 tok" unfolding jwt_library_def by blast
  with a utf have utf8: "claims_utf8 ?d" using get_string_utf8 claims_utf8_downstream by blast
  have live: "jwt_parse (is_public i) upstream later (xr_Token r) = Inr (jwt_wire ?d) \<and> xr_Token r \<noteq> []"
    if "jwt_live now (time_add now ttl) later" for later
    using jwt_library_accepts [OF lib s utf8, of upstream later] that d by simp
  have "JWTResolver_Resolve jwt_parse (NewJWTResolver (is_public i) aud) later (xr_Token r) = Inr subject \<longleftrightarrow>
       aud = upstream \<and> jwt_live now (time_add now ttl) later \<and>
       subject = zero_Subject\<lparr>sub_ID := a, sub_Kind := SubjectKindAgent\<rparr>" for aud later subject
  proof (cases "aud = upstream \<and> jwt_live now (time_add now ttl) later")
    case True
    with live [of later] d a(2) show ?thesis
      by (auto simp: JWTResolver_Resolve_def NewJWTResolver_def zero_Subject_def)
  next
    case False
    then obtain err where "jwt_parse (is_public i) aud later (xr_Token r) = Inl err"
      using jwt_library_refuses [OF lib s, of aud later] d(1,2,3) by auto
    with False show ?thesis by (auto simp: JWTResolver_Resolve_def NewJWTResolver_def)
  qed
  moreover have "\<exists>down. jwt_parse (is_public i) upstream later (xr_Token r) = Inr down \<and> tok_Audience down = [upstream] \<and>
      get_string down ''agent'' = Some a \<and> get_string down ''upstream'' = Some upstream \<and> get_string down ''tool'' = Some tool"
    if "jwt_live now (time_add now ttl) later" for later
    using live [OF that] d by (intro exI [of _ "jwt_wire ?d"]) simp
  ultimately show ?thesis using p a e by (intro exI [of _ tok] exI [of _ a]) simp
qed

text \<open>The broker hands out a credential only when the exchange endpoint answered with a document that
  reports no error and carries one, and then exactly that one; it never returns an empty
  credential.\<close>

lemma broker_returns_minted:
  "HTTPCredentialBroker_Exchange http_post b sit upstream tool = Inr token \<longleftrightarrow>
     (\<exists>status body out. http_post (hb_endpoint b) (exchange_form sit upstream tool) = Response status body \<and>
        exchange_response body = Some out \<and> er_Error out = [] \<and> er_AccessToken out = token \<and> token \<noteq> [])"
  by (auto simp: HTTPCredentialBroker_Exchange_def split: http_result.splits option.splits)

text \<open>A library that satisfies the documented behaviour: tokens are numbered as they are signed, and the
  text of a token is its number in a table.\<close>

definition example_token :: Token where
  "example_token = \<lparr>tok_Subject = ''agent_instance:0'', tok_Audience = [''gw''], tok_IssuedAt = time_zero,
     tok_Expiration = time_add time_zero time_Minute,
     tok_Claims = [''agent'' \<mapsto> JStr ''agent:a'', ''delegation_chain'' \<mapsto> JArr (map JStr [''user:u'']),
        ''scope'' \<mapsto> JArr (map JStr [''pay'']), ''agent_version'' \<mapsto> JStr ''1'']\<rparr>"

definition example_down :: Token where
  "example_down = downstream_token example_token ''agent:a'' ''erp'' ''pay'' time_Minute time_zero"

definition example_sign :: "unit jwt_sign" where
  "example_sign k tok =
     (if tok = example_token then Inr ''sit'' else if tok = example_down then Inr ''down'' else Inl ''unsupported'')"

definition example_parse :: "unit jwt_parse" where
  "example_parse k aud now s =
     (case (if s = ''sit'' then Some example_token else if s = ''down'' then Some example_down else None) of
        None \<Rightarrow> Inl ''not a token''
      | Some tok \<Rightarrow>
          if aud \<in> set (tok_Audience tok) \<and> jwt_live (tok_IssuedAt tok) (tok_Expiration tok) now then Inr (jwt_wire tok)
          else Inl ''invalid'')"

definition example_issuer :: "(unit, unit) Issuer" where
  "example_issuer = \<lparr>is_private = (), is_public = (), is_audience = ''gw''\<rparr>"

lemma example_tokens_differ: "example_down \<noteq> example_token"
  by (simp add: example_down_def downstream_token_def example_token_def)

lemma example_utf8: "claims_utf8 (jwt_wire example_token)" "claims_utf8 (jwt_wire example_down)"
  by (auto simp: claims_utf8_def jwt_wire_def example_token_def example_down_def downstream_token_def
      coerce_ascii byte_in_def split: if_splits)

lemma example_library: "jwt_library example_parse example_sign (is_private example_issuer) (is_public example_issuer)"
  using example_tokens_differ example_utf8
  by (auto simp: jwt_library_def example_parse_def example_sign_def split: if_splits)

lemma example_issue:
  "IssueSIT example_sign (Inr ''0'') example_issuer ''agent:a'' [''user:u''] [''pay''] ''1'' time_Minute time_zero = Inr ''sit''"
  by (simp add: IssueSIT_def SIT_token_def example_sign_def example_token_def example_issuer_def)

lemma example_live: "jwt_live time_zero (time_add time_zero time_Minute) time_zero"
  by (simp add: jwt_live_def jwt_time_def time_before_def time_add_def time_Minute_def nsec_per_sec_def time_zero_def)

lemma example_exchange:
  "Issuer_Exchange example_parse example_sign example_issuer ''sit'' ''erp'' ''pay'' time_Minute time_zero =
     Inr \<lparr>xr_Token = ''down'', xr_ExpiresAt = time_add time_zero time_Minute\<rparr>"
proof -
  have "example_parse () ''gw'' time_zero ''sit'' = Inr (jwt_wire example_token)"
    using example_live by (simp add: example_parse_def example_token_def)
  moreover have "get_string example_token ''agent'' = Some ''agent:a''"
    by (simp add: get_string_def example_token_def)
  moreover have "downstream_token (jwt_wire example_token) ''agent:a'' ''erp'' ''pay'' time_Minute time_zero = example_down"
    by (simp add: example_down_def downstream_token_def jwt_wire_def)
  ultimately show ?thesis
    using example_tokens_differ by (simp add: Issuer_Exchange_def example_issuer_def example_sign_def)
qed

theorem Exchange_confined_witness:
  "(\<exists>e. JWTResolver_Resolve example_parse (NewJWTResolver (is_public example_issuer) ''gw'') time_zero ''down'' = Inl e) \<and>
   (\<exists>agent. JWTResolver_Resolve example_parse (NewJWTResolver (is_public example_issuer) ''erp'') time_zero ''down'' =
      Inr (zero_Subject\<lparr>sub_ID := agent, sub_Kind := SubjectKindAgent\<rparr>))"
proof -
  have "coerce_utf8 ''erp'' = ''erp''" "coerce_utf8 ''pay'' = ''pay''" by (simp_all add: coerce_ascii byte_in_def)
  from Exchange_confined [OF example_library example_exchange this] obtain agent where
    "\<And>aud subject. JWTResolver_Resolve example_parse (NewJWTResolver (is_public example_issuer) aud) time_zero ''down'' = Inr subject \<longleftrightarrow>
       aud = ''erp'' \<and> subject = zero_Subject\<lparr>sub_ID := agent, sub_Kind := SubjectKindAgent\<rparr>"
    using example_live by auto
  then show ?thesis
    by (cases "JWTResolver_Resolve example_parse (NewJWTResolver (is_public example_issuer) ''gw'') time_zero ''down''") auto
qed

end
