(* ===== verification/Go_Url.thy ===== *)
theory Go_Url
  imports Go_Json_Text
begin

text \<open>
  Form data in Go's \<^verbatim>\<open>net/url\<close>: \<^verbatim>\<open>QueryEscape\<close>, \<^verbatim>\<open>QueryUnescape\<close>, \<^verbatim>\<open>Values.Encode\<close> and \<^verbatim>\<open>ParseQuery\<close>, on bytes. A value of
  type \<^verbatim>\<open>url.Values\<close> is a map from keys to lists of values. What is encoded is parsed back
  (\<open>parse_query_encode\<close>).
\<close>

type_synonym url_values = "string list gomap"

section \<open>Escaping\<close>

definition upper_hex :: "nat \<Rightarrow> char" where
  "upper_hex d = char_of (if d < 10 then 48 + d else 55 + d)"

definition unreserved :: "char \<Rightarrow> bool" where
  "unreserved c \<longleftrightarrow>
     of_char c \<in> {65..(90 :: nat)} \<or> of_char c \<in> {97..(122 :: nat)} \<or> is_digit c \<or> c \<in> {CHR ''-'', CHR ''_'', CHR ''.'', CHR ''~''}"

definition escape_byte :: "char \<Rightarrow> string" where
  "escape_byte c =
     (if unreserved c then [c]
      else if c = CHR '' '' then ''+''
      else [CHR ''%'', upper_hex (of_char c div 16), upper_hex (of_char c mod 16)])"

definition queryEscape :: "string \<Rightarrow> string" where
  "queryEscape s = concat (map escape_byte s)"

definition escape_error :: "string \<Rightarrow> error" where
  "escape_error s = ''invalid URL escape '' @ quoteq (take 3 s)"

fun queryUnescape :: "string \<Rightarrow> error + string" where
  "queryUnescape [] = Inr []"
| "queryUnescape (c # cs) =
     (if c = CHR ''%'' then
        (case cs of
           a # b # rest \<Rightarrow>
             (case (hex_digit a, hex_digit b) of
                (Some x, Some y) \<Rightarrow>
                  (case queryUnescape rest of Inl e \<Rightarrow> Inl e | Inr t \<Rightarrow> Inr (char_of (16 * x + y) # t))
              | _ \<Rightarrow> Inl (escape_error (c # cs)))
         | _ \<Rightarrow> Inl (escape_error (c # cs)))
      else (case queryUnescape cs of
              Inl e \<Rightarrow> Inl e
            | Inr t \<Rightarrow> Inr ((if c = CHR ''+'' then CHR '' '' else c) # t)))"

section \<open>Forms\<close>

definition pair_text :: "string \<times> string \<Rightarrow> string" where
  "pair_text p = queryEscape (fst p) @ ''='' @ queryEscape (snd p)"

definition value_pairs :: "url_values \<Rightarrow> (string \<times> string) list" where
  "value_pairs m = concat (map (\<lambda>(k, vs). map (Pair k) vs) m)"

definition values_encode :: "url_values \<Rightarrow> string" where
  "values_encode m = joinWith ''&'' (map pair_text (value_pairs m))"

text \<open>\<^verbatim>\<open>Values.Get\<close>: the first value of a key, or the empty string.\<close>

definition values_get :: "url_values \<Rightarrow> string \<Rightarrow> string" where
  "values_get m k = (case map_of m k of Some (v # vs) \<Rightarrow> v | _ \<Rightarrow> [])"

definition add_value :: "string \<Rightarrow> string \<Rightarrow> url_values \<Rightarrow> url_values" where
  "add_value k v m = gm_upd k ((case map_of m k of None \<Rightarrow> [] | Some vs \<Rightarrow> vs) @ [v]) m"

text \<open>\<^verbatim>\<open>strings.Cut\<close> at the first equals sign.\<close>

definition cut_pair :: "string \<Rightarrow> string \<times> string" where
  "cut_pair s = (takeWhile (\<lambda>c. c \<noteq> CHR ''='') s, drop 1 (dropWhile (\<lambda>c. c \<noteq> CHR ''='') s))"

text \<open>
  The settings of a query are parsed one after the other; a bad one is left out, and the error that is
  reported is the first, except that a semicolon replaces it.
\<close>

fun parse_settings :: "string list \<Rightarrow> url_values \<Rightarrow> error option \<Rightarrow> error option \<times> url_values" where
  "parse_settings [] m err = (err, m)"
| "parse_settings (s # ss) m err =
     (if CHR '';'' \<in> set s then parse_settings ss m (Some ''invalid semicolon separator in query'')
      else if s = [] then parse_settings ss m err
      else
        (case queryUnescape (fst (cut_pair s)) of
           Inl e \<Rightarrow> parse_settings ss m (case err of None \<Rightarrow> Some e | Some e0 \<Rightarrow> Some e0)
         | Inr k \<Rightarrow>
             (case queryUnescape (snd (cut_pair s)) of
                Inl e \<Rightarrow> parse_settings ss m (case err of None \<Rightarrow> Some e | Some e0 \<Rightarrow> Some e0)
              | Inr v \<Rightarrow> parse_settings ss (add_value k v m) err)))"

definition parseQuery :: "string \<Rightarrow> error option \<times> url_values" where
  "parseQuery s = parse_settings (splitOn (CHR ''&'') s) [] None"

text \<open>A literal \<^verbatim>\<open>url.Values\<close> with one value for each key.\<close>

definition form_values :: "(string \<times> string) list \<Rightarrow> url_values" where
  "form_values fs = fold (\<lambda>(k, v) m. gm_upd k [v] m) fs []"

section \<open>Round trip\<close>

lemma hex_digit_upper [simp]: "d < 16 \<Longrightarrow> hex_digit (upper_hex d) = Some d"
  by (auto simp: hex_digit_def upper_hex_def Let_def)

lemma unreserved_plain: "unreserved c \<Longrightarrow> c \<notin> {CHR ''%'', CHR ''+'', CHR ''&'', CHR ''='', CHR '';''}"
  by (auto simp: unreserved_def is_digit_def)

lemma upper_hex_plain: "d < 16 \<Longrightarrow> upper_hex d \<notin> {CHR ''&'', CHR ''='', CHR '';''}"
  by (auto simp: upper_hex_def dest: arg_cong [where f = "of_char :: char \<Rightarrow> nat"])

lemma byte_nibbles: "of_char c div 16 < (16 :: nat)"
proof -
  have "(of_char c :: nat) < 256" by simp
  then show ?thesis by linarith
qed

lemma escape_byte_plain: "x \<in> set (escape_byte c) \<Longrightarrow> x \<notin> {CHR ''&'', CHR ''='', CHR '';''}"
  using unreserved_plain [of x] upper_hex_plain [of "of_char c div 16"] upper_hex_plain [of "of_char c mod 16"]
  by (auto simp: escape_byte_def byte_nibbles split: if_splits)

lemma queryEscape_plain: "x \<in> set (queryEscape s) \<Longrightarrow> x \<notin> {CHR ''&'', CHR ''='', CHR '';''}"
  using escape_byte_plain by (fastforce simp: queryEscape_def)

theorem queryUnescape_escape: "queryUnescape (queryEscape s) = Inr s"
proof (induction s)
  case (Cons c s)
  have "queryUnescape (escape_byte c @ t) = (case queryUnescape t of Inl e \<Rightarrow> Inl e | Inr u \<Rightarrow> Inr (c # u))" for t
    using unreserved_plain [of c] by (auto simp: escape_byte_def byte_nibbles split: sum.splits intro: char_eqI)
  with Cons show ?case by (simp add: queryEscape_def)
qed (simp add: queryEscape_def)

lemma splitOn_plain: "c \<notin> set p \<Longrightarrow> splitOn c (p @ c # rest) = p # splitOn c rest"
  by (induction p) auto

lemma splitOn_none: "c \<notin> set p \<Longrightarrow> splitOn c p = [p]"
  by (induction p) auto

lemma splitOn_join:
  "(\<And>p. p \<in> set ps \<Longrightarrow> c \<notin> set p) \<Longrightarrow> splitOn c (joinWith [c] ps) = (if ps = [] then [[]] else ps)"
  by (induction "[c]" ps rule: joinWith.induct) (auto simp: splitOn_none splitOn_plain)

lemma cut_pair_text: "cut_pair (pair_text p) = (queryEscape (fst p), queryEscape (snd p))"
proof -
  have "\<forall>x \<in> set (queryEscape (fst p)). x \<noteq> CHR ''=''" using queryEscape_plain by blast
  then show ?thesis by (simp add: cut_pair_def pair_text_def takeWhile_append2 dropWhile_append2)
qed

lemma pair_text_plain: "CHR '';'' \<notin> set (pair_text p)" "CHR ''&'' \<notin> set (pair_text p)" "pair_text p \<noteq> []"
  using queryEscape_plain by (auto simp: pair_text_def)

lemma parse_settings_text:
  "parse_settings (map pair_text ps) m err = (err, fold (\<lambda>(k, v). add_value k v) ps m)"
  by (induction ps arbitrary: m) (auto simp: pair_text_plain cut_pair_text queryUnescape_escape)

lemma parse_pairs:
  "parseQuery (joinWith ''&'' (map pair_text ps)) = (None, fold (\<lambda>(k, v). add_value k v) ps [])"
proof -
  have "splitOn (CHR ''&'') (joinWith ''&'' (map pair_text ps)) = (if ps = [] then [[]] else map pair_text ps)"
    by (subst splitOn_join) (auto simp: pair_text_plain(2))
  then show ?thesis by (simp add: parseQuery_def parse_settings_text)
qed

lemma add_values_new:
  assumes "\<forall>a \<in> set (map fst m). a < k" "vs \<noteq> []"
  shows "fold (\<lambda>(k, v). add_value k v) (map (Pair k) vs) m = m @ [(k, vs)]"
proof -
  have app: "fold (\<lambda>(k, v). add_value k v) (map (Pair k) ws) (m @ [(k, us)]) = m @ [(k, us @ ws)]" for us ws
  proof (induction ws arbitrary: us)
    case (Cons w ws)
    have "k \<notin> set (map fst m)" using assms(1) by auto
    then have "map_of (m @ [(k, us)]) k = Some us" by (simp add: map_add_def map_of_eq_None_iff [THEN iffD2])
    moreover have "gm_upd k x (m @ [(k, us)]) = m @ [(k, x)]" for x
      using assms(1) by (induction m) auto
    ultimately show ?case using Cons by (simp add: add_value_def)
  qed simp
  from assms(2) obtain w ws where vs: "vs = w # ws" by (cases vs) auto
  have "k \<notin> set (map fst m)" using assms(1) by auto
  then have "add_value k w m = m @ [(k, [w])]"
    using gm_upd_last [OF assms(1)] by (simp add: add_value_def map_of_eq_None_iff [THEN iffD2])
  with app [of ws "[w]"] show ?thesis by (simp add: vs)
qed

lemma fold_value_pairs:
  assumes "gm_ok (n @ m)" "list_all (\<lambda>e. snd e \<noteq> []) m"
  shows "fold (\<lambda>(k, v). add_value k v) (value_pairs m) n = n @ m"
  using assms
proof (induction m arbitrary: n)
  case (Cons e m)
  obtain k vs where e: "e = (k, vs)" by (cases e)
  have "\<forall>a \<in> set (map fst n). a < k" using Cons.prems(1) by (auto simp: e gm_ok_def sorted_wrt_append)
  then have "fold (\<lambda>(k, v). add_value k v) (map (Pair k) vs) n = n @ [e]"
    using add_values_new [of n k vs] Cons.prems(2) by (simp add: e)
  with Cons.IH [of "n @ [e]"] Cons.prems show ?case by (simp add: value_pairs_def e)
qed (simp add: value_pairs_def)

theorem parse_query_encode:
  "gm_ok m \<Longrightarrow> list_all (\<lambda>e. snd e \<noteq> []) m \<Longrightarrow> parseQuery (values_encode m) = (None, m)"
  unfolding values_encode_def parse_pairs using fold_value_pairs [of "[]" m] by simp

lemma form_values_ok: "gm_ok (form_values fs)" "list_all (\<lambda>e. snd e \<noteq> []) (form_values fs)"
proof -
  have "gm_ok m \<Longrightarrow> gm_ok (fold (\<lambda>(k, v) m. gm_upd k [v] m) fs m)" for m :: url_values
    by (induction fs arbitrary: m) auto
  then show "gm_ok (form_values fs)" by (simp add: form_values_def)
  have "list_all (\<lambda>e. snd e \<noteq> []) m \<Longrightarrow> list_all (\<lambda>e. snd e \<noteq> []) (fold (\<lambda>(k, v) m. gm_upd k [v] m) fs m)" for m :: url_values
    by (induction fs arbitrary: m) (auto simp: list_all_gm_upd [where P = "\<lambda>vs. vs \<noteq> []"])
  then show "list_all (\<lambda>e. snd e \<noteq> []) (form_values fs)" by (simp add: form_values_def)
qed

lemma parse_form: "parseQuery (values_encode (form_values fs)) = (None, form_values fs)"
  using parse_query_encode form_values_ok by blast

end
