(* ===== verification/HD_DevIssuer.thy ===== *)
theory HD_DevIssuer
  imports HD_Identity Go_Url
begin

text \<open>
  \<^verbatim>\<open>internal/devissuer/server.go\<close>: the HTTP interface of the development issuer. A request is its method, the path and
  raw query of its URL, what \<^verbatim>\<open>mime.ParseMediaType\<close> makes of its content type, and its body; a response is its
  status and the bytes written. \<^verbatim>\<open>Request.ParseForm\<close> and \<^verbatim>\<open>FormValue\<close> of \<^verbatim>\<open>net/http\<close> are modelled here; the
  encoding of the key set by the JWT library is the argument \<open>keys_json\<close>. The texts of
  \<^verbatim>\<open>encoding/json\<close> errors are left out. \<^verbatim>\<open>Duration.Seconds\<close> is a \<^verbatim>\<open>float64\<close>; its integer part is exact for lifetimes below
  \<open>2 ^ 23\<close> seconds, which is what \<open>whole_seconds\<close> computes.

  The properties connect the three parties of an exchange: what the gateway's broker obtains over HTTP is what the
  issuer decides, and an endpoint only ever does its own work.
\<close>

section \<open>Requests and forms\<close>

record issuer_request =
  iq_Method :: string
  iq_Path :: string
  iq_RawQuery :: string
  iq_MediaType :: "string \<times> error option"
  iq_Body :: string

record issuer_response =
  ip_Status :: int
  ip_Body :: string

definition max_form_size :: nat where
  "max_form_size = 10 * 2 ^ 20"

definition parse_post_form :: "issuer_request \<Rightarrow> error option \<times> url_values" where
  "parse_post_form r =
     (case iq_MediaType r of
        (ct, err) \<Rightarrow>
          if ct = ''application/x-www-form-urlencoded'' then
            if max_form_size < length (iq_Body r) then (Some ''http: POST too large'', [])
            else (case parseQuery (iq_Body r) of (e, vs) \<Rightarrow> (case err of None \<Rightarrow> e | Some e0 \<Rightarrow> Some e0, vs))
          else (err, []))"

definition copy_values :: "url_values \<Rightarrow> url_values \<Rightarrow> url_values" where
  "copy_values dst src = fold (\<lambda>(k, v). add_value k v) (value_pairs src) dst"

text \<open>\<^verbatim>\<open>ParseForm\<close> of a \<^verbatim>\<open>POST\<close>: the values of the body come before those of the URL.\<close>

definition parse_form_request :: "issuer_request \<Rightarrow> error option \<times> url_values" where
  "parse_form_request r =
     (case (parse_post_form r, parseQuery (iq_RawQuery r)) of
        ((err, post), (e, query)) \<Rightarrow> (case err of None \<Rightarrow> e | Some e0 \<Rightarrow> Some e0, copy_values post query))"

section \<open>The server\<close>

record ('key, 'keys) IssuerServer =
  isv_issuer :: "('key, 'keys) Issuer"
  isv_sitTTL :: int
  isv_exchangeTTL :: int

definition NewIssuerServer :: "('key, 'keys) Issuer \<Rightarrow> int \<Rightarrow> int \<Rightarrow> ('key, 'keys) IssuerServer" where
  "NewIssuerServer i sitTTL exchangeTTL = \<lparr>isv_issuer = i, isv_sitTTL = sitTTL, isv_exchangeTTL = exchangeTTL\<rparr>"

definition whole_seconds :: "int \<Rightarrow> int" where
  "whole_seconds d = (if d < 0 then - (- d div nsec_per_sec) else d div nsec_per_sec)"

definition writeJSON :: "int \<Rightarrow> json \<Rightarrow> issuer_response" where
  "writeJSON status v = \<lparr>ip_Status = status, ip_Body = json_text v @ [CHR 10]\<rparr>"

definition writeJSONError :: "int \<Rightarrow> string \<Rightarrow> string \<Rightarrow> issuer_response" where
  "writeJSONError status code description =
     writeJSON status (JObj [(''error'', JStr code), (''error_description'', JStr description)])"

definition method_not_allowed :: issuer_response where
  "method_not_allowed = \<lparr>ip_Status = 405, ip_Body = []\<rparr>"

record issueRequest =
  ir_Agent :: string
  ir_DelegationChain :: "string list"
  ir_Scope :: "string list"
  ir_AgentVersion :: string

definition issueRequest_fields :: "issueRequest field list" where
  "issueRequest_fields =
     [(''agent'', dec_str (\<lambda>x. ir_Agent_update (\<lambda>_. x))),
      (''delegation_chain'', dec_strs (\<lambda>x. ir_DelegationChain_update (\<lambda>_. x))),
      (''scope'', dec_strs (\<lambda>x. ir_Scope_update (\<lambda>_. x))),
      (''agent_version'', dec_str (\<lambda>x. ir_AgentVersion_update (\<lambda>_. x)))]"

definition issue_request :: "string \<Rightarrow> issueRequest option" where
  "issue_request body =
     (case first_json body of
        None \<Rightarrow> None
      | Some v \<Rightarrow> dec_struct issueRequest_fields v
          \<lparr>ir_Agent = [], ir_DelegationChain = [], ir_Scope = [], ir_AgentVersion = []\<rparr>)"

definition json_of_issueResponse :: "string \<Rightarrow> int \<Rightarrow> json" where
  "json_of_issueResponse token expiresIn =
     JObj [(''token'', JStr token), (''expires_in'', JNum (show_int expiresIn))]"

definition handleIssue ::
  "'key jwt_sign \<Rightarrow> error + string \<Rightarrow> ('key, 'keys) IssuerServer \<Rightarrow> gotime \<Rightarrow> issuer_request \<Rightarrow> issuer_response" where
  "handleIssue jwt_sign randomHex s now r =
     (if iq_Method r \<noteq> ''POST'' then method_not_allowed
      else case issue_request (iq_Body r) of
        None \<Rightarrow> writeJSONError 400 ''invalid_request'' []
      | Some req \<Rightarrow>
          (case IssueSIT jwt_sign randomHex (isv_issuer s) (ir_Agent req) (ir_DelegationChain req) (ir_Scope req)
                  (ir_AgentVersion req) (isv_sitTTL s) now of
             Inl err \<Rightarrow> writeJSONError 400 ''invalid_request'' err
           | Inr token \<Rightarrow> writeJSON 200 (json_of_issueResponse token (whole_seconds (isv_sitTTL s)))))"

definition expectedGrantType :: string where
  "expectedGrantType = ''urn:ietf:params:oauth:grant-type:token-exchange''"

definition required_text :: string where
  "required_text = ''subject_token, resource, and tool are all required''"

definition json_of_exchangeResponse :: "string \<Rightarrow> int \<Rightarrow> json" where
  "json_of_exchangeResponse token expiresIn =
     JObj [(''access_token'', JStr token),
           (''issued_token_type'', JStr ''urn:ietf:params:oauth:token-type:access_token''),
           (''token_type'', JStr ''Bearer''), (''expires_in'', JNum (show_int expiresIn))]"

definition handleExchange ::
  "'keys jwt_parse \<Rightarrow> 'key jwt_sign \<Rightarrow> ('key, 'keys) IssuerServer \<Rightarrow> gotime \<Rightarrow> issuer_request \<Rightarrow> issuer_response" where
  "handleExchange jwt_parse jwt_sign s now r =
     (if iq_Method r \<noteq> ''POST'' then method_not_allowed
      else case parse_form_request r of
        (Some err, form) \<Rightarrow> writeJSONError 400 ''invalid_request'' err
      | (None, form) \<Rightarrow>
          if values_get form ''grant_type'' \<noteq> expectedGrantType then
            writeJSONError 400 ''unsupported_grant_type'' (''grant_type must be '' @ expectedGrantType)
          else
            (let subjectToken = values_get form ''subject_token'';
                 upstream = values_get form ''resource'';
                 tool = values_get form ''tool''
             in if subjectToken = [] \<or> upstream = [] \<or> tool = [] then
                  writeJSONError 400 ''invalid_request'' required_text
                else (case Issuer_Exchange jwt_parse jwt_sign (isv_issuer s) subjectToken upstream tool (isv_exchangeTTL s) now of
                   Inl err \<Rightarrow> writeJSONError 401 ''invalid_grant'' err
                 | Inr result \<Rightarrow>
                     writeJSON 200 (json_of_exchangeResponse (xr_Token result) (whole_seconds (isv_exchangeTTL s))))))"

definition handleJWKS :: "('keys \<Rightarrow> json option) \<Rightarrow> ('key, 'keys) IssuerServer \<Rightarrow> issuer_request \<Rightarrow> issuer_response" where
  "handleJWKS keys_json s r =
     (if iq_Method r \<noteq> ''GET'' then method_not_allowed
      else \<lparr>ip_Status = 200,
            ip_Body = (case keys_json (is_public (isv_issuer s)) of None \<Rightarrow> [] | Some v \<Rightarrow> json_text v @ [CHR 10])\<rparr>)"

definition IssuerServer_ServeHTTP ::
  "'keys jwt_parse \<Rightarrow> 'key jwt_sign \<Rightarrow> ('keys \<Rightarrow> json option) \<Rightarrow> error + string \<Rightarrow> ('key, 'keys) IssuerServer \<Rightarrow> gotime \<Rightarrow>
     issuer_request \<Rightarrow> issuer_response" where
  "IssuerServer_ServeHTTP jwt_parse jwt_sign keys_json randomHex s now r =
     (if iq_Path r = ''/issue'' then handleIssue jwt_sign randomHex s now r
      else if iq_Path r = ''/token-exchange'' then handleExchange jwt_parse jwt_sign s now r
      else if iq_Path r = ''/.well-known/jwks.json'' then handleJWKS keys_json s r
      else \<lparr>ip_Status = 404, ip_Body = ''404 page not found'' @ [CHR 10]\<rparr>)"

section \<open>The broker at the issuer's endpoint\<close>

text \<open>What \<^verbatim>\<open>http.NewRequest\<close> and the client make of the broker's form, answered by the server.\<close>

definition form_request :: "string \<Rightarrow> (string \<times> string) list \<Rightarrow> issuer_request" where
  "form_request path form =
     \<lparr>iq_Method = ''POST'', iq_Path = path, iq_RawQuery = [],
      iq_MediaType = (''application/x-www-form-urlencoded'', None), iq_Body = values_encode (form_values form)\<rparr>"

definition issuer_post ::
  "'keys jwt_parse \<Rightarrow> 'key jwt_sign \<Rightarrow> ('keys \<Rightarrow> json option) \<Rightarrow> error + string \<Rightarrow> ('key, 'keys) IssuerServer \<Rightarrow> gotime \<Rightarrow>
     string \<Rightarrow> (string \<times> string) list \<Rightarrow> http_result" where
  "issuer_post jwt_parse jwt_sign keys_json randomHex s now path form =
     (let resp = IssuerServer_ServeHTTP jwt_parse jwt_sign keys_json randomHex s now (form_request path form)
      in Response (ip_Status resp) (ip_Body resp))"

section \<open>Lemmas\<close>

lemma copy_no_values [simp]: "copy_values m [] = m"
  by (simp add: copy_values_def value_pairs_def)

lemma parse_no_query [simp]: "parseQuery [] = (None, [])"
  by (simp add: parseQuery_def)

lemma parse_form_form_request:
  "length (values_encode (form_values form)) \<le> max_form_size \<Longrightarrow>
     parse_form_request (form_request path form) = (None, form_values form)"
  by (simp add: parse_form_request_def parse_post_form_def form_request_def parse_form)

lemma exchange_form_gets:
  "values_get (form_values (exchange_form sit upstream tool)) ''grant_type'' = expectedGrantType"
  "values_get (form_values (exchange_form sit upstream tool)) ''subject_token'' = sit"
  "values_get (form_values (exchange_form sit upstream tool)) ''resource'' = upstream"
  "values_get (form_values (exchange_form sit upstream tool)) ''tool'' = tool"
  by (simp_all add: values_get_def form_values_def exchange_form_def expectedGrantType_def gomap_simps del: gm_upd.simps)

lemma exchange_response_error:
  "exchange_response (ip_Body (writeJSONError status code description)) =
     Some \<lparr>er_AccessToken = [], er_Error = coerce_utf8 code, er_ErrorDesc = coerce_utf8 description\<rparr>"
proof -
  have "first_json (ip_Body (writeJSONError status code description)) =
      Some (JObj [(''error'', JStr (coerce_utf8 code)), (''error_description'', JStr (coerce_utf8 description))])"
    unfolding writeJSONError_def writeJSON_def
    by (simp add: first_json_line max_depth_def coerce_ascii byte_in_def del: json_text.simps)
  then show ?thesis by (simp add: exchange_response_def exchange_fields_def dec_simps)
qed

lemma exchange_response_token:
  "exchange_response (ip_Body (writeJSON 200 (json_of_exchangeResponse token n))) =
     Some \<lparr>er_AccessToken = coerce_utf8 token, er_Error = [], er_ErrorDesc = []\<rparr>"
proof -
  have "first_json (ip_Body (writeJSON 200 (json_of_exchangeResponse token n))) =
      Some (json_of_exchangeResponse (coerce_utf8 token) n)"
    unfolding json_of_exchangeResponse_def writeJSON_def
    by (simp add: first_json_line max_depth_def coerce_ascii byte_in_def valid_num_show_int del: json_text.simps)
  then show ?thesis by (simp add: exchange_response_def json_of_exchangeResponse_def exchange_fields_def dec_simps)
qed

section \<open>Properties\<close>

text \<open>C34. An exchange over HTTP is the issuer's decision: for any session token, upstream and tool whose form fits the size limit,
  what the gateway's broker obtains from the endpoint is, byte for byte through form encoding, form parsing, JSON
  writing and JSON reading, what \<^verbatim>\<open>Issuer.Exchange\<close> answers for exactly these three: its token, or a denial that
  carries its reason; an exchange with one of the three missing never reaches the issuer, and no empty
  credential is returned.\<close>

theorem broker_over_http:
  assumes "length (values_encode (form_values (exchange_form sit upstream tool))) \<le> max_form_size"
  shows "HTTPCredentialBroker_Exchange (issuer_post jwt_parse jwt_sign keys_json rnd s now)
      \<lparr>hb_endpoint = ''/token-exchange''\<rparr> sit upstream tool =
    (if sit = [] \<or> upstream = [] \<or> tool = [] then Inl (''token exchange denied: invalid_request: '' @ required_text)
     else case Issuer_Exchange jwt_parse jwt_sign (isv_issuer s) sit upstream tool (isv_exchangeTTL s) now of
       Inl err \<Rightarrow> Inl (''token exchange denied: invalid_grant: '' @ coerce_utf8 err)
     | Inr r \<Rightarrow>
         if coerce_utf8 (xr_Token r) = [] then Inl ''token-exchange response had no access_token (HTTP 200)''
         else Inr (coerce_utf8 (xr_Token r)))"
proof -
  let ?r = "form_request ''/token-exchange'' (exchange_form sit upstream tool)"
  have resp: "issuer_post jwt_parse jwt_sign keys_json rnd s now ''/token-exchange'' (exchange_form sit upstream tool) =
      Response (ip_Status (handleExchange jwt_parse jwt_sign s now ?r)) (ip_Body (handleExchange jwt_parse jwt_sign s now ?r))"
    by (simp add: issuer_post_def IssuerServer_ServeHTTP_def Let_def form_request_def)
  have post: "iq_Method ?r = ''POST''" by (simp add: form_request_def)
  have status: "ip_Status (writeJSON 200 v) = 200" for v by (simp add: writeJSON_def)
  have ascii: "coerce_utf8 required_text = required_text" "coerce_utf8 ''invalid_request'' = ''invalid_request''"
    "coerce_utf8 ''invalid_grant'' = ''invalid_grant''"
    by (simp_all add: required_text_def coerce_ascii byte_in_def)
  have "show_int 200 = ''200''" by code_simp
  then show ?thesis
    by (cases "Issuer_Exchange jwt_parse jwt_sign (isv_issuer s) sit upstream tool (isv_exchangeTTL s) now")
      (simp_all add: HTTPCredentialBroker_Exchange_def resp handleExchange_def post parse_form_form_request [OF assms]
        exchange_form_gets Let_def exchange_response_error exchange_response_token ascii status)
qed

theorem broker_over_http_witness:
  "HTTPCredentialBroker_Exchange (issuer_post example_parse example_sign (\<lambda>_. None) (Inr ''0'')
      (NewIssuerServer example_issuer time_Minute time_Minute) time_zero) \<lparr>hb_endpoint = ''/token-exchange''\<rparr> ''sit'' ''erp'' ''pay'' =
    Inr ''down''"
proof -
  have "length (values_encode (form_values (exchange_form ''sit'' ''erp'' ''pay''))) \<le> 200"
    by code_simp
  then have "length (values_encode (form_values (exchange_form ''sit'' ''erp'' ''pay''))) \<le> max_form_size"
    by (rule order_trans) (simp add: max_form_size_def)
  note broker_over_http [OF this, of example_parse example_sign "\<lambda>_. None" "Inr ''0''"
    "NewIssuerServer example_issuer time_Minute time_Minute" time_zero]
  moreover have "coerce_utf8 ''down'' = ''down''" by (simp add: coerce_ascii byte_in_def)
  ultimately show ?thesis
    using example_exchange by (simp add: NewIssuerServer_def)
qed

text \<open>The issuing endpoint asks for exactly what the posted document says.\<close>

lemma issue_over_http:
  assumes "list_all (\<lambda>x. coerce_utf8 x = x) (agent # version # chain @ scope)"
    and "iq_Path r = ''/issue''" "iq_Method r = ''POST''"
    and "iq_Body r = json_text (JObj [(''agent'', JStr agent), (''delegation_chain'', JArr (map JStr chain)),
           (''scope'', JArr (map JStr scope)), (''agent_version'', JStr version)])"
  shows "IssuerServer_ServeHTTP jwt_parse jwt_sign keys_json rnd s now r =
    (case IssueSIT jwt_sign rnd (isv_issuer s) agent chain scope version (isv_sitTTL s) now of
       Inl err \<Rightarrow> writeJSONError 400 ''invalid_request'' err
     | Inr token \<Rightarrow> writeJSON 200 (json_of_issueResponse token (whole_seconds (isv_sitTTL s))))"
proof -
  let ?j = "JObj [(''agent'', JStr agent), (''delegation_chain'', JArr (map JStr chain)),
     (''scope'', JArr (map JStr scope)), (''agent_version'', JStr version)]"
  have zero: "fold max (map (\<lambda>x. 0) xs) n = (n :: nat)" for xs :: "string list" and n
    by (induction xs arbitrary: n) auto
  have "json_ok ?j" by (simp add: list_all_iff)
  moreover have "json_depth ?j \<le> max_depth" by (simp add: max_depth_def comp_def zero)
  moreover have "utf8_json ?j" using assms(1) by (simp add: coerce_ascii byte_in_def list_all_iff)
  ultimately have "first_json (iq_Body r) = Some ?j"
    unfolding assms(4) by (simp only: first_json_text coerce_json_id)
  moreover have "dec_elems str_elem (map JStr xs) = Some xs" for xs
    by (simp add: dec_elems_iff)
  ultimately have "issue_request (iq_Body r) =
      Some \<lparr>ir_Agent = agent, ir_DelegationChain = chain, ir_Scope = scope, ir_AgentVersion = version\<rparr>"
    by (simp add: issue_request_def issueRequest_fields_def dec_simps)
  then show ?thesis
    by (simp add: IssuerServer_ServeHTTP_def handleIssue_def assms(2,3) split: sum.split)
qed

end
