(* ===== verification/HD_Policy.thy ===== *)
theory HD_Policy
  imports HD_Types Go_Json_Text
begin

text \<open>
  \<^verbatim>\<open>pkg/policy\<close>: the policy decision point backed by an embedded Rego evaluator. Compiling a bundle and
  evaluating a prepared query are the library's, the arguments \<open>compile\<close> (what compiling the
  bundle at a path gives at that moment) and \<open>eval\<close>; a query answers with a list of results, each
  a list of expression values, where \<open>None\<close> is a value that cannot be encoded as JSON.

  The lemmas show that \<^verbatim>\<open>Decide\<close> fails closed on every path but one, and that loading obeys the
  contract of the locale \<open>policy_loader\<close>, which the verifying loader of \<^verbatim>\<open>pkg/policyservice\<close> shares.
\<close>

section \<open>The decider\<close>

record 'pq OPADecider =
  opa_prepared :: "'pq option"
  opa_path :: string

definition NewOPADecider :: "'pq OPADecider" where
  "NewOPADecider = \<lparr>opa_prepared = None, opa_path = []\<rparr>"

definition OPADecider_Load :: "(string \<Rightarrow> error + 'pq) \<Rightarrow> string \<Rightarrow> 'pq OPADecider \<Rightarrow> error option \<times> 'pq OPADecider" where
  "OPADecider_Load compile path d =
     (case compile path of
        Inl err \<Rightarrow> (Some (''compile policy bundle at '' @ quoteq path @ '': '' @ err), d)
      | Inr pq \<Rightarrow> (None, d\<lparr>opa_path := path, opa_prepared := Some pq\<rparr>))"

definition OPADecider_Ready :: "'pq OPADecider \<Rightarrow> error option" where
  "OPADecider_Ready d = (if opa_prepared d = None then Some ''no policy bundle loaded'' else None)"

definition OPADecider_Reload :: "(string \<Rightarrow> error + 'pq) \<Rightarrow> 'pq OPADecider \<Rightarrow> error option \<times> 'pq OPADecider" where
  "OPADecider_Reload compile d =
     (if opa_path d = [] then (Some ''reload called before an initial Load'', d)
      else OPADecider_Load compile (opa_path d) d)"

record regoDecision =
  rd_Outcome :: string
  rd_PolicyID :: string
  rd_Reason :: string
  rd_Obligations :: "Obligation list"

definition rego_fields :: "regoDecision field list" where
  "rego_fields =
     [(''outcome'', dec_str (\<lambda>x. rd_Outcome_update (\<lambda>_. x))),
      (''policy_id'', dec_str (\<lambda>x. rd_PolicyID_update (\<lambda>_. x))),
      (''reason'', dec_str (\<lambda>x. rd_Reason_update (\<lambda>_. x))),
      (''obligations'', dec_slice obligation_elem (\<lambda>x. rd_Obligations_update (\<lambda>_. x)))]"

definition rego_decision :: "string \<Rightarrow> regoDecision option" where
  "rego_decision raw =
     (case parse_json raw of
        None \<Rightarrow> None
      | Some v \<Rightarrow> dec_struct rego_fields v \<lparr>rd_Outcome = [], rd_PolicyID = [], rd_Reason = [], rd_Obligations = []\<rparr>)"

definition pdp_deny :: "string \<Rightarrow> string \<Rightarrow> DecisionResponse" where
  "pdp_deny policyID reason =
     zero_DecisionResponse\<lparr>dr_Outcome := OutcomeDeny, dr_PolicyID := policyID, dr_Reason := reason\<rparr>"

text \<open>The document a policy sees: the request encoded and decoded again, \<open>None\<close> if either fails.\<close>

definition policy_input :: "DecisionRequest \<Rightarrow> json option" where
  "policy_input req =
     (case json_of_request req of
        None \<Rightarrow> None
      | Some j \<Rightarrow> (case parse_json (json_text j) of None \<Rightarrow> None | Some v \<Rightarrow> any_of v))"

type_synonym 'pq rego_eval = "'pq \<Rightarrow> json \<Rightarrow> error + json option list list"

definition OPADecider_Decide :: "'pq rego_eval \<Rightarrow> 'pq OPADecider \<Rightarrow> DecisionRequest \<Rightarrow> DecisionResponse" where
  "OPADecider_Decide eval d req =
     (case opa_prepared d of
        None \<Rightarrow> pdp_deny ''no_policy_loaded'' ''no policy bundle has been loaded''
      | Some pq \<Rightarrow>
          (case policy_input req of
             None \<Rightarrow> pdp_deny ''input_marshal_error'' ''could not build policy input''
           | Some input \<Rightarrow>
               (case eval pq input of
                  Inl err \<Rightarrow> pdp_deny ''policy_eval_error'' (''policy evaluation failed: '' @ err)
                | Inr ((Some value # _) # _) \<Rightarrow>
                    (case rego_decision (json_text value) of
                       None \<Rightarrow> pdp_deny ''result_parse_error'' ''policy result did not match the expected shape''
                     | Some rd \<Rightarrow>
                         (let resp = zero_DecisionResponse\<lparr>dr_PolicyID := rd_PolicyID rd, dr_Reason := rd_Reason rd\<rparr>
                          in if rd_Outcome rd = OutcomeAllow then resp\<lparr>dr_Outcome := OutcomeAllow\<rparr>
                             else if rd_Outcome rd = OutcomeAllowWithObligations then
                               resp\<lparr>dr_Outcome := OutcomeAllowWithObligations, dr_Obligations := rd_Obligations rd\<rparr>
                             else if rd_Outcome rd = OutcomeDeny then resp\<lparr>dr_Outcome := OutcomeDeny\<rparr>
                             else pdp_deny ''unrecognized_outcome''
                               (''policy returned unrecognized outcome '' @ quoteq (rd_Outcome rd))))
                | Inr ((None # _) # _) \<Rightarrow> pdp_deny ''result_marshal_error'' ''could not read policy result''
                | Inr _ \<Rightarrow> pdp_deny ''policy_undefined'' ''policy did not produce a decision for this input'')))"

section \<open>The contract of a loader\<close>

text \<open>
  \<open>load\<close> and \<open>reload\<close> of \<^verbatim>\<open>policy.Loader\<close> in an environment, and the policy in force. A failed load leaves
  the policy in force alone; a successful one puts what the environment holds at that path in
  force; reloading repeats the last successful path.
\<close>

locale policy_loader =
  fixes load :: "'env \<Rightarrow> string \<Rightarrow> 's \<Rightarrow> error option \<times> 's"
    and reload :: "'env \<Rightarrow> 's \<Rightarrow> error option \<times> 's"
    and in_force :: "'s \<Rightarrow> 'p option"
    and at_path :: "'env \<Rightarrow> string \<Rightarrow> 'p option"
  assumes load_fails: "load env path s = (Some e, s') \<Longrightarrow> in_force s' = in_force s"
    and load_succeeds: "load env path s = (None, s') \<Longrightarrow> in_force s' = at_path env path \<and> at_path env path \<noteq> None"
    and reload_fails: "reload env s = (Some e, s') \<Longrightarrow> in_force s' = in_force s"
    and reload_succeeds: "reload env s = (None, s') \<Longrightarrow> \<exists>path. in_force s' = at_path env path \<and> at_path env path \<noteq> None"
begin

text \<open>Any sequence of loads and reloads, each in the environment of its moment.\<close>

fun load_step :: "'env \<Rightarrow> string option \<Rightarrow> 's \<Rightarrow> error option \<times> 's" where
  "load_step env None s = reload env s"
| "load_step env (Some path) s = load env path s"

fun loads :: "('env \<times> string option) list \<Rightarrow> 's \<Rightarrow> 's" where
  "loads [] s = s"
| "loads ((env, op) # ops) s = loads ops (snd (load_step env op s))"

lemma load_step_in_force:
  "in_force (snd (load_step env op s)) = in_force s \<or>
     (\<exists>path. in_force (snd (load_step env op s)) = at_path env path \<and> at_path env path \<noteq> None)"
proof -
  obtain r s' where r: "load_step env op s = (r, s')" by fastforce
  show ?thesis
    using r load_fails load_succeeds reload_fails reload_succeeds by (cases op; cases r) (simp; metis)+
qed

text \<open>What is in force after a run is what was in force before it, or what some environment of the run held.\<close>

lemma loads_in_force:
  "in_force (loads ops s) = in_force s \<or>
     (\<exists>env path op. (env, op) \<in> set ops \<and> in_force (loads ops s) = at_path env path \<and> at_path env path \<noteq> None)"
proof (induction ops arbitrary: s)
  case (Cons op ops)
  obtain env o' where op: "op = (env, o')" by (cases op)
  show ?case
    using Cons.IH [of "snd (load_step env o' s)"] load_step_in_force [of env o' s]
    by (simp add: op) metis
qed simp

lemma loads_keep: "in_force s \<noteq> None \<Longrightarrow> in_force (loads ops s) \<noteq> None"
  using loads_in_force [of ops s] by metis

end

definition opa_at_path :: "(string \<Rightarrow> error + 'pq) \<Rightarrow> string \<Rightarrow> 'pq option" where
  "opa_at_path compile path = (case compile path of Inl e \<Rightarrow> None | Inr pq \<Rightarrow> Some pq)"

interpretation opa_loader: policy_loader OPADecider_Load OPADecider_Reload opa_prepared opa_at_path
proof unfold_locales
  fix env :: "string \<Rightarrow> error + 'pq" and s s' :: "'pq OPADecider"
  assume "OPADecider_Reload env s = (None, s')"
  then show "\<exists>path. opa_prepared s' = opa_at_path env path \<and> opa_at_path env path \<noteq> None"
    by (intro exI [of _ "opa_path s"])
      (auto simp: OPADecider_Load_def OPADecider_Reload_def opa_at_path_def split: sum.splits if_splits)
qed (auto simp: OPADecider_Load_def OPADecider_Reload_def opa_at_path_def split: sum.splits if_splits)

section \<open>Properties\<close>

lemmas outcome_defs = OutcomeAllow_def OutcomeAllowWithObligations_def OutcomeDeny_def

text \<open>What the policy in force says of a request, when it says anything well formed.\<close>

definition policy_says :: "'pq rego_eval \<Rightarrow> 'pq OPADecider \<Rightarrow> DecisionRequest \<Rightarrow> regoDecision option" where
  "policy_says eval d req =
     (case (opa_prepared d, policy_input req) of
        (Some pq, Some input) \<Rightarrow>
          (case eval pq input of
             Inr ((Some value # _) # _) \<Rightarrow> rego_decision (json_text value)
           | _ \<Rightarrow> None)
      | _ \<Rightarrow> None)"

lemma pdp_deny_sel [simp]:
  "dr_Outcome (pdp_deny p r) = OutcomeDeny" "dr_Obligations (pdp_deny p r) = []" "dr_PolicyID (pdp_deny p r) = p"
  by (simp_all add: pdp_deny_def zero_DecisionResponse_def)

lemma Decide_policy_says:
  "dr_Outcome (OPADecider_Decide eval d req) =
     (case policy_says eval d req of
        Some rd \<Rightarrow> if rd_Outcome rd \<in> {OutcomeAllow, OutcomeAllowWithObligations} then rd_Outcome rd else OutcomeDeny
      | None \<Rightarrow> OutcomeDeny)"
  "dr_Obligations (OPADecider_Decide eval d req) =
     (case policy_says eval d req of
        Some rd \<Rightarrow> if rd_Outcome rd = OutcomeAllowWithObligations then rd_Obligations rd else []
      | None \<Rightarrow> [])"
  by (auto simp: OPADecider_Decide_def policy_says_def Let_def zero_DecisionResponse_def outcome_defs
      split: option.splits sum.splits list.splits)

text \<open>C9. The decision point fails closed: it always answers with one of the three outcomes, and allows a
  call, with or without obligations, exactly when a policy is loaded, its evaluation of the
  request succeeded, and the value of the decision rule decodes to an object that says so; its
  obligations are then the policy's, all of them and in order, and it has none otherwise.\<close>

theorem Decide_fails_closed:
  "dr_Outcome (OPADecider_Decide eval d req) \<in> {OutcomeAllow, OutcomeAllowWithObligations, OutcomeDeny} \<and>
   (dr_Outcome (OPADecider_Decide eval d req) = OutcomeAllow \<longleftrightarrow>
      (\<exists>rd. policy_says eval d req = Some rd \<and> rd_Outcome rd = OutcomeAllow)) \<and>
   (dr_Outcome (OPADecider_Decide eval d req) = OutcomeAllowWithObligations \<longleftrightarrow>
      (\<exists>rd. policy_says eval d req = Some rd \<and> rd_Outcome rd = OutcomeAllowWithObligations)) \<and>
   dr_Obligations (OPADecider_Decide eval d req) =
     (case policy_says eval d req of
        Some rd \<Rightarrow> if rd_Outcome rd = OutcomeAllowWithObligations then rd_Obligations rd else []
      | None \<Rightarrow> [])"
  by (auto simp: Decide_policy_says outcome_defs split: option.splits)

text \<open>Once a bundle is loaded, no sequence of further loads and reloads, each with whatever the disk
  holds at its moment, leaves the decision point without a policy: it stays ready, and what is in
  force is the policy it had or one that some bundle of the sequence compiled to.\<close>

lemma OPADecider_stays_ready:
  assumes "OPADecider_Ready d = None"
  shows "OPADecider_Ready (opa_loader.loads ops d) = None \<and>
    (opa_prepared (opa_loader.loads ops d) = opa_prepared d \<or>
      (\<exists>compile path op pq. (compile, op) \<in> set ops \<and> compile path = Inr pq \<and>
         opa_prepared (opa_loader.loads ops d) = Some pq))"
proof
  show "OPADecider_Ready (opa_loader.loads ops d) = None"
    using assms opa_loader.loads_keep [of d ops] by (simp add: OPADecider_Ready_def split: if_splits)
  have at: "opa_at_path compile path = Some pq \<longleftrightarrow> compile path = Inr pq"
    for compile path and pq :: 'a
    by (simp add: opa_at_path_def split: sum.splits)
  show "opa_prepared (opa_loader.loads ops d) = opa_prepared d \<or>
      (\<exists>compile path op pq. (compile, op) \<in> set ops \<and> compile path = Inr pq \<and>
         opa_prepared (opa_loader.loads ops d) = Some pq)"
    using opa_loader.loads_in_force [of ops d] by (metis at not_Some_eq)
qed

text \<open>A bundle loads, then a broken edit is reloaded twice.\<close>

end
