(* ===== verification/HD_Mcp.thy ===== *)
theory HD_Mcp
  imports HD_Types Go_Json_Text
begin

text \<open>
  The interfaces and the tool index of \<^verbatim>\<open>pkg/mcp\<close> (\<^verbatim>\<open>mcp.go\<close>, \<^verbatim>\<open>handler.go\<close>, \<^verbatim>\<open>registry.go\<close>) and its
  egress control (\<^verbatim>\<open>egress.go\<close>). What an upstream does when it is called is its own: an upstream is
  a record of its name and of two operations in the state monad over the world \<open>'w\<close>, everything
  outside the gateway.

  The lemmas show what the index of a registry says after a refresh: a tool resolves exactly when
  it is listed, and to the last upstream that lists it; a refresh that fails changes nothing. The
  egress control never hands out a connection to a link-local address.
\<close>

section \<open>\<^verbatim>\<open>mcp.go\<close> and \<^verbatim>\<open>handler.go\<close>\<close>

definition ProtocolVersionCurrent :: string where
  "ProtocolVersionCurrent = ''2026-07-28''"

record 'w Upstream =
  up_Name :: string
  up_ListTools :: "('w, error + Tool list) state"
  up_CallTool :: "ToolCall \<Rightarrow> ('w, error + ToolResult) state"

record Implementation =
  impl_Name :: string
  impl_Version :: string

record CallContext =
  cc_Credential :: string
  cc_ClientInfo :: "Implementation option"
  cc_ProtocolVersion :: string
  cc_RequestID :: string

record ListToolsResult =
  lt_Tools :: "Tool list"
  lt_NextCursor :: string

record ProtocolError =
  pe_Code :: int
  pe_Message :: string

text \<open>The errors a \<^verbatim>\<open>Handler\<close> returns, as \<^verbatim>\<open>errors.As\<close> tells them apart.\<close>

datatype handler_error = Protocol ProtocolError | Other error

section \<open>\<^verbatim>\<open>registry.go\<close>\<close>

record 'w StaticRegistry =
  sr_upstreams :: "'w Upstream list"
  sr_byTool :: "string \<rightharpoonup> 'w Upstream"
  sr_tools :: "Tool list"

fun index_tools :: "'w Upstream \<Rightarrow> Tool list \<Rightarrow> (string \<rightharpoonup> 'w Upstream) \<times> Tool list \<Rightarrow> (string \<rightharpoonup> 'w Upstream) \<times> Tool list" where
  "index_tools u [] (index, all) = (index, all)"
| "index_tools u (t # ts) (index, all) = index_tools u ts (index(tool_Name t \<mapsto> u), all @ [t])"

fun refresh_loop :: "'w Upstream list \<Rightarrow> (string \<rightharpoonup> 'w Upstream) \<times> Tool list \<Rightarrow>
    ('w, error + (string \<rightharpoonup> 'w Upstream) \<times> Tool list) state" where
  "refresh_loop [] acc = State_Monad.return (Inr acc)"
| "refresh_loop (u # us) acc =
     do {
       r \<leftarrow> up_ListTools u;
       case r of
         Inl err \<Rightarrow> State_Monad.return (Inl err)
       | Inr tools \<Rightarrow> refresh_loop us (index_tools u tools acc)
     }"

definition StaticRegistry_Refresh :: "'w StaticRegistry \<Rightarrow> ('w, error option \<times> 'w StaticRegistry) state" where
  "StaticRegistry_Refresh r =
     do {
       res \<leftarrow> refresh_loop (sr_upstreams r) (Map.empty, []);
       State_Monad.return (case res of
           Inl err \<Rightarrow> (Some err, r)
         | Inr (index, all) \<Rightarrow> (None, r\<lparr>sr_byTool := index, sr_tools := all\<rparr>))
     }"

definition NewStaticRegistry :: "'w Upstream list \<Rightarrow> ('w, error + 'w StaticRegistry) state" where
  "NewStaticRegistry upstreams =
     do {
       res \<leftarrow> StaticRegistry_Refresh \<lparr>sr_upstreams = upstreams, sr_byTool = Map.empty, sr_tools = []\<rparr>;
       State_Monad.return (case res of (Some err, _) \<Rightarrow> Inl err | (None, r) \<Rightarrow> Inr r)
     }"

definition StaticRegistry_Upstreams :: "'w StaticRegistry \<Rightarrow> 'w Upstream list" where
  "StaticRegistry_Upstreams r = sr_upstreams r"

definition StaticRegistry_Resolve :: "'w StaticRegistry \<Rightarrow> string \<Rightarrow> 'w Upstream option" where
  "StaticRegistry_Resolve r toolName = sr_byTool r toolName"

definition StaticRegistry_Tools :: "'w StaticRegistry \<Rightarrow> Tool list" where
  "StaticRegistry_Tools r = sr_tools r"

section \<open>\<^verbatim>\<open>egress.go\<close>\<close>

text \<open>
  A connection is known here by the address of its remote end: an IP address (of a TCP or UDP
  end, held as its 4 or 16 bytes) or something else. \<^verbatim>\<open>net.IP.IsLinkLocalUnicast\<close> first looks for an
  IPv4 address, also in its 16-byte form.
\<close>

datatype remote_addr = TCPAddr "nat list" | UDPAddr "nat list" | OtherAddr

definition remoteIP :: "remote_addr \<Rightarrow> nat list option" where
  "remoteIP a = (case a of TCPAddr ip \<Rightarrow> Some ip | UDPAddr ip \<Rightarrow> Some ip | OtherAddr \<Rightarrow> None)"

definition ip_to4 :: "nat list \<Rightarrow> nat list option" where
  "ip_to4 ip =
     (if length ip = 4 then Some ip
      else if length ip = 16 \<and> take 12 ip = replicate 10 0 @ [255, 255] then Some (drop 12 ip)
      else None)"

definition isLinkLocalUnicast :: "nat list \<Rightarrow> bool" where
  "isLinkLocalUnicast ip =
     (case ip_to4 ip of
        Some ip4 \<Rightarrow> ip4 ! 0 = 169 \<and> ip4 ! 1 = 254
      | None \<Rightarrow> length ip = 16 \<and> ip ! 0 = 254 \<and> ip ! 1 div 64 = 2)"

text \<open>
  The result of a dial: the connection, or the reason it was refused; \<open>show_ip\<close> is the text of an
  address. A refused connection is closed.
\<close>

datatype 'c dialled = Connected 'c | DialFailed error | DialRefused 'c error

definition blockedDial ::
  "(nat list \<Rightarrow> string) \<Rightarrow> ('c \<Rightarrow> remote_addr) \<Rightarrow> (string \<Rightarrow> string \<Rightarrow> ('w, error + 'c) state) \<Rightarrow>
     string \<Rightarrow> string \<Rightarrow> ('w, 'c dialled) state" where
  "blockedDial show_ip remoteAddr dial network addr =
     do {
       r \<leftarrow> dial network addr;
       State_Monad.return (case r of
           Inl err \<Rightarrow> DialFailed err
         | Inr conn \<Rightarrow>
             (case remoteIP (remoteAddr conn) of
                Some ip \<Rightarrow>
                  if isLinkLocalUnicast ip then
                    DialRefused conn (''connection to '' @ addr @ '' refused: '' @ show_ip ip @
                      '' is a link-local address, reserved for cloud metadata services and always blocked (doc 05-tool-gateway.md '' @
                      [CHR 0xC2, CHR 0xA7] @ ''3)'')
                  else Connected conn
              | None \<Rightarrow> Connected conn))
     }"

section \<open>The index\<close>

text \<open>What the catalogues say: the owner of a name is the last upstream that lists it.\<close>

fun catalogue_owner :: "('w Upstream \<times> Tool list) list \<Rightarrow> string \<Rightarrow> 'w Upstream option" where
  "catalogue_owner [] name = None"
| "catalogue_owner ((u, ts) # cs) name =
     (case catalogue_owner cs name of
        Some v \<Rightarrow> Some v
      | None \<Rightarrow> if name \<in> tool_Name ` set ts then Some u else None)"

lemma index_tools_eq:
  "index_tools u ts (index, all) =
     ((\<lambda>name. if name \<in> tool_Name ` set ts then Some u else index name), all @ ts)"
  by (induction ts arbitrary: index all) (auto simp: fun_eq_iff)

text \<open>The upstreams answer one after the other; the answers are what the loop indexes.\<close>

fun catalogues :: "'w Upstream list \<Rightarrow> ('w, error + ('w Upstream \<times> Tool list) list) state" where
  "catalogues [] = State_Monad.return (Inr [])"
| "catalogues (u # us) =
     do {
       r \<leftarrow> up_ListTools u;
       case r of
         Inl err \<Rightarrow> State_Monad.return (Inl err)
       | Inr tools \<Rightarrow>
           do {
             rest \<leftarrow> catalogues us;
             State_Monad.return (case rest of Inl err \<Rightarrow> Inl err | Inr cs \<Rightarrow> Inr ((u, tools) # cs))
           }
     }"

definition indexed :: "('w Upstream \<times> Tool list) list \<Rightarrow> (string \<rightharpoonup> 'w Upstream) \<times> Tool list \<Rightarrow> (string \<rightharpoonup> 'w Upstream) \<times> Tool list" where
  "indexed cs acc = (fst acc ++ catalogue_owner cs, snd acc @ concat (map snd cs))"

lemma indexed_Nil [simp]: "indexed [] acc = acc"
  by (simp add: indexed_def fun_eq_iff map_add_def)

lemma indexed_Cons [simp]: "indexed ((u, ts) # cs) acc = indexed cs (index_tools u ts acc)"
  by (cases acc) (auto simp: indexed_def index_tools_eq fun_eq_iff map_add_def split: option.splits)

lemma refresh_loop_catalogues:
  "run_state (refresh_loop us acc) w =
     (case run_state (catalogues us) w of
        (Inl err, w') \<Rightarrow> (Inl err, w')
      | (Inr cs, w') \<Rightarrow> (Inr (indexed cs acc), w'))"
proof (induction us arbitrary: acc w)
  case (Cons u us)
  obtain r w' where r: "run_state (up_ListTools u) w = (r, w')" by fastforce
  show ?case
  proof (cases r)
    case (Inr tools)
    obtain r2 w2 where "run_state (catalogues us) w' = (r2, w2)" by fastforce
    with Inr r show ?thesis by (cases r2) (simp_all add: Cons.IH)
  qed (simp add: r)
qed simp

lemma Refresh_catalogues:
  "run_state (StaticRegistry_Refresh r) w =
     (case run_state (catalogues (sr_upstreams r)) w of
        (Inl err, w') \<Rightarrow> ((Some err, r), w')
      | (Inr cs, w') \<Rightarrow> ((None, r\<lparr>sr_byTool := catalogue_owner cs, sr_tools := concat (map snd cs)\<rparr>), w'))"
  by (simp add: StaticRegistry_Refresh_def refresh_loop_catalogues indexed_def split: prod.splits sum.splits)

lemma catalogues_upstreams: "run_state (catalogues us) w = (Inr cs, w') \<Longrightarrow> map fst cs = us"
  by (induction us arbitrary: w cs w') (auto split: prod.splits sum.splits)

lemma catalogue_owner_None_iff: "catalogue_owner cs name = None \<longleftrightarrow> name \<notin> tool_Name ` set (concat (map snd cs))"
  by (induction cs name rule: catalogue_owner.induct) (auto split: option.splits)

lemma catalogue_owner_last:
  "catalogue_owner cs name = Some u \<longleftrightarrow>
     (\<exists>pre ts post. cs = pre @ (u, ts) # post \<and> name \<in> tool_Name ` set ts \<and>
        name \<notin> tool_Name ` set (concat (map snd post)))"
proof (induction cs)
  case (Cons c cs)
  obtain v ts where c: "c = (v, ts)" by (cases c)
  have split: "(\<exists>pre ts' post. (v, ts) # cs = pre @ (u, ts') # post \<and> P ts' post) \<longleftrightarrow>
      (v = u \<and> P ts cs) \<or> (\<exists>pre ts' post. cs = pre @ (u, ts') # post \<and> P ts' post)" for P
    by (auto simp: Cons_eq_append_conv)
  show ?case
    unfolding c split catalogue_owner.simps Cons.IH [symmetric]
    using catalogue_owner_None_iff [of cs name]
    by (cases "catalogue_owner cs name") auto
qed simp

section \<open>Link-local addresses\<close>

lemma ip4_link_local:
  "length ip = 4 \<Longrightarrow> ip ! 0 = 169 \<and> ip ! 1 = 254 \<longleftrightarrow> (\<exists>c d. ip = [169, 254, c, d])"
  by (auto simp: eval_nat_numeral length_Suc_conv)

lemma ip_to4_Some_iff:
  "ip_to4 ip = Some v \<longleftrightarrow> length v = 4 \<and> (ip = v \<or> ip = replicate 10 0 @ [255, 255] @ v)"
proof
  assume "ip_to4 ip = Some v"
  then show "length v = 4 \<and> (ip = v \<or> ip = replicate 10 0 @ [255, 255] @ v)"
    by (auto simp: ip_to4_def split: if_splits) (metis append.assoc append_Cons append_Nil append_take_drop_id)
qed (auto simp: ip_to4_def)

lemma link_local_iff:
  "isLinkLocalUnicast ip \<longleftrightarrow>
     (\<exists>c d. ip = [169, 254, c, d] \<or> ip = replicate 10 0 @ [255, 255, 169, 254, c, d]) \<or>
     (\<exists>b rest. ip = 254 # b # rest \<and> length rest = 14 \<and> b \<in> {128..<192})"
proof (cases "ip_to4 ip")
  case (Some v)
  then have v: "length v = 4" and ip: "ip = v \<or> ip = replicate 10 0 @ [255, 255] @ v"
    by (auto simp: ip_to4_Some_iff)
  have "isLinkLocalUnicast ip \<longleftrightarrow> (\<exists>c d. v = [169, 254, c, d])"
    using Some ip4_link_local [OF v] by (simp add: isLinkLocalUnicast_def)
  moreover have "ip \<noteq> 254 # b # rest" if "length rest = 14" for b rest
    using ip v that by (auto simp: numeral_eq_Suc)
  ultimately show ?thesis using ip v by (auto dest: arg_cong [of _ _ length])
next
  case None
  then have "ip \<noteq> [169, 254, c, d]" "ip \<noteq> replicate 10 0 @ [255, 255, 169, 254, c, d]" for c d
    by (auto simp: ip_to4_def)
  moreover have "length ip = 16 \<and> ip ! 0 = 254 \<and> ip ! 1 div 64 = 2 \<longleftrightarrow>
      (\<exists>b rest. ip = 254 # b # rest \<and> length rest = 14 \<and> b \<in> {128..<192})"
    by (cases ip; cases "tl ip") auto
  ultimately show ?thesis using None by (simp add: isLinkLocalUnicast_def)
qed

section \<open>Properties\<close>

text \<open>After a successful \<^verbatim>\<open>Refresh\<close> a tool name resolves exactly when some upstream listed a tool of
  that name, and then to the last upstream that did; \<^verbatim>\<open>Tools\<close> is every listed tool in the order of
  the upstreams. A \<^verbatim>\<open>Refresh\<close> in which an upstream fails returns that error and leaves the registry
  as it was.\<close>

lemma Refresh_last_upstream_wins:
  "case run_state (catalogues (sr_upstreams r)) w of
     (Inl err, w') \<Rightarrow> run_state (StaticRegistry_Refresh r) w = ((Some err, r), w')
   | (Inr cs, w') \<Rightarrow>
       (\<exists>r'. run_state (StaticRegistry_Refresh r) w = ((None, r'), w') \<and>
          StaticRegistry_Upstreams r' = StaticRegistry_Upstreams r \<and>
          map fst cs = StaticRegistry_Upstreams r \<and>
          StaticRegistry_Tools r' = concat (map snd cs) \<and>
          (\<forall>name. StaticRegistry_Resolve r' name = None \<longleftrightarrow> name \<notin> tool_Name ` set (StaticRegistry_Tools r')) \<and>
          (\<forall>name u. StaticRegistry_Resolve r' name = Some u \<longleftrightarrow>
             (\<exists>pre ts post. cs = pre @ (u, ts) # post \<and> name \<in> tool_Name ` set ts \<and>
                name \<notin> tool_Name ` set (concat (map snd post)))))"
  using catalogues_upstreams [of "sr_upstreams r" w]
  by (auto simp: Refresh_catalogues StaticRegistry_Upstreams_def StaticRegistry_Tools_def StaticRegistry_Resolve_def
      catalogue_owner_None_iff catalogue_owner_last split: prod.splits sum.splits)

text \<open>C37. A dial through the egress control yields a connection exactly when the underlying dial does and
  the established connection is not one of TCP or UDP to a link-local address: neither in \<^verbatim>\<open>169.254.0.0/16\<close>, plain or in its
  IPv6 form, nor in \<^verbatim>\<open>fe80::/10\<close>. Such a connection is established and then refused, with an error that names the address dialled.\<close>

theorem blockedDial_no_link_local:
  "(fst (run_state (blockedDial show_ip remoteAddr dial network addr) w) = Connected conn \<longleftrightarrow>
      fst (run_state (dial network addr) w) = Inr conn \<and>
      \<not> (\<exists>ip. remoteAddr conn \<in> {TCPAddr ip, UDPAddr ip} \<and>
           ((\<exists>c d. ip = [169, 254, c, d] \<or> ip = replicate 10 0 @ [255, 255, 169, 254, c, d]) \<or>
            (\<exists>b rest. ip = 254 # b # rest \<and> length rest = 14 \<and> b \<in> {128..<192})))) \<and>
   ((\<exists>reason. fst (run_state (blockedDial show_ip remoteAddr dial network addr) w) = DialRefused conn (''connection to '' @ addr @ '' refused: '' @ reason)) \<longleftrightarrow>
      fst (run_state (dial network addr) w) = Inr conn \<and>
      (\<exists>ip. remoteAddr conn \<in> {TCPAddr ip, UDPAddr ip} \<and>
         ((\<exists>c d. ip = [169, 254, c, d] \<or> ip = replicate 10 0 @ [255, 255, 169, 254, c, d]) \<or>
          (\<exists>b rest. ip = 254 # b # rest \<and> length rest = 14 \<and> b \<in> {128..<192}))))"
  unfolding link_local_iff [symmetric]
  by (cases "run_state (dial network addr) w"; cases "remoteAddr conn")
    (auto simp: blockedDial_def remoteIP_def split: sum.splits if_splits remote_addr.splits)

end
