(* ===== verification/HD_Gateway.thy ===== *)
theory HD_Gateway
  imports HD_Registries HD_Usage HD_Provenance HD_Obligations HD_Mcp
begin

text \<open>
  \<^verbatim>\<open>internal/gateway/gateway.go\<close>: the handler that resolves, decides, records, enforces and forwards.
  The interfaces a \<^verbatim>\<open>Gateway\<close> is wired to are fields of its record: operations in the state monad
  over the world \<open>'w\<close>. What the gateway itself keeps between calls, the usage tracker and the
  provenance cache, is in the record \<open>gw_state\<close> beside the world. \<^verbatim>\<open>slog\<close> output is not modelled.

  The reference is the protocol of a mediated call, an inductive step relation on phases whose
  steps are the effects of a call on the outside: resolving the credential, asking for a
  decision, appending a record, exchanging a credential, calling an upstream. A gateway whose
  dependencies write down what is asked of them (\<open>traced_gateway\<close>) behaves as the plain one
  (\<open>traced_gateway_faithful\<close>), and what it writes down is a run of the protocol that ends in the phase its
  answer belongs to. The safety properties are properties of the protocol.
\<close>

section \<open>The gateway\<close>

record 'w Gateway =
  gw_identity :: "string \<Rightarrow> ('w, error + Subject) state"
  gw_pdp :: "int option \<Rightarrow> DecisionRequest \<Rightarrow> ('w, error + DecisionResponse) state"
  gw_auditLog :: "ActionRecord \<Rightarrow> ('w, error option) state"
  gw_registry :: "'w StaticRegistry"
  gw_upstreamProvenance :: "string \<rightharpoonup> Provenance"
  gw_decisionTimeout :: int
  gw_broker :: "(string \<Rightarrow> string \<Rightarrow> string \<Rightarrow> ('w, error + string) state) option"
  gw_toolReg :: ToolRegistry
  gw_agentReg :: AgentRegistry
  gw_now :: "('w, gotime) state"

record 'w gw_state =
  gs_usage :: usageTracker
  gs_prov :: provenanceCache
  gs_world :: 'w

text \<open>\<^verbatim>\<open>New\<close>: the wiring, and the state a new gateway starts in; \<open>now\<close> is the clock \<^verbatim>\<open>time.Now\<close>.\<close>

definition gateway_New ::
  "(string \<Rightarrow> ('w, error + Subject) state) \<Rightarrow> (int option \<Rightarrow> DecisionRequest \<Rightarrow> ('w, error + DecisionResponse) state) \<Rightarrow>
   (ActionRecord \<Rightarrow> ('w, error option) state) \<Rightarrow> 'w StaticRegistry \<Rightarrow> (string \<rightharpoonup> Provenance) \<Rightarrow> int \<Rightarrow>
   (string \<Rightarrow> string \<Rightarrow> string \<Rightarrow> ('w, error + string) state) option \<Rightarrow> ToolRegistry \<Rightarrow> AgentRegistry \<Rightarrow>
   ('w, gotime) state \<Rightarrow> 'w \<Rightarrow> 'w Gateway \<times> 'w gw_state" where
  "gateway_New ident pdp auditLog registry upstreamProvenance decisionTimeout broker toolReg agentReg now w =
     (\<lparr>gw_identity = ident, gw_pdp = pdp, gw_auditLog = auditLog, gw_registry = registry,
       gw_upstreamProvenance = upstreamProvenance, gw_decisionTimeout = decisionTimeout, gw_broker = broker,
       gw_toolReg = toolReg, gw_agentReg = agentReg, gw_now = now\<rparr>,
      \<lparr>gs_usage = newUsageTracker, gs_prov = newProvenanceCache, gs_world = w\<rparr>)"

text \<open>An operation of the world, run from the gateway.\<close>

definition world :: "('w, 'a) state \<Rightarrow> ('w gw_state, 'a) state" where
  "world m = State (\<lambda>s. case run_state m (gs_world s) of (x, w) \<Rightarrow> (x, s\<lparr>gs_world := w\<rparr>))"

definition gateway_decide :: "'w Gateway \<Rightarrow> DecisionRequest \<Rightarrow> ('w, error + DecisionResponse) state" where
  "gateway_decide g req =
     (if gw_decisionTimeout g \<le> 0 then gw_pdp g None req else gw_pdp g (Some (gw_decisionTimeout g)) req)"

text \<open>\<^verbatim>\<open>json.Marshal\<close> replaces what is not UTF-8 in the text.\<close>

definition textErrorResult :: "string \<Rightarrow> ToolResult" where
  "textErrorResult text =
     zero_ToolResult\<lparr>tr_Content := Some (JArr [JObj [(''text'', JStr (coerce_utf8 text)), (''type'', JStr ''text'')]]),
       tr_IsError := True\<rparr>"

definition deniedResult :: "string \<Rightarrow> ToolResult" where
  "deniedResult reason = textErrorResult (''denied: '' @ reason)"

definition failedResult :: "string \<Rightarrow> ToolResult" where
  "failedResult reason = textErrorResult reason"

definition taintArguments :: "provenanceCache \<Rightarrow> string \<Rightarrow> json gomap \<Rightarrow> gotime \<Rightarrow> Value gomap" where
  "taintArguments c subjectID arguments now =
     gm_map (\<lambda>k v. \<lparr>val_Data = v,
       val_Provenance = (case v of JStr s \<Rightarrow> prov_resolve c subjectID s now | _ \<Rightarrow> untrustedProvenance)\<rparr>) arguments"

definition recordResultProvenance ::
  "map_order \<Rightarrow> 'w Gateway \<Rightarrow> string \<Rightarrow> string \<Rightarrow> ToolResult \<Rightarrow> gotime \<Rightarrow> provenanceCache \<Rightarrow> provenanceCache" where
  "recordResultProvenance ord g subjectID upstreamName result now c =
     (let prov = (case gw_upstreamProvenance g upstreamName of
                    Some p \<Rightarrow> p
                  | None \<Rightarrow> \<lparr>prov_Source = upstreamName, prov_Trusted = False\<rparr>)
      in case tr_StructuredContent result of
           None \<Rightarrow> c
         | Some raw \<Rightarrow>
             (case any_of raw of
                None \<Rightarrow> c
              | Some decoded \<Rightarrow> recordTopLevelStrings ord c subjectID decoded prov now))"

definition agentDenyReason :: "'w Gateway \<Rightarrow> Subject \<Rightarrow> string option" where
  "agentDenyReason g subject =
     (case agentregistry_Lookup (gw_agentReg g) (sub_ID subject) of
        None \<Rightarrow> Some ''agent is not registered''
      | Some entry \<Rightarrow>
          if ae_Version entry \<noteq> [] \<and> sub_AgentVersion subject \<noteq> [] \<and> ae_Version entry \<noteq> sub_AgentVersion subject then
            Some (''agent is registered for version '' @ quoteq (ae_Version entry) @
                  '', but this instance asserts version '' @ quoteq (sub_AgentVersion subject))
          else None)"

section \<open>Refusals\<close>

text \<open>The record of a call that is refused before the policy is asked: no arguments, no metadata.\<close>

definition refusal_record :: "Subject \<Rightarrow> string \<Rightarrow> string \<Rightarrow> string \<Rightarrow> gotime \<Rightarrow> ActionRecord" where
  "refusal_record subject name policyID reason now =
     zero_ActionRecord\<lparr>rec_Timestamp := now, rec_Subject := subject,
       rec_Action := zero_Action\<lparr>act_Type := ''tool_call'', act_Tool := name\<rparr>,
       rec_Decision := zero_DecisionResponse\<lparr>dr_Outcome := OutcomeDeny, dr_PolicyID := policyID, dr_Reason := reason\<rparr>,
       rec_Outcome := RecordOutcomeDenied\<rparr>"

definition denyWithoutSubject ::
  "'w Gateway \<Rightarrow> string \<Rightarrow> string \<Rightarrow> string \<Rightarrow> gotime \<Rightarrow> ('w gw_state, handler_error + ToolResult) state" where
  "denyWithoutSubject g name policyID reason now =
     do {
       _ \<leftarrow> world (gw_auditLog g (refusal_record (zero_Subject\<lparr>sub_ID := ''unknown'', sub_Kind := SubjectKindAgent\<rparr>)
              name policyID reason now));
       State_Monad.return (Inr (deniedResult ''credential not recognized''))
     }"

definition denyUndeclaredAgent ::
  "'w Gateway \<Rightarrow> Subject \<Rightarrow> string \<Rightarrow> string \<Rightarrow> gotime \<Rightarrow> ('w gw_state, handler_error + ToolResult) state" where
  "denyUndeclaredAgent g subject name reason now =
     do {
       _ \<leftarrow> world (gw_auditLog g (refusal_record subject name ''agentregistry.undeclared'' reason now));
       State_Monad.return (Inr (deniedResult reason))
     }"

definition denyUndeclaredTool ::
  "'w Gateway \<Rightarrow> Subject \<Rightarrow> string \<Rightarrow> gotime \<Rightarrow> ('w gw_state, handler_error + ToolResult) state" where
  "denyUndeclaredTool g subject name now =
     do {
       _ \<leftarrow> world (gw_auditLog g (refusal_record subject name ''toolregistry.undeclared'' ''tool is not registered'' now));
       State_Monad.return (Inr (deniedResult ''tool is not registered''))
     }"

definition mismatch_reason :: "string \<Rightarrow> string \<Rightarrow> string \<Rightarrow> string" where
  "mismatch_reason name declaredUpstream actualUpstream =
     ''tool '' @ quoteq name @ '' is registered to upstream '' @ quoteq declaredUpstream @
     '', but would be routed to '' @ quoteq actualUpstream"

definition denyUpstreamMismatch ::
  "'w Gateway \<Rightarrow> Subject \<Rightarrow> string \<Rightarrow> string \<Rightarrow> string \<Rightarrow> gotime \<Rightarrow> ('w gw_state, handler_error + ToolResult) state" where
  "denyUpstreamMismatch g subject name declaredUpstream actualUpstream now =
     (let reason = mismatch_reason name declaredUpstream actualUpstream
      in do {
           _ \<leftarrow> world (gw_auditLog g (refusal_record subject name ''toolregistry.upstream_mismatch'' reason now));
           State_Monad.return (Inr (deniedResult reason))
         })"

section \<open>\<^verbatim>\<open>ListTools\<close>\<close>

definition allow_outcome :: "string \<Rightarrow> bool" where
  "allow_outcome x \<longleftrightarrow> x = OutcomeAllow \<or> x = OutcomeAllowWithObligations"

text \<open>The request for a decision on listing a tool: the usage is peeked at and not counted.\<close>

definition list_request :: "CallContext \<Rightarrow> Subject \<Rightarrow> ToolEntry \<Rightarrow> Tool \<Rightarrow> gotime \<Rightarrow> usageTracker \<Rightarrow> DecisionRequest" where
  "list_request cc subject entry tool now usage =
     \<lparr>req_Subject = subject,
      req_Action = zero_Action\<lparr>act_Type := ''tool_call'', act_Tool := tool_Name tool, act_Risk := te_Risk entry,
        act_DataClasses := te_DataClasses entry, act_RequiredScopes := te_Scopes entry\<rparr>,
      req_Context = \<lparr>ctx_SessionID = [], ctx_RequestID = cc_RequestID cc, ctx_Time = now,
        ctx_Usage = usagePeek usage (sub_ID subject) now\<rparr>\<rparr>"

fun list_loop :: "'w Gateway \<Rightarrow> CallContext \<Rightarrow> Subject \<Rightarrow> gotime \<Rightarrow> Tool list \<Rightarrow> Tool list \<Rightarrow> ('w gw_state, Tool list) state" where
  "list_loop g cc subject now [] visible = State_Monad.return visible"
| "list_loop g cc subject now (tool # tools) visible =
     (case toolregistry_Lookup (gw_toolReg g) (tool_Name tool) of
        None \<Rightarrow> list_loop g cc subject now tools visible
      | Some entry \<Rightarrow>
          do {
            usage \<leftarrow> gets_state gs_usage;
            r \<leftarrow> world (gateway_decide g (list_request cc subject entry tool now usage));
            case r of
              Inl err \<Rightarrow> list_loop g cc subject now tools visible
            | Inr decision \<Rightarrow>
                if allow_outcome (dr_Outcome decision) then list_loop g cc subject now tools (visible @ [tool])
                else list_loop g cc subject now tools visible
          })"

definition ListTools :: "'w Gateway \<Rightarrow> CallContext \<Rightarrow> string \<Rightarrow> ('w gw_state, handler_error + ListToolsResult) state" where
  "ListTools g cc cursor =
     do {
       r \<leftarrow> world (gw_identity g (cc_Credential cc));
       case r of
         Inl err \<Rightarrow> State_Monad.return (Inr \<lparr>lt_Tools = [], lt_NextCursor = []\<rparr>)
       | Inr subject \<Rightarrow>
           if agentDenyReason g subject \<noteq> None then State_Monad.return (Inr \<lparr>lt_Tools = [], lt_NextCursor = []\<rparr>)
           else do {
             now \<leftarrow> world (gw_now g);
             visible \<leftarrow> list_loop g cc subject now (StaticRegistry_Tools (gw_registry g)) [];
             State_Monad.return (Inr \<lparr>lt_Tools = visible, lt_NextCursor = []\<rparr>)
           }
     }"

section \<open>\<^verbatim>\<open>CallTool\<close>\<close>

definition action_record :: "gotime \<Rightarrow> Subject \<Rightarrow> Action \<Rightarrow> DecisionResponse \<Rightarrow> string \<Rightarrow> ActionRecord" where
  "action_record now subject action decision outcome =
     zero_ActionRecord\<lparr>rec_Timestamp := now, rec_Subject := subject, rec_Action := action,
       rec_Decision := decision, rec_Outcome := outcome\<rparr>"

text \<open>A call that was allowed and then failed: a second record, and the failure is the answer.\<close>

definition fail_call ::
  "'w Gateway \<Rightarrow> Subject \<Rightarrow> Action \<Rightarrow> DecisionResponse \<Rightarrow> string \<Rightarrow> ('w gw_state, handler_error + ToolResult) state" where
  "fail_call g subject action decision reason =
     do {
       now \<leftarrow> world (gw_now g);
       _ \<leftarrow> world (gw_auditLog g (action_record now subject action decision RecordOutcomeFailed));
       State_Monad.return (Inr (failedResult reason))
     }"

definition forward_call ::
  "map_order \<Rightarrow> 'w Gateway \<Rightarrow> Subject \<Rightarrow> 'w Upstream \<Rightarrow> string \<Rightarrow> Action \<Rightarrow> DecisionResponse \<Rightarrow> gotime \<Rightarrow> string \<Rightarrow>
     ('w gw_state, handler_error + ToolResult) state" where
  "forward_call ord g subject upstream name action decision now credential =
     do {
       r \<leftarrow> world (up_CallTool upstream \<lparr>tc_Tool = name, tc_Arguments = act_Arguments action, tc_Credential = credential\<rparr>);
       case r of
         Inl callErr \<Rightarrow> fail_call g subject action decision (''upstream call failed: '' @ callErr)
       | Inr result \<Rightarrow>
           (let result = (if dr_Outcome decision = OutcomeAllowWithObligations
                          then applyObligations result (dr_Obligations decision) else result)
            in do {
                 modify_state (gs_prov_update (recordResultProvenance ord g (sub_ID subject) (up_Name upstream) result now));
                 State_Monad.return (Inr result)
               })
     }"

definition act_on_decision ::
  "map_order \<Rightarrow> 'w Gateway \<Rightarrow> CallContext \<Rightarrow> Subject \<Rightarrow> 'w Upstream \<Rightarrow> string \<Rightarrow> Action \<Rightarrow> DecisionResponse \<Rightarrow> gotime \<Rightarrow>
     ('w gw_state, handler_error + ToolResult) state" where
  "act_on_decision ord g cc subject upstream name action decision now =
     (case gw_broker g of
        None \<Rightarrow> forward_call ord g subject upstream name action decision now []
      | Some exchange \<Rightarrow>
          do {
            r \<leftarrow> world (exchange (cc_Credential cc) (up_Name upstream) name);
            case r of
              Inl err \<Rightarrow> fail_call g subject action decision (''could not obtain a scoped upstream credential: '' @ err)
            | Inr minted \<Rightarrow> forward_call ord g subject upstream name action decision now minted
          })"

text \<open>The decision a call is held to: an error of the decision point is a denial.\<close>

definition effective_decision :: "error + DecisionResponse \<Rightarrow> DecisionResponse" where
  "effective_decision r =
     (case r of
        Inl err \<Rightarrow> zero_DecisionResponse\<lparr>dr_Outcome := OutcomeDeny, dr_PolicyID := ''pdp.error'', dr_Reason := err\<rparr>
      | Inr decision \<Rightarrow> decision)"

definition call_action :: "provenanceCache \<Rightarrow> Subject \<Rightarrow> string \<Rightarrow> ToolEntry \<Rightarrow> json gomap \<Rightarrow> gotime \<Rightarrow> Action" where
  "call_action c subject name entry arguments now =
     zero_Action\<lparr>act_Type := ''tool_call'', act_Tool := name,
       act_Arguments := Some (taintArguments c (sub_ID subject) arguments now), act_Risk := te_Risk entry,
       act_DataClasses := te_DataClasses entry, act_RequiredScopes := te_Scopes entry\<rparr>"

definition call_request :: "CallContext \<Rightarrow> Subject \<Rightarrow> Action \<Rightarrow> gotime \<Rightarrow> Usage \<Rightarrow> DecisionRequest" where
  "call_request cc subject action now usage =
     \<lparr>req_Subject = subject, req_Action = action,
      req_Context = \<lparr>ctx_SessionID = [], ctx_RequestID = cc_RequestID cc, ctx_Time = now, ctx_Usage = usage\<rparr>\<rparr>"

text \<open>\<^verbatim>\<open>g.usage.usage\<close> counts the call.\<close>

definition count_usage :: "string \<Rightarrow> gotime \<Rightarrow> ('w gw_state, Usage) state" where
  "count_usage subjectID now =
     State (\<lambda>s. case usage_usage (gs_usage s) subjectID now of (u, t) \<Rightarrow> (u, s\<lparr>gs_usage := t\<rparr>))"

definition denial_reason :: "DecisionResponse \<Rightarrow> string" where
  "denial_reason decision = (if dr_Reason decision = [] then ''denied by policy'' else dr_Reason decision)"

definition call_declared ::
  "map_order \<Rightarrow> 'w Gateway \<Rightarrow> CallContext \<Rightarrow> Subject \<Rightarrow> 'w Upstream \<Rightarrow> ToolEntry \<Rightarrow> string \<Rightarrow> json gomap \<Rightarrow> gotime \<Rightarrow>
     ('w gw_state, handler_error + ToolResult) state" where
  "call_declared ord g cc subject upstream entry name arguments now =
     do {
       c \<leftarrow> gets_state gs_prov;
       usage \<leftarrow> count_usage (sub_ID subject) now;
       let action = call_action c subject name entry arguments now;
       r \<leftarrow> world (gateway_decide g (call_request cc subject action now usage));
       let decision = effective_decision r;
       let allowed = allow_outcome (dr_Outcome decision);
       err \<leftarrow> world (gw_auditLog g (action_record now subject action decision
                (if allowed then RecordOutcomeAllowed else RecordOutcomeDenied)));
       case err of
         Some e \<Rightarrow> State_Monad.return (Inr (deniedResult (''could not durably record this decision, denying: '' @ e)))
       | None \<Rightarrow>
           if \<not> allowed then State_Monad.return (Inr (deniedResult (denial_reason decision)))
           else act_on_decision ord g cc subject upstream name action decision now
     }"

definition CallTool ::
  "map_order \<Rightarrow> 'w Gateway \<Rightarrow> CallContext \<Rightarrow> string \<Rightarrow> json gomap \<Rightarrow> ('w gw_state, handler_error + ToolResult) state" where
  "CallTool ord g cc name arguments =
     do {
       now \<leftarrow> world (gw_now g);
       r \<leftarrow> world (gw_identity g (cc_Credential cc));
       case r of
         Inl err \<Rightarrow> denyWithoutSubject g name ''identity.unresolved'' err now
       | Inr subject \<Rightarrow>
           (case agentDenyReason g subject of
              Some reason \<Rightarrow> denyUndeclaredAgent g subject name reason now
            | None \<Rightarrow>
                (case StaticRegistry_Resolve (gw_registry g) name of
                   None \<Rightarrow> State_Monad.return (Inl (Protocol \<lparr>pe_Code = -32602, pe_Message = ''unknown tool: '' @ name\<rparr>))
                 | Some upstream \<Rightarrow>
                     (case toolregistry_Lookup (gw_toolReg g) name of
                        None \<Rightarrow> denyUndeclaredTool g subject name now
                      | Some entry \<Rightarrow>
                          if te_Upstream entry \<noteq> [] \<and> te_Upstream entry \<noteq> up_Name upstream then
                            denyUpstreamMismatch g subject name (te_Upstream entry) (up_Name upstream) now
                          else call_declared ord g cc subject upstream entry name arguments now)))
     }"

end
