(* ===== verification/HD_Mediation.thy ===== *)
theory HD_Mediation
  imports HD_Gateway
begin

text \<open>
  What a call on the gateway does to the outside, and in which order. The effects of a call are
  written down by a gateway whose dependencies are wrapped (\<open>traced_gateway\<close>); the wrapping changes
  no answer and no state (\<open>traced_gateway_faithful\<close>). The protocol of a mediated call is the inductive step
  relation \<open>mediation\<close>: every trace of \<^verbatim>\<open>CallTool\<close> is a run of it that ends in the phase the answer
  belongs to (\<open>CallTool_refines_mediation\<close>), and complete mediation, recording before acting and
  single forwarding are read off the protocol.
\<close>

section \<open>Effects\<close>

datatype effect =
    EResolve string "error + Subject"
  | EDecide DecisionRequest "error + DecisionResponse"
  | EAppend ActionRecord "error option"
  | EExchange string string string "error + string"
  | ECall string ToolCall "error + ToolResult"

definition traced_upstream :: "'w Upstream \<Rightarrow> ('w \<times> effect list) Upstream" where
  "traced_upstream u =
     \<lparr>up_Name = up_Name u, up_ListTools = silent (up_ListTools u),
      up_CallTool = (\<lambda>tc. traced (ECall (up_Name u) tc) (up_CallTool u tc))\<rparr>"

definition traced_registry :: "'w StaticRegistry \<Rightarrow> ('w \<times> effect list) StaticRegistry" where
  "traced_registry r =
     \<lparr>sr_upstreams = map traced_upstream (sr_upstreams r),
      sr_byTool = (\<lambda>name. map_option traced_upstream (sr_byTool r name)), sr_tools = sr_tools r\<rparr>"

definition traced_gateway :: "'w Gateway \<Rightarrow> ('w \<times> effect list) Gateway" where
  "traced_gateway g =
     \<lparr>gw_identity = (\<lambda>c. traced (EResolve c) (gw_identity g c)),
      gw_pdp = (\<lambda>timeout req. traced (EDecide req) (gw_pdp g timeout req)),
      gw_auditLog = (\<lambda>rec. traced (EAppend rec) (gw_auditLog g rec)),
      gw_registry = traced_registry (gw_registry g),
      gw_upstreamProvenance = gw_upstreamProvenance g,
      gw_decisionTimeout = gw_decisionTimeout g,
      gw_broker = map_option (\<lambda>x c u n. traced (EExchange c u n) (x c u n)) (gw_broker g),
      gw_toolReg = gw_toolReg g, gw_agentReg = gw_agentReg g, gw_now = silent (gw_now g)\<rparr>"

lemma traced_gateway_sel [simp]:
  "gw_identity (traced_gateway g) c = traced (EResolve c) (gw_identity g c)"
  "gw_auditLog (traced_gateway g) rec = traced (EAppend rec) (gw_auditLog g rec)"
  "gw_upstreamProvenance (traced_gateway g) = gw_upstreamProvenance g"
  "gw_broker (traced_gateway g) = map_option (\<lambda>x c u n. traced (EExchange c u n) (x c u n)) (gw_broker g)"
  "gw_toolReg (traced_gateway g) = gw_toolReg g"
  "gw_now (traced_gateway g) = silent (gw_now g)"
  "StaticRegistry_Resolve (gw_registry (traced_gateway g)) name =
     map_option traced_upstream (StaticRegistry_Resolve (gw_registry g) name)"
  "StaticRegistry_Tools (gw_registry (traced_gateway g)) = StaticRegistry_Tools (gw_registry g)"
  by (simp_all add: traced_gateway_def traced_registry_def StaticRegistry_Resolve_def StaticRegistry_Tools_def)

lemma traced_agentDenyReason [simp]: "agentDenyReason (traced_gateway g) = agentDenyReason g"
  by (simp add: fun_eq_iff agentDenyReason_def traced_gateway_def)

lemma traced_decide [simp]: "gateway_decide (traced_gateway g) req = traced (EDecide req) (gateway_decide g req)"
  by (simp add: gateway_decide_def traced_gateway_def)

lemma traced_recordResultProvenance [simp]:
  "recordResultProvenance ord (traced_gateway g) = recordResultProvenance ord g"
  by (simp add: fun_eq_iff recordResultProvenance_def)

lemma traced_upstream_sel [simp]:
  "up_Name (traced_upstream u) = up_Name u"
  "up_CallTool (traced_upstream u) tc = traced (ECall (up_Name u) tc) (up_CallTool u tc)"
  by (simp_all add: traced_upstream_def)

section \<open>Tracing changes nothing\<close>

definition untraced :: "('w \<times> effect list) gw_state \<Rightarrow> 'w gw_state" where
  "untraced s = \<lparr>gs_usage = gs_usage s, gs_prov = gs_prov s, gs_world = fst (gs_world s)\<rparr>"

definition erases :: "('w gw_state, 'a) state \<Rightarrow> (('w \<times> effect list) gw_state, 'a) state \<Rightarrow> bool" where
  "erases m n \<longleftrightarrow> (\<forall>s. run_state m (untraced s) = (case run_state n s of (x, t) \<Rightarrow> (x, untraced t)))"

named_theorems erasing \<open>programs that tracing does not change\<close>

lemma erases_return [erasing]: "erases (State_Monad.return x) (State_Monad.return x)"
  by (simp add: erases_def)

lemma erases_bind [erasing]:
  "erases m m' \<Longrightarrow> (\<And>x. erases (f x) (f' x)) \<Longrightarrow> erases (State_Monad.bind m f) (State_Monad.bind m' f')"
  by (simp add: erases_def split: prod.splits)

lemma erases_traced [erasing]: "erases (world m) (world (traced ev m))"
  by (auto simp: erases_def world_def traced_def untraced_def split: prod.splits)

lemma erases_silent [erasing]: "erases (world m) (world (silent m))"
  by (auto simp: erases_def world_def silent_def untraced_def split: prod.splits)

lemma erases_gets [erasing]: "erases (gets_state gs_prov) (gets_state gs_prov)" "erases (gets_state gs_usage) (gets_state gs_usage)"
  by (simp_all add: erases_def gets_state_def untraced_def)

lemma erases_modify [erasing]: "erases (modify_state (gs_prov_update f)) (modify_state (gs_prov_update f))"
  by (simp add: erases_def modify_state_def untraced_def)

lemma erases_count [erasing]: "erases (count_usage i now) (count_usage i now)"
  by (simp add: erases_def count_usage_def untraced_def split: prod.splits)

lemma erases_sum [erasing]:
  "(\<And>e. erases (f e) (f' e)) \<Longrightarrow> (\<And>y. erases (h y) (h' y)) \<Longrightarrow>
     erases (case x of Inl e \<Rightarrow> f e | Inr y \<Rightarrow> h y) (case x of Inl e \<Rightarrow> f' e | Inr y \<Rightarrow> h' y)"
  by (cases x) auto

lemma erases_option [erasing]:
  "erases m m' \<Longrightarrow> (\<And>y. erases (f y) (f' y)) \<Longrightarrow>
     erases (case x of None \<Rightarrow> m | Some y \<Rightarrow> f y) (case x of None \<Rightarrow> m' | Some y \<Rightarrow> f' y)"
  by (cases x) auto

lemma erases_map_option [erasing]:
  "erases m m' \<Longrightarrow> (\<And>y. erases (f y) (f' (h y))) \<Longrightarrow>
     erases (case x of None \<Rightarrow> m | Some y \<Rightarrow> f y) (case map_option h x of None \<Rightarrow> m' | Some y \<Rightarrow> f' y)"
  by (cases x) auto

lemma erases_if [erasing]: "erases m m' \<Longrightarrow> erases n n' \<Longrightarrow> erases (if b then m else n) (if b then m' else n')"
  by simp

lemmas branch_congs = sum.case_cong option.case_cong if_cong

lemmas deny_defs = denyWithoutSubject_def denyUndeclaredAgent_def denyUndeclaredTool_def denyUpstreamMismatch_def Let_def

lemma erases_fail_call [erasing]: "erases (fail_call g s a d reason) (fail_call (traced_gateway g) s a d reason)"
  by (simp add: fail_call_def) (intro erasing)

lemma erases_forward_call [erasing]:
  "erases (forward_call ord g s u name a d now c) (forward_call ord (traced_gateway g) s (traced_upstream u) name a d now c)"
  by (simp add: forward_call_def Let_def cong: branch_congs) (intro erasing)

lemma erases_act_on_decision [erasing]:
  "erases (act_on_decision ord g cc s u name a d now) (act_on_decision ord (traced_gateway g) cc s (traced_upstream u) name a d now)"
  by (cases "gw_broker g") (simp_all add: act_on_decision_def, (intro erasing)+)

lemma erases_call_declared [erasing]:
  "erases (call_declared ord g cc s u e name args now)
     (call_declared ord (traced_gateway g) cc s (traced_upstream u) e name args now)"
  by (simp add: call_declared_def Let_def cong: branch_congs) (intro erasing)

lemma erases_CallTool: "erases (CallTool ord g cc name args) (CallTool ord (traced_gateway g) cc name args)"
  by (simp add: CallTool_def deny_defs cong: branch_congs) (intro erasing)

lemma erases_list_loop [erasing]:
  "erases (list_loop g cc subject now tools visible) (list_loop (traced_gateway g) cc subject now tools visible)"
proof (induction tools arbitrary: visible)
  case (Cons t ts)
  then show ?case by (simp cong: branch_congs) (intro erasing)
qed (simp add: erasing)

lemma erases_ListTools: "erases (ListTools g cc cursor) (ListTools (traced_gateway g) cc cursor)"
  by (simp add: ListTools_def cong: branch_congs) (intro erasing)

section \<open>The protocol of a mediated call\<close>

text \<open>
  A phase is what has been established about the call so far: who calls; the decision on which
  action; that the decision is on record; the credential obtained; or how the call ended.
\<close>

datatype phase =
    Arrived
  | Unresolved error
  | Identified Subject
  | Decided Subject string gotime Action DecisionResponse
  | Committed Subject string Action DecisionResponse
  | Armed Subject string Action DecisionResponse string
  | Failing Subject Action DecisionResponse string
  | DeniedWith string
  | FailedWith string
  | Served DecisionResponse ToolResult

definition called_phase :: "Subject \<Rightarrow> Action \<Rightarrow> DecisionResponse \<Rightarrow> error + ToolResult \<Rightarrow> phase" where
  "called_phase s a d r =
     (case r of Inl e \<Rightarrow> Failing s a d (''upstream call failed: '' @ e) | Inr result \<Rightarrow> Served d result)"

text \<open>The call may go to an upstream: the agent is declared, the tool is declared, and for this upstream.\<close>

definition governed :: "'w Gateway \<Rightarrow> string \<Rightarrow> Subject \<Rightarrow> 'w Upstream \<Rightarrow> ToolEntry \<Rightarrow> bool" where
  "governed g name s u entry \<longleftrightarrow>
     agentDenyReason g s = None \<and> StaticRegistry_Resolve (gw_registry g) name = Some u \<and>
     toolregistry_Lookup (gw_toolReg g) name = Some entry \<and> (te_Upstream entry = [] \<or> te_Upstream entry = up_Name u)"

text \<open>
  The action of a call whose arguments are labelled from the cache as it was when each of them was looked up: \<open>cs k\<close>
  for the argument \<open>k\<close>. Other requests may have recorded values in between; without them it is one cache.
\<close>

definition tainted_call ::
  "(string \<Rightarrow> provenanceCache) \<Rightarrow> Subject \<Rightarrow> string \<Rightarrow> ToolEntry \<Rightarrow> json gomap \<Rightarrow> gotime \<Rightarrow> Action" where
  "tainted_call cs subject name entry arguments now =
     zero_Action\<lparr>act_Type := ''tool_call'', act_Tool := name,
       act_Arguments := Some (gm_map (\<lambda>k v. \<lparr>val_Data = v,
         val_Provenance = (case v of JStr s \<Rightarrow> prov_resolve (cs k) (sub_ID subject) s now | _ \<Rightarrow> untrustedProvenance)\<rparr>) arguments),
       act_Risk := te_Risk entry, act_DataClasses := te_DataClasses entry, act_RequiredScopes := te_Scopes entry\<rparr>"

lemma call_action_tainted: "call_action c = tainted_call (\<lambda>_. c)"
  by (simp add: fun_eq_iff call_action_def tainted_call_def taintArguments_def)

inductive mediation :: "'w Gateway \<Rightarrow> CallContext \<Rightarrow> string \<Rightarrow> json gomap \<Rightarrow> phase \<Rightarrow> effect \<Rightarrow> phase \<Rightarrow> bool"
  for g :: "'w Gateway" and cc :: CallContext and name :: string and arguments :: "json gomap"
where
  resolve_fails: "mediation g cc name arguments Arrived (EResolve (cc_Credential cc) (Inl err)) (Unresolved err)"
| resolves: "mediation g cc name arguments Arrived (EResolve (cc_Credential cc) (Inr s)) (Identified s)"
| unresolved: "mediation g cc name arguments (Unresolved err)
    (EAppend (refusal_record (zero_Subject\<lparr>sub_ID := ''unknown'', sub_Kind := SubjectKindAgent\<rparr>) name
       ''identity.unresolved'' err now) x)
    (DeniedWith ''credential not recognized'')"
| undeclared_agent: "agentDenyReason g s = Some reason \<Longrightarrow>
    mediation g cc name arguments (Identified s)
      (EAppend (refusal_record s name ''agentregistry.undeclared'' reason now) x) (DeniedWith reason)"
| undeclared_tool: "agentDenyReason g s = None \<Longrightarrow> StaticRegistry_Resolve (gw_registry g) name = Some u \<Longrightarrow>
    toolregistry_Lookup (gw_toolReg g) name = None \<Longrightarrow>
    mediation g cc name arguments (Identified s)
      (EAppend (refusal_record s name ''toolregistry.undeclared'' ''tool is not registered'' now) x)
      (DeniedWith ''tool is not registered'')"
| misrouted: "agentDenyReason g s = None \<Longrightarrow> StaticRegistry_Resolve (gw_registry g) name = Some u \<Longrightarrow>
    toolregistry_Lookup (gw_toolReg g) name = Some entry \<Longrightarrow> te_Upstream entry \<noteq> [] \<Longrightarrow> te_Upstream entry \<noteq> up_Name u \<Longrightarrow>
    mediation g cc name arguments (Identified s)
      (EAppend (refusal_record s name ''toolregistry.upstream_mismatch''
         (mismatch_reason name (te_Upstream entry) (up_Name u)) now) x)
      (DeniedWith (mismatch_reason name (te_Upstream entry) (up_Name u)))"
| decides: "governed g name s u entry \<Longrightarrow> a = tainted_call cs s name entry arguments now \<Longrightarrow>
    mediation g cc name arguments (Identified s) (EDecide (call_request cc s a now usage) r)
      (Decided s (up_Name u) now a (effective_decision r))"
| commits: "allow_outcome (dr_Outcome d) \<Longrightarrow>
    mediation g cc name arguments (Decided s u now a d) (EAppend (action_record now s a d RecordOutcomeAllowed) None)
      (Committed s u a d)"
| unrecorded: "o' = (if allow_outcome (dr_Outcome d) then RecordOutcomeAllowed else RecordOutcomeDenied) \<Longrightarrow>
    mediation g cc name arguments (Decided s u now a d) (EAppend (action_record now s a d o') (Some e))
      (DeniedWith (''could not durably record this decision, denying: '' @ e))"
| denies: "\<not> allow_outcome (dr_Outcome d) \<Longrightarrow>
    mediation g cc name arguments (Decided s u now a d) (EAppend (action_record now s a d RecordOutcomeDenied) None)
      (DeniedWith (denial_reason d))"
| no_credential: "gw_broker g \<noteq> None \<Longrightarrow>
    mediation g cc name arguments (Committed s u a d) (EExchange (cc_Credential cc) u name (Inl e))
      (Failing s a d (''could not obtain a scoped upstream credential: '' @ e))"
| arms: "gw_broker g \<noteq> None \<Longrightarrow>
    mediation g cc name arguments (Committed s u a d) (EExchange (cc_Credential cc) u name (Inr c)) (Armed s u a d c)"
| calls_static: "gw_broker g = None \<Longrightarrow>
    mediation g cc name arguments (Committed s u a d)
      (ECall u \<lparr>tc_Tool = name, tc_Arguments = act_Arguments a, tc_Credential = []\<rparr> r) (called_phase s a d r)"
| calls_armed:
    "mediation g cc name arguments (Armed s u a d c)
      (ECall u \<lparr>tc_Tool = name, tc_Arguments = act_Arguments a, tc_Credential = c\<rparr> r) (called_phase s a d r)"
| fails:
    "mediation g cc name arguments (Failing s a d reason) (EAppend (action_record now s a d RecordOutcomeFailed) x)
      (FailedWith reason)"

text \<open>Runs of the protocol from the arrival of a call.\<close>

inductive mediation_run :: "'w Gateway \<Rightarrow> CallContext \<Rightarrow> string \<Rightarrow> json gomap \<Rightarrow> effect list \<Rightarrow> phase \<Rightarrow> bool"
  for g :: "'w Gateway" and cc :: CallContext and name :: string and arguments :: "json gomap"
where
  run_start: "mediation_run g cc name arguments [] Arrived"
| run_step: "mediation_run g cc name arguments tr p \<Longrightarrow> mediation g cc name arguments p e q \<Longrightarrow>
    mediation_run g cc name arguments (tr @ [e]) q"

text \<open>The result as it leaves the gateway, and the answer that belongs to the phase a call ended in.\<close>

definition enforced :: "DecisionResponse \<Rightarrow> ToolResult \<Rightarrow> ToolResult" where
  "enforced d result =
     (if dr_Outcome d = OutcomeAllowWithObligations then applyObligations result (dr_Obligations d) else result)"

definition answer_of :: "'w Gateway \<Rightarrow> string \<Rightarrow> phase \<Rightarrow> (handler_error + ToolResult) option" where
  "answer_of g name p =
     (case p of
        Identified s \<Rightarrow>
          if agentDenyReason g s = None \<and> StaticRegistry_Resolve (gw_registry g) name = None
          then Some (Inl (Protocol \<lparr>pe_Code = -32602, pe_Message = ''unknown tool: '' @ name\<rparr>)) else None
      | DeniedWith reason \<Rightarrow> Some (Inr (deniedResult reason))
      | FailedWith reason \<Rightarrow> Some (Inr (failedResult reason))
      | Served d result \<Rightarrow> Some (Inr (enforced d result))
      | _ \<Rightarrow> None)"

definition mediated :: "'w Gateway \<Rightarrow> CallContext \<Rightarrow> string \<Rightarrow> json gomap \<Rightarrow> handler_error + ToolResult \<Rightarrow> effect list \<Rightarrow> bool" where
  "mediated g cc name arguments r tr \<longleftrightarrow>
     (\<exists>p. mediation_run g cc name arguments tr p \<and> answer_of g name p = Some r)"

section \<open>Refinement\<close>

text \<open>A phase that answers ends the call; a run may go on from any other.\<close>

lemma wp_world_traced [wp_simps]:
  "wp (world (traced ev m)) Q s =
     (case gs_world s of (w, tr) \<Rightarrow> wp m (\<lambda>r w'. Q r (s\<lparr>gs_world := (w', tr @ [ev r])\<rparr>)) w)"
  by (simp add: wp_def world_def traced_def split: prod.splits)

lemma wp_world_silent [wp_simps]:
  "wp (world (silent m)) Q s = (case gs_world s of (w, tr) \<Rightarrow> wp m (\<lambda>r w'. Q r (s\<lparr>gs_world := (w', tr)\<rparr>)) w)"
  by (simp add: wp_def world_def silent_def split: prod.splits)

lemma wp_count_usage [wp_simps]:
  "wp (count_usage i now) Q s = (case usage_usage (gs_usage s) i now of (u, t) \<Rightarrow> Q u (s\<lparr>gs_usage := t\<rparr>))"
  by (simp add: wp_def count_usage_def split: prod.splits)

abbreviation trace :: "('w \<times> effect list) gw_state \<Rightarrow> effect list" where
  "trace s \<equiv> snd (gs_world s)"

lemma mediatedI: "mediation_run g cc name args tr p \<Longrightarrow> mediation g cc name args p e q \<Longrightarrow>
    answer_of g name q = Some r \<Longrightarrow> mediated g cc name args r (tr @ [e])"
  unfolding mediated_def using run_step by blast

lemma wp_refuses:
  assumes "mediation_run g cc name args (trace s) p"
    and "\<And>x. mediation g cc name args p (EAppend rec x) (DeniedWith reason)"
  shows "wp (world (gw_auditLog (traced_gateway g) rec) \<bind> (\<lambda>_. State_Monad.return (Inr (deniedResult reason))))
    (\<lambda>r t. mediated g cc name args r (trace t)) s"
  using assms by (auto simp: wp_simps answer_of_def split: prod.splits intro!: wp_any mediatedI)

lemma wp_fail_call:
  assumes "mediation_run g cc name args (trace s) (Failing sub a d reason)"
  shows "wp (fail_call (traced_gateway g) sub a d reason) (\<lambda>r t. mediated g cc name args r (trace t)) s"
  using assms fails [of g cc name args sub a d reason]
  by (auto simp: fail_call_def wp_simps answer_of_def split: prod.splits intro!: wp_any mediatedI)

lemma wp_forward_call:
  assumes run: "mediation_run g cc name args (trace s) p"
    and step: "\<And>r. mediation g cc name args p
      (ECall (up_Name u) \<lparr>tc_Tool = name, tc_Arguments = act_Arguments a, tc_Credential = c\<rparr> r) (called_phase sub a d r)"
  shows "wp (forward_call ord (traced_gateway g) sub (traced_upstream u) name a d now c)
    (\<lambda>r t. mediated g cc name args r (trace t)) s"
proof -
  obtain w tr where w: "gs_world s = (w, tr)" by fastforce
  have after: "mediation_run g cc name args (tr @ [ECall (up_Name u)
      \<lparr>tc_Tool = name, tc_Arguments = act_Arguments a, tc_Credential = c\<rparr> r]) (called_phase sub a d r)" for r
    using run step [of r] w run_step by fastforce
  have "wp (fail_call (traced_gateway g) sub a d (''upstream call failed: '' @ e)) (\<lambda>r t. mediated g cc name args r (trace t))
      (s\<lparr>gs_world := (w', tr @ [ECall (up_Name u)
         \<lparr>tc_Tool = name, tc_Arguments = act_Arguments a, tc_Credential = c\<rparr> (Inl e)])\<rparr>)" for e w'
    by (rule wp_fail_call) (use after [of "Inl e"] in \<open>simp add: called_phase_def\<close>)
  moreover have "mediated g cc name args (Inr (enforced d res)) (tr @ [ECall (up_Name u)
      \<lparr>tc_Tool = name, tc_Arguments = act_Arguments a, tc_Credential = c\<rparr> (Inr res)])" for res
    using after [of "Inr res"] by (auto simp: mediated_def answer_of_def called_phase_def)
  ultimately show ?thesis
    by (auto simp: forward_call_def wp_simps w Let_def enforced_def split: sum.splits intro!: wp_any)
qed

lemma wp_act_on_decision:
  assumes run: "mediation_run g cc name args (trace s) (Committed sub (up_Name u) a d)"
  shows "wp (act_on_decision ord (traced_gateway g) cc sub (traced_upstream u) name a d now)
    (\<lambda>r t. mediated g cc name args r (trace t)) s"
proof (cases "gw_broker g")
  case None
  with wp_forward_call [OF run calls_static] show ?thesis by (simp add: act_on_decision_def)
next
  case (Some exchange)
  obtain w tr where w: "gs_world s = (w, tr)" by fastforce
  let ?ex = "EExchange (cc_Credential cc) (up_Name u) name"
  have "wp (fail_call (traced_gateway g) sub a d (''could not obtain a scoped upstream credential: '' @ e))
      (\<lambda>r t. mediated g cc name args r (trace t)) (s\<lparr>gs_world := (w', tr @ [?ex (Inl e)])\<rparr>)" for e w'
    by (rule wp_fail_call) (use run_step [OF run no_credential] Some w in simp)
  moreover have "wp (forward_call ord (traced_gateway g) sub (traced_upstream u) name a d now c)
      (\<lambda>r t. mediated g cc name args r (trace t)) (s\<lparr>gs_world := (w', tr @ [?ex (Inr c)])\<rparr>)" for c w'
    by (rule wp_forward_call [OF _ calls_armed]) (use run_step [OF run arms] Some w in simp)
  ultimately show ?thesis
    by (auto simp: act_on_decision_def Some w wp_simps split: sum.splits intro!: wp_any)
qed

lemma wp_call_declared:
  assumes run: "mediation_run g cc name args (trace s) (Identified sub)" and gov: "governed g name sub u entry"
  shows "wp (call_declared ord (traced_gateway g) cc sub (traced_upstream u) entry name args now)
    (\<lambda>r t. mediated g cc name args r (trace t)) s"
proof -
  obtain w tr where w: "gs_world s = (w, tr)" by fastforce
  obtain usage t where usage: "usage_usage (gs_usage s) (sub_ID sub) now = (usage, t)" by fastforce
  define a where "a = call_action (gs_prov s) sub name entry args now"
  define out where "out d = (if allow_outcome (dr_Outcome d) then RecordOutcomeAllowed else RecordOutcomeDenied)" for d :: DecisionResponse
  let ?dec = "EDecide (call_request cc sub a now usage)"
  let ?app = "\<lambda>d. EAppend (action_record now sub a d (out d))"
  have decided: "mediation_run g cc name args (tr @ [?dec r]) (Decided sub (up_Name u) now a (effective_decision r))" for r
    using run_step [OF run decides [OF gov a_def [unfolded call_action_tainted]]] w by simp
  have denied: "mediated g cc name args (Inr (deniedResult reason)) (tr @ [?dec r, ?app (effective_decision r) x])"
    if "mediation g cc name args (Decided sub (up_Name u) now a (effective_decision r))
          (?app (effective_decision r) x) (DeniedWith reason)" for r x reason
    using mediatedI [OF decided that] by (simp add: answer_of_def)
  have unrec: "mediated g cc name args (Inr (deniedResult (''could not durably record this decision, denying: '' @ e)))
      (tr @ [?dec r, ?app (effective_decision r) (Some e)])" for r e
    by (rule denied) (rule unrecorded [OF out_def])
  have deny: "mediated g cc name args (Inr (deniedResult (denial_reason (effective_decision r))))
      (tr @ [?dec r, ?app (effective_decision r) None])" if "\<not> allow_outcome (dr_Outcome (effective_decision r))" for r
    by (rule denied) (use that in \<open>simp add: denies out_def\<close>)
  have acts: "wp (act_on_decision ord (traced_gateway g) cc sub (traced_upstream u) name a (effective_decision r) now)
      (\<lambda>r t. mediated g cc name args r (trace t))
      (s\<lparr>gs_usage := t, gs_world := (w', tr @ [?dec r, ?app (effective_decision r) None])\<rparr>)"
    if "allow_outcome (dr_Outcome (effective_decision r))" for r w'
    by (rule wp_act_on_decision) (use run_step [OF decided commits] that in \<open>simp add: out_def\<close>)
  show ?thesis
    using unrec deny acts unfolding out_def
    by (auto simp: call_declared_def wp_simps w usage a_def [symmetric] Let_def split: option.splits intro!: wp_any)
qed

lemma wp_CallTool:
  assumes "trace s = []"
  shows "wp (CallTool ord (traced_gateway g) cc name args) (\<lambda>r t. mediated g cc name args r (trace t)) s"
proof -
  obtain w where w: "gs_world s = (w, [])" using assms by (cases "gs_world s") simp
  let ?M = "\<lambda>r t. mediated g cc name args r (trace t)"
  let ?s = "\<lambda>w' x. s\<lparr>gs_world := (w', [EResolve (cc_Credential cc) x])\<rparr>"
  have id: "mediation_run g cc name args [EResolve (cc_Credential cc) (Inr sub)] (Identified sub)" for sub
    using run_step [OF run_start resolves] by simp
  have un: "mediation_run g cc name args [EResolve (cc_Credential cc) (Inl err)] (Unresolved err)" for err
    using run_step [OF run_start resolve_fails] by simp
  have "wp (denyWithoutSubject (traced_gateway g) name ''identity.unresolved'' err now) ?M (?s w' (Inl err))" for err now w'
    unfolding denyWithoutSubject_def by (rule wp_refuses [OF _ unresolved]) (simp add: un)
  moreover have "wp (denyUndeclaredAgent (traced_gateway g) sub name reason now) ?M (?s w' (Inr sub))"
    if "agentDenyReason g sub = Some reason" for sub reason now w'
    unfolding denyUndeclaredAgent_def by (rule wp_refuses [OF _ undeclared_agent [OF that]]) (simp add: id)
  moreover have "mediated g cc name args (Inl (Protocol \<lparr>pe_Code = -32602, pe_Message = ''unknown tool: '' @ name\<rparr>))
      [EResolve (cc_Credential cc) (Inr sub)]"
    if "agentDenyReason g sub = None" "StaticRegistry_Resolve (gw_registry g) name = None" for sub
    using id [of sub] that by (auto simp: mediated_def answer_of_def intro!: exI [of _ "Identified sub"])
  moreover have "wp (denyUndeclaredTool (traced_gateway g) sub name now) ?M (?s w' (Inr sub))"
    if "agentDenyReason g sub = None" "StaticRegistry_Resolve (gw_registry g) name = Some u"
      "toolregistry_Lookup (gw_toolReg g) name = None" for sub u now w'
    unfolding denyUndeclaredTool_def by (rule wp_refuses [OF _ undeclared_tool [OF that]]) (simp add: id)
  moreover have "wp (denyUpstreamMismatch (traced_gateway g) sub name (te_Upstream entry) (up_Name u) now) ?M (?s w' (Inr sub))"
    if "agentDenyReason g sub = None" "StaticRegistry_Resolve (gw_registry g) name = Some u"
      "toolregistry_Lookup (gw_toolReg g) name = Some entry" "te_Upstream entry \<noteq> []" "te_Upstream entry \<noteq> up_Name u"
    for sub u entry now w'
    unfolding denyUpstreamMismatch_def Let_def by (rule wp_refuses [OF _ misrouted [OF that]]) (simp add: id)
  moreover have "wp (call_declared ord (traced_gateway g) cc sub (traced_upstream u) entry name args now) ?M (?s w' (Inr sub))"
    if "governed g name sub u entry" for sub u entry now w'
    using that by (rule wp_call_declared [rotated]) (simp add: id)
  ultimately show ?thesis
    by (auto simp: CallTool_def wp_simps w governed_def split: sum.splits option.splits intro!: wp_any)
qed

section \<open>Properties of the protocol\<close>

inductive_cases called_stepE: "mediation g cc name arguments p (ECall u tc r) q"
inductive_cases served_stepE: "mediation g cc name arguments (Served d res) e q"
inductive_cases failing_stepE: "mediation g cc name arguments (Failing s a d reason) e q"
inductive_cases failed_stepE: "mediation g cc name arguments (FailedWith reason) e q"

text \<open>The trace of a call whose permission is on record, before anything is done with it.\<close>

definition committed_trace ::
  "'w Gateway \<Rightarrow> CallContext \<Rightarrow> string \<Rightarrow> json gomap \<Rightarrow> Subject \<Rightarrow> string \<Rightarrow> Action \<Rightarrow> DecisionResponse \<Rightarrow> effect list \<Rightarrow> bool" where
  "committed_trace g cc name arguments s u a d tr \<longleftrightarrow>
     (\<exists>upstream entry cs now usage.
        governed g name s upstream entry \<and> u = up_Name upstream \<and> allow_outcome (dr_Outcome d) \<and>
        a = tainted_call cs s name entry arguments now \<and>
        tr = [EResolve (cc_Credential cc) (Inr s), EDecide (call_request cc s a now usage) (Inr d),
              EAppend (action_record now s a d RecordOutcomeAllowed) None])"

text \<open>The trace before a call to an upstream, with the credential the call carries.\<close>

definition armed_trace ::
  "'w Gateway \<Rightarrow> CallContext \<Rightarrow> string \<Rightarrow> json gomap \<Rightarrow> Subject \<Rightarrow> string \<Rightarrow> Action \<Rightarrow> DecisionResponse \<Rightarrow> string \<Rightarrow> effect list \<Rightarrow> bool" where
  "armed_trace g cc name arguments s u a d credential tr \<longleftrightarrow>
     (if gw_broker g = None then credential = [] \<and> committed_trace g cc name arguments s u a d tr
      else \<exists>tr'. committed_trace g cc name arguments s u a d tr' \<and>
             tr = tr' @ [EExchange (cc_Credential cc) u name (Inr credential)])"

fun shape :: "'w Gateway \<Rightarrow> CallContext \<Rightarrow> string \<Rightarrow> json gomap \<Rightarrow> phase \<Rightarrow> effect list \<Rightarrow> bool" where
  "shape g cc name arguments Arrived tr = (tr = [])"
| "shape g cc name arguments (Identified s) tr = (tr = [EResolve (cc_Credential cc) (Inr s)])"
| "shape g cc name arguments (Decided s u now a d) tr =
     (\<exists>upstream entry cs usage r. governed g name s upstream entry \<and> u = up_Name upstream \<and>
        a = tainted_call cs s name entry arguments now \<and> d = effective_decision r \<and>
        tr = [EResolve (cc_Credential cc) (Inr s), EDecide (call_request cc s a now usage) r])"
| "shape g cc name arguments (Committed s u a d) tr = committed_trace g cc name arguments s u a d tr"
| "shape g cc name arguments (Armed s u a d c) tr =
     (gw_broker g \<noteq> None \<and> armed_trace g cc name arguments s u a d c tr)"
| "shape g cc name arguments p tr = True"

lemma allowed_decision: "allow_outcome (dr_Outcome (effective_decision r)) \<Longrightarrow> r = Inr (effective_decision r)"
  by (cases r) (auto simp: effective_decision_def allow_outcome_def OutcomeAllow_def OutcomeAllowWithObligations_def
      OutcomeDeny_def zero_DecisionResponse_def)

lemma mediation_shape:
  "mediation g cc name arguments p e q \<Longrightarrow> shape g cc name arguments p tr \<Longrightarrow> shape g cc name arguments q (tr @ [e])"
proof (induction rule: mediation.induct)
  case (commits d s u now a)
  then obtain upstream entry cs usage r where *: "governed g name s upstream entry" "u = up_Name upstream"
      "a = tainted_call cs s name entry arguments now" "d = effective_decision r"
      "tr = [EResolve (cc_Credential cc) (Inr s), EDecide (call_request cc s a now usage) r]"
    by auto
  from commits(1) *(4) have "r = Inr d" using allowed_decision by blast
  with commits(1) *(1,2,3,5) show ?case
    unfolding shape.simps committed_trace_def
    by (intro exI [of _ upstream] exI [of _ entry] exI [of _ cs] exI [of _ now] exI [of _ usage]) simp
qed (auto simp: called_phase_def armed_trace_def split: sum.splits)

lemma run_shape: "mediation_run g cc name arguments tr p \<Longrightarrow> shape g cc name arguments p tr"
  by (induction rule: mediation_run.induct) (auto intro: mediation_shape)

text \<open>Every call to an upstream in a run is armed, and decides how the run ends.\<close>

definition call_ends :: "Subject \<Rightarrow> Action \<Rightarrow> DecisionResponse \<Rightarrow> error + ToolResult \<Rightarrow> effect list \<Rightarrow> phase \<Rightarrow> bool" where
  "call_ends s a d x post p \<longleftrightarrow>
     (post = [] \<and> p = called_phase s a d x) \<or>
     (\<exists>e now y. x = Inl e \<and> post = [EAppend (action_record now s a d RecordOutcomeFailed) y] \<and>
        p = FailedWith (''upstream call failed: '' @ e))"

definition one_call ::
  "'w Gateway \<Rightarrow> CallContext \<Rightarrow> string \<Rightarrow> json gomap \<Rightarrow> effect list \<Rightarrow> phase \<Rightarrow> bool" where
  "one_call g cc name arguments tr p \<longleftrightarrow>
     (\<forall>pre u tc x post. tr = pre @ ECall u tc x # post \<longrightarrow>
        (\<exists>s a d. armed_trace g cc name arguments s u a d (tc_Credential tc) pre \<and>
           tc_Tool tc = name \<and> tc_Arguments tc = act_Arguments a \<and> call_ends s a d x post p))"

lemma step_armed:
  assumes "mediation g cc name arguments p (ECall u tc x) q" "shape g cc name arguments p tr"
  shows "\<exists>s a d. armed_trace g cc name arguments s u a d (tc_Credential tc) tr \<and>
    tc_Tool tc = name \<and> tc_Arguments tc = act_Arguments a \<and> q = called_phase s a d x"
proof -
  from assms(1) consider
      (static) s a d where "p = Committed s u a d" "gw_broker g = None" "q = called_phase s a d x"
        "tc = \<lparr>tc_Tool = name, tc_Arguments = act_Arguments a, tc_Credential = []\<rparr>"
    | (armed) s a d c where "p = Armed s u a d c" "q = called_phase s a d x"
        "tc = \<lparr>tc_Tool = name, tc_Arguments = act_Arguments a, tc_Credential = c\<rparr>"
    by (elim called_stepE) blast+
  then show ?thesis
  proof cases
    case static
    with assms(2) show ?thesis by (intro exI [of _ s] exI [of _ a] exI [of _ d]) (simp add: armed_trace_def)
  next
    case armed
    with assms(2) show ?thesis by (intro exI [of _ s] exI [of _ a] exI [of _ d]) simp
  qed
qed

lemma call_ends_step:
  assumes "call_ends s a d x post p" "mediation g cc name arguments p e q"
  shows "call_ends s a d x (post @ [e]) q"
proof (cases x)
  case (Inl err)
  define reason where "reason = ''upstream call failed: '' @ err"
  from assms(1) Inl consider
      "post = []" "p = Failing s a d reason" | "p = FailedWith reason"
    by (auto simp: call_ends_def called_phase_def reason_def)
  then show ?thesis
  proof cases
    case 1
    with assms(2) show ?thesis by (auto simp: Inl call_ends_def reason_def elim!: failing_stepE)
  next
    case 2
    with assms(2) show ?thesis by (auto elim: failed_stepE)
  qed
next
  case (Inr res)
  with assms show ?thesis by (auto simp: call_ends_def called_phase_def elim: served_stepE)
qed

lemma run_one_call: "mediation_run g cc name arguments tr p \<Longrightarrow> one_call g cc name arguments tr p"
proof (induction rule: mediation_run.induct)
  case (run_step tr p e q)
  show ?case
    unfolding one_call_def
  proof (intro allI impI)
    fix pre u tc x post
    assume eq: "tr @ [e] = pre @ ECall u tc x # post"
    show "\<exists>s a d. armed_trace g cc name arguments s u a d (tc_Credential tc) pre \<and>
       tc_Tool tc = name \<and> tc_Arguments tc = act_Arguments a \<and> call_ends s a d x post q"
    proof (cases post rule: rev_cases)
      case Nil
      with eq have "tr = pre" "e = ECall u tc x" by auto
      with step_armed [OF _ run_shape [OF run_step(1)]] run_step(2) Nil show ?thesis
        by (fastforce simp: call_ends_def)
    next
      case (snoc post' y)
      with eq have "tr = pre @ ECall u tc x # post'" "e = y" by auto
      with run_step.IH call_ends_step run_step(2) snoc show ?thesis
        unfolding one_call_def by metis
    qed
  qed
qed (simp add: one_call_def)

section \<open>Properties\<close>

text \<open>The state of a traced gateway when a call arrives: nothing written down yet.\<close>

definition fresh_trace :: "'w gw_state \<Rightarrow> ('w \<times> effect list) gw_state" where
  "fresh_trace s = \<lparr>gs_usage = gs_usage s, gs_prov = gs_prov s, gs_world = (gs_world s, [])\<rparr>"

lemma trace_fresh [simp]: "trace (fresh_trace s) = []" "untraced (fresh_trace s) = s"
  by (simp_all add: fresh_trace_def untraced_def)

text \<open>Writing down the effects of a gateway changes nothing: \<^verbatim>\<open>CallTool\<close> and \<^verbatim>\<open>ListTools\<close> of the traced
  gateway give the answers of the plain one and leave the same usage counts, provenance cache and
  outside world behind. What the other theorems say about traces is said about the code.\<close>

lemma traced_gateway_faithful:
  "run_state (CallTool ord g cc name arguments) s =
     (case run_state (CallTool ord (traced_gateway g) cc name arguments) (fresh_trace s) of (r, t) \<Rightarrow> (r, untraced t)) \<and>
   run_state (ListTools g cc cursor) s =
     (case run_state (ListTools (traced_gateway g) cc cursor) (fresh_trace s) of (r, t) \<Rightarrow> (r, untraced t))"
  using erases_CallTool [of ord g cc name arguments] erases_ListTools [of g cc cursor]
  unfolding erases_def by (metis trace_fresh(2))

text \<open>C5. \<^verbatim>\<open>CallTool\<close> refines the protocol of a mediated call: whatever the identity provider, the decision
  point, the audit store, the broker and the upstream answer, the effects of the call, in their
  order, are a run of the protocol, and the answer is the one that belongs to the phase the run
  ends in.\<close>

theorem CallTool_refines_mediation:
  "case run_state (CallTool ord (traced_gateway g) cc name arguments) (fresh_trace s) of
     (r, t) \<Rightarrow> mediated g cc name arguments r (trace t)"
  using wp_CallTool [of "fresh_trace s" ord g cc name arguments] by (simp add: wp_def)

text \<open>C1. Complete mediation: if a tools/call reaches an upstream at all, then the caller's credential was
  resolved, the agent is declared, the tool is declared and bound to no other upstream, the
  policy was asked about exactly this caller and these arguments with their provenance and
  allowed it, and that decision was durably recorded, in this order and before the call; the call carries
  the tool's name, the recorded arguments, and the credential minted for exactly this upstream and
  tool when a broker is configured, and none otherwise. Nothing follows the call but the record of its failure, and
  the answer is its result with the obligations of the decision applied.\<close>

theorem CallTool_complete_mediation:
  assumes "run_state (CallTool ord (traced_gateway g) cc name arguments) (fresh_trace s) = (r, t)"
    and "trace t = pre @ ECall u tc x # post"
  shows "\<exists>subject a d. armed_trace g cc name arguments subject u a d (tc_Credential tc) pre \<and>
    tc_Tool tc = name \<and> tc_Arguments tc = act_Arguments a \<and>
    (case x of
       Inr result \<Rightarrow> post = [] \<and> r = Inr (enforced d result)
     | Inl e \<Rightarrow> r = Inr (failedResult (''upstream call failed: '' @ e)) \<and>
         (\<exists>now y. post = [EAppend (action_record now subject a d RecordOutcomeFailed) y]))"
proof -
  from assms(1) have "mediated g cc name arguments r (trace t)"
    using wp_CallTool [of "fresh_trace s" ord g cc name arguments] by (simp add: wp_def)
  then obtain p where p: "mediation_run g cc name arguments (trace t) p" "answer_of g name p = Some r"
    by (auto simp: mediated_def)
  from run_one_call [OF p(1)] assms(2) obtain subject a d where
    *: "armed_trace g cc name arguments subject u a d (tc_Credential tc) pre"
       "tc_Tool tc = name" "tc_Arguments tc = act_Arguments a" "call_ends subject a d x post p"
    unfolding one_call_def by blast
  with p(2) show ?thesis
    by (intro exI [of _ subject] exI [of _ a] exI [of _ d])
      (cases x; auto simp: call_ends_def called_phase_def answer_of_def)
qed

text \<open>A gateway with one declared agent, one declared tool and a policy that allows everything.\<close>

definition example_upstream :: "unit Upstream" where
  "example_upstream = \<lparr>up_Name = ''crm'', up_ListTools = State_Monad.return (Inr []),
     up_CallTool = (\<lambda>tc. State_Monad.return (Inr zero_ToolResult))\<rparr>"

definition example_gateway :: "unit Gateway" where
  "example_gateway = fst (gateway_New
     (\<lambda>c. State_Monad.return (if c = ''tok'' then Inr (zero_Subject\<lparr>sub_ID := ''bot''\<rparr>) else Inl ''credential not recognized''))
     (\<lambda>_ req. State_Monad.return (Inr (zero_DecisionResponse\<lparr>dr_Outcome := OutcomeAllow\<rparr>)))
     (\<lambda>rec. State_Monad.return None)
     \<lparr>sr_upstreams = [example_upstream], sr_byTool = [''lookup'' \<mapsto> example_upstream], sr_tools = []\<rparr>
     Map.empty 0 None
     \<lparr>tr_byID = [''lookup'' \<mapsto> \<lparr>te_ToolID = ''lookup'', te_Upstream = ''crm'', te_Risk = RiskLow, te_DataClasses = [], te_Scopes = []\<rparr>]\<rparr>
     \<lparr>ar_byID = [''bot'' \<mapsto> \<lparr>ae_AgentID = ''bot'', ae_Version = [], ae_Owner = [], ae_Risk = [], ae_DataClasses = []\<rparr>]\<rparr>
     (State_Monad.return time_zero) ())"

definition example_state :: "unit gw_state" where
  "example_state = \<lparr>gs_usage = newUsageTracker, gs_prov = newProvenanceCache, gs_world = ()\<rparr>"

definition example_cc :: CallContext where
  "example_cc = \<lparr>cc_Credential = ''tok'', cc_ClientInfo = None, cc_ProtocolVersion = ProtocolVersionCurrent, cc_RequestID = ''req_1''\<rparr>"

lemma world_simps:
  "run_state (world (traced ev m)) s =
     (case run_state m (fst (gs_world s)) of (r, w') \<Rightarrow> (r, s\<lparr>gs_world := (w', trace s @ [ev r])\<rparr>))"
  "run_state (world (silent m)) s =
     (case run_state m (fst (gs_world s)) of (r, w') \<Rightarrow> (r, s\<lparr>gs_world := (w', trace s)\<rparr>))"
  by (simp_all add: world_def traced_def silent_def split: prod.splits)

lemmas example_defs = example_gateway_def example_upstream_def example_state_def example_cc_def gateway_New_def

lemmas call_defs = CallTool_def call_declared_def act_on_decision_def forward_call_def count_usage_def
  gets_state_def modify_state_def gateway_decide_def agentDenyReason_def agentregistry_Lookup_def toolregistry_Lookup_def
  StaticRegistry_Resolve_def effective_decision_def allow_outcome_def

lemma example_trace:
  "trace (snd (run_state (CallTool id (traced_gateway example_gateway) example_cc ''lookup'' [])
      (fresh_trace example_state))) =
   [EResolve ''tok'' (Inr (zero_Subject\<lparr>sub_ID := ''bot''\<rparr>)),
    EDecide (call_request example_cc (zero_Subject\<lparr>sub_ID := ''bot''\<rparr>)
      (call_action newProvenanceCache (zero_Subject\<lparr>sub_ID := ''bot''\<rparr>) ''lookup''
        \<lparr>te_ToolID = ''lookup'', te_Upstream = ''crm'', te_Risk = RiskLow, te_DataClasses = [], te_Scopes = []\<rparr> [] time_zero)
      time_zero (usage_of 1 defaultUsageWindow)) (Inr (zero_DecisionResponse\<lparr>dr_Outcome := OutcomeAllow\<rparr>)),
    EAppend (action_record time_zero (zero_Subject\<lparr>sub_ID := ''bot''\<rparr>)
      (call_action newProvenanceCache (zero_Subject\<lparr>sub_ID := ''bot''\<rparr>) ''lookup''
        \<lparr>te_ToolID = ''lookup'', te_Upstream = ''crm'', te_Risk = RiskLow, te_DataClasses = [], te_Scopes = []\<rparr> [] time_zero)
      (zero_DecisionResponse\<lparr>dr_Outcome := OutcomeAllow\<rparr>) RecordOutcomeAllowed) None] @
   ECall ''crm'' \<lparr>tc_Tool = ''lookup'', tc_Arguments = Some [], tc_Credential = []\<rparr> (Inr zero_ToolResult) # []"
  by (simp add: call_defs example_defs world_simps fresh_trace_def Let_def usage_usage_def recordAndCount_def
      current_window_def newUsageTracker_def call_action_def taintArguments_def gm_map_def traced_gateway_def
      traced_registry_def traced_upstream_def zero_Subject_def zero_DecisionResponse_def OutcomeAllow_def
      OutcomeAllowWithObligations_def)

theorem CallTool_complete_mediation_witness:
  "\<exists>pre subject a d. trace (snd (run_state (CallTool id (traced_gateway example_gateway) example_cc ''lookup'' [])
      (fresh_trace example_state))) =
      pre @ [ECall ''crm'' \<lparr>tc_Tool = ''lookup'', tc_Arguments = Some [], tc_Credential = []\<rparr> (Inr zero_ToolResult)] \<and>
    armed_trace example_gateway example_cc ''lookup'' [] subject ''crm'' a d [] pre"
  using CallTool_complete_mediation [OF prod.collapse [symmetric] example_trace] example_trace by auto

inductive_cases into_servedE: "mediation g cc name arguments p e (Served d res)"
inductive_cases into_deniedE: "mediation g cc name arguments p e (DeniedWith reason)"
inductive_cases into_failedE: "mediation g cc name arguments p e (FailedWith reason)"
inductive_cases into_failingE: "mediation g cc name arguments p e (Failing s a d reason)"

lemma run_last:
  "mediation_run g cc name arguments tr q \<Longrightarrow> q \<noteq> Arrived \<Longrightarrow>
     \<exists>tr' p e. tr = tr' @ [e] \<and> mediation_run g cc name arguments tr' p \<and> mediation g cc name arguments p e q"
  by (induction rule: mediation_run.induct) auto

lemma called_phase_eq:
  "called_phase s a d r = Served d' res \<longleftrightarrow> d' = d \<and> r = Inr res"
  "called_phase s a d r = Failing s' a' d' reason \<longleftrightarrow>
     s' = s \<and> a' = a \<and> d' = d \<and> (\<exists>e. r = Inl e \<and> reason = ''upstream call failed: '' @ e)"
  "called_phase s a d r \<noteq> DeniedWith reason" "called_phase s a d r \<noteq> FailedWith reason"
  by (auto simp: called_phase_def split: sum.splits)

lemma into_served: "mediation g cc name arguments p e (Served d res) \<Longrightarrow> \<exists>u tc. e = ECall u tc (Inr res)"
  by (elim into_servedE) (metis called_phase_eq(1))+

lemma into_denied:
  "mediation g cc name arguments p e (DeniedWith reason) \<Longrightarrow>
     \<exists>rec y. e = EAppend rec y \<and> (y = None \<longrightarrow> rec_Outcome rec = RecordOutcomeDenied)"
  by (elim into_deniedE) (simp_all add: refusal_record_def action_record_def called_phase_eq(3,4) [THEN not_sym])

lemma into_failed:
  "mediation g cc name arguments p e (FailedWith reason) \<Longrightarrow> \<exists>s a d. p = Failing s a d reason"
  by (elim into_failedE) (simp_all add: called_phase_eq(3,4) [THEN not_sym])

lemma into_failing:
  "mediation g cc name arguments p e (Failing s a d reason) \<Longrightarrow>
     (\<exists>u tc x. e = ECall u tc x) \<or> (\<exists>err. reason = ''could not obtain a scoped upstream credential: '' @ err)"
  by (elim into_failingE) auto

text \<open>C13. A call that reaches no upstream is answered with an error: a tool result marked as an error
  whose text is a denial or the failure to get a credential, or, for a tool that no upstream
  offers and a declared agent, the protocol error \<^verbatim>\<open>-32602\<close>. No such call is ever answered with a
  result of its own making, and every one of them whose agent resolved is on record or failed to be recorded, the
  unknown tool apart.\<close>

theorem CallTool_uncalled_is_error:
  assumes "run_state (CallTool ord (traced_gateway g) cc name arguments) (fresh_trace s) = (r, t)"
    and "\<And>u tc x. ECall u tc x \<notin> set (trace t)"
  shows "(\<exists>reason. r = Inr (deniedResult reason) \<and> (\<exists>rec y. EAppend rec y = last (trace t) \<and>
             (y = None \<longrightarrow> rec_Outcome rec = RecordOutcomeDenied))) \<or>
    (\<exists>e. r = Inr (failedResult (''could not obtain a scoped upstream credential: '' @ e))) \<or>
    (r = Inl (Protocol \<lparr>pe_Code = -32602, pe_Message = ''unknown tool: '' @ name\<rparr>) \<and>
      StaticRegistry_Resolve (gw_registry g) name = None)"
proof -
  from assms(1) have "mediated g cc name arguments r (trace t)"
    using wp_CallTool [of "fresh_trace s" ord g cc name arguments] by (simp add: wp_def)
  then obtain p where p: "mediation_run g cc name arguments (trace t) p" "answer_of g name p = Some r"
    by (auto simp: mediated_def)
  show ?thesis
  proof (cases p)
    case (DeniedWith reason)
    with run_last [OF p(1)] obtain tr q e where "trace t = tr @ [e]" "mediation g cc name arguments q e (DeniedWith reason)"
      by blast
    with into_denied [OF this(2)] have
      "\<exists>rec y. EAppend rec y = last (trace t) \<and> (y = None \<longrightarrow> rec_Outcome rec = RecordOutcomeDenied)" by auto
    moreover have "r = Inr (deniedResult reason)" using p(2) DeniedWith by (simp add: answer_of_def)
    ultimately show ?thesis by blast
  next
    case (FailedWith reason)
    with run_last [OF p(1)] obtain tr q e where
      1: "trace t = tr @ [e]" "mediation_run g cc name arguments tr q" "mediation g cc name arguments q e (FailedWith reason)"
      by blast
    from into_failed [OF 1(3)] obtain sub a d where q: "q = Failing sub a d reason" by blast
    with run_last [OF 1(2)] obtain tr' q' e' where
      2: "tr = tr' @ [e']" "mediation g cc name arguments q' e' (Failing sub a d reason)" by blast
    from into_failing [OF 2(2)] assms(2) 1(1) 2(1)
    have "\<exists>err. reason = ''could not obtain a scoped upstream credential: '' @ err" by (metis in_set_conv_decomp append.assoc append_Cons)
    with p(2) FailedWith show ?thesis by (auto simp: answer_of_def)
  next
    case (Served d res)
    with run_last [OF p(1)] obtain tr q e where "trace t = tr @ [e]" "mediation g cc name arguments q e (Served d res)"
      by blast
    with into_served [OF this(2)] assms(2) show ?thesis by auto
  qed (use p(2) in \<open>auto simp: answer_of_def split: if_splits\<close>)
qed

text \<open>An unknown credential: one record, and the denial.\<close>

definition example_refused :: "(handler_error + ToolResult) \<times> (unit \<times> effect list) gw_state" where
  "example_refused =
     run_state (CallTool id (traced_gateway example_gateway) (example_cc\<lparr>cc_Credential := ''stolen''\<rparr>) ''lookup'' [])
       (fresh_trace example_state)"

lemma example_refused_trace:
  "\<exists>rec x. trace (snd example_refused) = [EResolve ''stolen'' (Inl ''credential not recognized''), EAppend rec x]"
  by (simp add: example_refused_def CallTool_def denyWithoutSubject_def example_defs world_simps fresh_trace_def traced_gateway_def)

theorem CallTool_uncalled_is_error_witness:
  "(\<exists>rec x. trace (snd example_refused) = [EResolve ''stolen'' (Inl ''credential not recognized''), EAppend rec x]) \<and>
   ((\<exists>reason. fst example_refused = Inr (deniedResult reason) \<and> (\<exists>rec y. EAppend rec y = last (trace (snd example_refused)) \<and>
             (y = None \<longrightarrow> rec_Outcome rec = RecordOutcomeDenied))) \<or>
    (\<exists>e. fst example_refused = Inr (failedResult (''could not obtain a scoped upstream credential: '' @ e))) \<or>
    (fst example_refused = Inl (Protocol \<lparr>pe_Code = -32602, pe_Message = ''unknown tool: '' @ ''lookup''\<rparr>) \<and>
      StaticRegistry_Resolve (gw_registry example_gateway) ''lookup'' = None))"
proof (rule conjI [OF example_refused_trace], rule CallTool_uncalled_is_error)
  show "run_state (CallTool id (traced_gateway example_gateway) (example_cc\<lparr>cc_Credential := ''stolen''\<rparr>) ''lookup'' [])
       (fresh_trace example_state) = (fst example_refused, snd example_refused)"
    by (simp add: example_refused_def)
  show "ECall u tc x \<notin> set (trace (snd example_refused))" for u tc x
    using example_refused_trace by auto
qed

section \<open>Listing\<close>

text \<open>
  What a listing asks and shows: one decision for each declared tool, in the order of the
  registry, and exactly the tools whose decision allows are shown.
\<close>

definition declared_tools :: "'w Gateway \<Rightarrow> Tool list \<Rightarrow> Tool list" where
  "declared_tools g tools = filter (\<lambda>tool. toolregistry_Lookup (gw_toolReg g) (tool_Name tool) \<noteq> None) tools"

definition list_effect :: "'w Gateway \<Rightarrow> CallContext \<Rightarrow> Subject \<Rightarrow> gotime \<Rightarrow> usageTracker \<Rightarrow> Tool \<times> (error + DecisionResponse) \<Rightarrow> effect" where
  "list_effect g cc subject now usage d =
     EDecide (list_request cc subject (the (toolregistry_Lookup (gw_toolReg g) (tool_Name (fst d)))) (fst d) now usage) (snd d)"

definition shown :: "(Tool \<times> (error + DecisionResponse)) list \<Rightarrow> Tool list" where
  "shown ds = map fst (filter (\<lambda>d. case snd d of Inl err \<Rightarrow> False | Inr decision \<Rightarrow> allow_outcome (dr_Outcome decision)) ds)"

lemma shown_simps [simp]:
  "shown [] = []" "shown ((tool, Inl err) # ds) = shown ds"
  "shown ((tool, Inr d) # ds) = (if allow_outcome (dr_Outcome d) then tool # shown ds else shown ds)"
  by (simp_all add: shown_def)

lemma shown_Cons: "shown (d # ds) = shown [d] @ shown ds"
  by (simp add: shown_def)

lemma wp_list_loop:
  "wp (list_loop (traced_gateway g) cc subject now tools visible)
     (\<lambda>r t. gs_usage t = gs_usage s \<and> gs_prov t = gs_prov s \<and>
        (\<exists>ds. map fst ds = declared_tools g tools \<and> r = visible @ shown ds \<and>
           trace t = trace s @ map (list_effect g cc subject now (gs_usage s)) ds)) s"
proof (induction tools arbitrary: visible s)
  case Nil
  show ?case by (simp add: wp_simps declared_tools_def)
next
  case (Cons tool tools)
  obtain w tr where w: "gs_world s = (w, tr)" by fastforce
  let ?Q = "\<lambda>ts vs st r t. gs_usage t = gs_usage st \<and> gs_prov t = gs_prov st \<and>
        (\<exists>ds. map fst ds = declared_tools g ts \<and> r = vs @ shown ds \<and>
           trace t = trace st @ map (list_effect g cc subject now (gs_usage st)) ds)"
  show ?case
  proof (cases "toolregistry_Lookup (gw_toolReg g) (tool_Name tool)")
    case None
    with Cons.IH [of visible s] show ?thesis by (simp add: declared_tools_def)
  next
    case (Some entry)
    let ?e = "\<lambda>r. EDecide (list_request cc subject entry tool now (gs_usage s)) r"
    have step: "wp (list_loop (traced_gateway g) cc subject now tools (visible @ shown [(tool, r)])) (?Q (tool # tools) visible s)
        (s\<lparr>gs_world := (w', tr @ [?e r])\<rparr>)" for r w'
    proof (rule wp_mono [OF Cons.IH])
      fix x t
      assume "?Q tools (visible @ shown [(tool, r)]) (s\<lparr>gs_world := (w', tr @ [?e r])\<rparr>) x t"
      then obtain ds where "gs_usage t = gs_usage s" "gs_prov t = gs_prov s" "map fst ds = declared_tools g tools"
          "x = visible @ shown [(tool, r)] @ shown ds" "trace t = tr @ ?e r # map (list_effect g cc subject now (gs_usage s)) ds"
        by auto
      then show "?Q (tool # tools) visible s x t"
        by (intro conjI exI [of _ "(tool, r) # ds"]) (simp_all add: Some w declared_tools_def shown_Cons [of _ ds] list_effect_def)
    qed
    have "wp (list_loop (traced_gateway g) cc subject now tools visible) (?Q (tool # tools) visible s)
        (s\<lparr>gs_world := (w', tr @ [?e (Inl err)])\<rparr>)" for err w'
      using step [of "Inl err"] by simp
    moreover have "wp (list_loop (traced_gateway g) cc subject now tools (visible @ [tool])) (?Q (tool # tools) visible s)
        (s\<lparr>gs_world := (w', tr @ [?e (Inr d)])\<rparr>)" if "allow_outcome (dr_Outcome d)" for d w'
      using step [of "Inr d"] that by simp
    moreover have "wp (list_loop (traced_gateway g) cc subject now tools visible) (?Q (tool # tools) visible s)
        (s\<lparr>gs_world := (w', tr @ [?e (Inr d)])\<rparr>)" if "\<not> allow_outcome (dr_Outcome d)" for d w'
      using step [of "Inr d"] that by simp
    ultimately show ?thesis
      by (simp add: Some w wp_simps) (rule wp_any, simp split: sum.splits)
  qed
qed

definition listing :: "'w Gateway \<Rightarrow> CallContext \<Rightarrow> usageTracker \<Rightarrow> Tool list \<Rightarrow> effect list \<Rightarrow> bool" where
  "listing g cc usage visible tr \<longleftrightarrow>
     (\<exists>err. tr = [EResolve (cc_Credential cc) (Inl err)] \<and> visible = []) \<or>
     (\<exists>subject. agentDenyReason g subject \<noteq> None \<and> tr = [EResolve (cc_Credential cc) (Inr subject)] \<and> visible = []) \<or>
     (\<exists>subject now ds. agentDenyReason g subject = None \<and>
        map fst ds = declared_tools g (StaticRegistry_Tools (gw_registry g)) \<and>
        tr = EResolve (cc_Credential cc) (Inr subject) # map (list_effect g cc subject now usage) ds \<and>
        visible = shown ds)"

text \<open>C14. \<^verbatim>\<open>ListTools\<close> never fails and never counts, records, exchanges or calls: it resolves the caller, asks
  for one decision on each declared tool, and shows exactly the declared tools whose decision
  allows, in the order of the registry. An unresolved caller, or an undeclared agent, sees nothing
  and no decision is asked for.\<close>

theorem ListTools_shows_allowed:
  "case run_state (ListTools (traced_gateway g) cc cursor) (fresh_trace s) of
     (r, t) \<Rightarrow> gs_usage t = gs_usage s \<and> gs_prov t = gs_prov s \<and>
       (\<exists>visible. r = Inr \<lparr>lt_Tools = visible, lt_NextCursor = []\<rparr> \<and> listing g cc (gs_usage s) visible (trace t))"
proof -
  let ?Q = "\<lambda>r t. gs_usage t = gs_usage s \<and> gs_prov t = gs_prov s \<and>
       (\<exists>visible. r = Inr \<lparr>lt_Tools = visible, lt_NextCursor = []\<rparr> \<and> listing g cc (gs_usage s) visible (trace t))"
  have "wp (list_loop (traced_gateway g) cc subject now (StaticRegistry_Tools (gw_registry g)) [])
      (\<lambda>visible t. ?Q (Inr \<lparr>lt_Tools = visible, lt_NextCursor = []\<rparr>) t)
      (fresh_trace s\<lparr>gs_world := (w', [EResolve (cc_Credential cc) (Inr subject)])\<rparr>)"
    if "agentDenyReason g subject = None" for subject now w'
    by (rule wp_mono [OF wp_list_loop]) (use that in \<open>auto simp: fresh_trace_def listing_def\<close>)
  then have "wp (ListTools (traced_gateway g) cc cursor) ?Q (fresh_trace s)"
    by (simp add: ListTools_def wp_simps fresh_trace_def)
      (rule wp_any, auto simp: listing_def wp_simps split: sum.splits intro: wp_any)
  then show ?thesis by (simp add: wp_def)
qed

end
