(* ===== verification/Go_Base64.thy ===== *)
theory Go_Base64
  imports HD_Prelude
begin

text \<open>
  The standard encoding of Go's \<^verbatim>\<open>encoding/base64\<close>: \<^verbatim>\<open>StdEncoding.EncodeToString\<close> and \<^verbatim>\<open>DecodeString\<close>. Decoding
  skips line breaks, takes groups of four characters of which the last may be padded, and does not
  look at the bits a padded group leaves over. Encoded text decodes to what was encoded.
\<close>

definition b64_char :: "nat \<Rightarrow> char" where
  "b64_char n =
     (if n < 26 then char_of (n + 65)
      else if n < 52 then char_of (n + 71)
      else if n < 62 then char_of (n - 4)
      else if n = 62 then CHR ''+'' else CHR ''/'')"

fun b64_encode :: "string \<Rightarrow> string" where
  "b64_encode [] = []"
| "b64_encode [a] =
     (let x = of_char a :: nat
      in [b64_char (x div 4), b64_char (x mod 4 * 16), CHR ''='', CHR ''=''])"
| "b64_encode [a, b] =
     (let x = of_char a :: nat; y = of_char b :: nat
      in [b64_char (x div 4), b64_char (x mod 4 * 16 + y div 16), b64_char (y mod 16 * 4), CHR ''=''])"
| "b64_encode (a # b # c # rest) =
     (let x = of_char a :: nat; y = of_char b :: nat; z = of_char c :: nat
      in b64_char (x div 4) # b64_char (x mod 4 * 16 + y div 16) # b64_char (y mod 16 * 4 + z div 64) # b64_char (z mod 64) #
         b64_encode rest)"

definition b64_val :: "char \<Rightarrow> nat option" where
  "b64_val c =
     (if CHR ''A'' \<le> c \<and> c \<le> CHR ''Z'' then Some (of_char c - 65)
      else if CHR ''a'' \<le> c \<and> c \<le> CHR ''z'' then Some (of_char c - 71)
      else if is_digit c then Some (of_char c + 4)
      else if c = CHR ''+'' then Some 62
      else if c = CHR ''/'' then Some 63
      else None)"

fun b64_groups :: "string \<Rightarrow> string option" where
  "b64_groups [] = Some []"
| "b64_groups (a # b # c # d # rest) =
     (case (b64_val a, b64_val b, b64_val c, b64_val d) of
        (Some x, Some y, Some z, Some w) \<Rightarrow>
          map_option (\<lambda>bs. char_of (x * 4 + y div 16) # char_of (y mod 16 * 16 + z div 4) # char_of (z mod 4 * 64 + w) # bs)
            (b64_groups rest)
      | (Some x, Some y, Some z, None) \<Rightarrow>
          if d = CHR ''='' \<and> rest = [] then Some [char_of (x * 4 + y div 16), char_of (y mod 16 * 16 + z div 4)] else None
      | (Some x, Some y, None, _) \<Rightarrow>
          if c = CHR ''='' \<and> d = CHR ''='' \<and> rest = [] then Some [char_of (x * 4 + y div 16)] else None
      | _ \<Rightarrow> None)"
| "b64_groups s = None"

definition b64_decode :: "string \<Rightarrow> string option" where
  "b64_decode s = b64_groups (filter (\<lambda>c. c \<noteq> CHR 10 \<and> c \<noteq> CHR 13) s)"

section \<open>Round trip\<close>

lemma b64_val_char: "n < 64 \<Longrightarrow> b64_val (b64_char n) = Some n"
  by (auto simp: b64_val_def b64_char_def is_digit_iff less_eq_char_def)

lemma b64_val_pad: "b64_val (CHR ''='') = None"
  by (simp add: b64_val_def is_digit_def)

lemma b64_char_no_break: "n < 64 \<Longrightarrow> b64_char n \<noteq> CHR 10 \<and> b64_char n \<noteq> CHR 13"
  using b64_val_char [of n] by (auto simp: b64_val_def is_digit_def)

lemma b64_sextets:
  fixes a b c :: char
  defines "x \<equiv> of_char a :: nat" and "y \<equiv> of_char b :: nat" and "z \<equiv> of_char c :: nat"
  shows "x div 4 < 64" "x mod 4 * 16 + y div 16 < 64" "y mod 16 * 4 + z div 64 < 64" "z mod 64 < 64" "x mod 4 * 16 < 64" "y mod 16 * 4 < 64"
proof -
  have l: "x < 256" "y < 256" "z < 256" by (simp_all add: x_def y_def z_def)
  show "x div 4 < 64" "x mod 4 * 16 < 64" "y mod 16 * 4 < 64" "z mod 64 < 64" using l by auto
  have "y div 16 < 16" "z div 64 < 4" "x mod 4 < 4" "y mod 16 < 16" using l by auto
  then show "x mod 4 * 16 + y div 16 < 64" "y mod 16 * 4 + z div 64 < 64" by linarith+
qed

lemma byte_parts:
  fixes c :: char
  shows "(of_char c :: nat) div 16 div 16 = 0" "(of_char c :: nat) div 64 div 4 = 0"
    "(of_char c :: nat) div 16 mod 16 = of_char c div 16" "(of_char c :: nat) div 64 mod 4 = of_char c div 64"
proof -
  have "(of_char c :: nat) < 256" by simp
  then have "(of_char c :: nat) div 16 < 16" "(of_char c :: nat) div 64 < 4" by linarith+
  then show "(of_char c :: nat) div 16 div 16 = 0" "(of_char c :: nat) div 64 div 4 = 0"
    "(of_char c :: nat) div 16 mod 16 = of_char c div 16" "(of_char c :: nat) div 64 mod 4 = of_char c div 64"
    by simp_all
qed

lemma b64_groups_encode: "b64_groups (b64_encode s) = Some s"
  by (induction s rule: b64_encode.induct)
    (simp_all add: Let_def b64_val_char b64_sextets b64_val_pad byte_parts)

lemma b64_encode_no_break: "filter (\<lambda>c. c \<noteq> CHR 10 \<and> c \<noteq> CHR 13) (b64_encode s) = b64_encode s"
  by (induction s rule: b64_encode.induct) (simp_all add: Let_def b64_char_no_break b64_sextets)

lemma b64_decode_encode [simp]: "b64_decode (b64_encode s) = Some s"
  by (simp add: b64_decode_def b64_encode_no_break b64_groups_encode)

lemma b64_char_ascii: "of_char (b64_char n) < (128 :: nat)"
  by (auto simp: b64_char_def)

lemma b64_encode_Nil_iff [simp]: "b64_encode s = [] \<longleftrightarrow> s = []"
  by (cases s rule: b64_encode.cases) (simp_all add: Let_def)

end
