(* ===== verification/HD_Server.thy ===== *)
theory HD_Server
  imports HD_Mcp Go_Base64
begin

text \<open>
  The agent-facing transport of \<^verbatim>\<open>pkg/mcp\<close>: JSON-RPC framing (\<^verbatim>\<open>jsonrpc.go\<close>), request metadata
  (\<^verbatim>\<open>meta.go\<close>) and the HTTP handler with its validation (\<^verbatim>\<open>server.go\<close>). A request is its method, its
  headers as \<^verbatim>\<open>Header.Get\<close> reads them and the bytes of its body; the body of a response is the JSON value
  that is written. The \<^verbatim>\<open>Handler\<close> the server calls is a record of two operations in the state monad;
  the random bytes of a request identifier are an argument. Where a message ends in the text of an
  \<^verbatim>\<open>encoding/json\<close> or \<^verbatim>\<open>encoding/base64\<close> error, that text is left out.

  The properties show that nothing reaches the handler unvalidated: headers, metadata and body of a
  request agree before the handler sees it, and what it sees is what they agree on.
\<close>

section \<open>\<^verbatim>\<open>jsonrpc.go\<close>\<close>

record rpcRequest =
  rq_JSONRPC :: string
  rq_ID :: raw
  rq_Method :: string
  rq_Params :: raw

definition zero_rpcRequest :: rpcRequest where
  "zero_rpcRequest = \<lparr>rq_JSONRPC = [], rq_ID = None, rq_Method = [], rq_Params = None\<rparr>"

definition rpcRequest_fields :: "rpcRequest field list" where
  "rpcRequest_fields =
     [(''jsonrpc'', dec_str (\<lambda>x. rq_JSONRPC_update (\<lambda>_. x))),
      (''id'', dec_raw (\<lambda>x. rq_ID_update (\<lambda>_. x))),
      (''method'', dec_str (\<lambda>x. rq_Method_update (\<lambda>_. x))),
      (''params'', dec_raw (\<lambda>x. rq_Params_update (\<lambda>_. x)))]"

definition isNotification :: "rpcRequest \<Rightarrow> bool" where
  "isNotification r \<longleftrightarrow> rq_ID r = None"

record rpcError =
  re_Code :: int
  re_Message :: string
  re_Data :: raw

abbreviation rpc_error :: "int \<Rightarrow> string \<Rightarrow> rpcError" where
  "rpc_error code message \<equiv> \<lparr>re_Code = code, re_Message = message, re_Data = None\<rparr>"

definition codeParseError :: int where "codeParseError = -32700"
definition codeInvalidRequest :: int where "codeInvalidRequest = -32600"
definition codeMethodNotFound :: int where "codeMethodNotFound = -32601"
definition codeInvalidParams :: int where "codeInvalidParams = -32602"
definition codeInternalError :: int where "codeInternalError = -32603"
definition codeHeaderMismatch :: int where "codeHeaderMismatch = -32020"
definition codeUnsupportedProtocolVersion :: int where "codeUnsupportedProtocolVersion = -32022"

definition omit_raw :: "string \<Rightarrow> raw \<Rightarrow> (string \<times> json) list" where
  "omit_raw k r = (case r of None \<Rightarrow> [] | Some v \<Rightarrow> [(k, v)])"

definition json_of_rpcError :: "rpcError \<Rightarrow> json" where
  "json_of_rpcError e =
     JObj ([(''code'', JNum (show_int (re_Code e))), (''message'', JStr (re_Message e))] @ omit_raw ''data'' (re_Data e))"

definition json_of_rpcErrorResponse :: "raw \<Rightarrow> rpcError \<Rightarrow> json" where
  "json_of_rpcErrorResponse reqID e =
     JObj ([(''jsonrpc'', JStr ''2.0'')] @ omit_raw ''id'' reqID @ [(''error'', json_of_rpcError e)])"

definition json_of_rpcResultResponse :: "raw \<Rightarrow> json \<Rightarrow> json" where
  "json_of_rpcResultResponse reqID result =
     JObj [(''jsonrpc'', JStr ''2.0''), (''id'', case reqID of None \<Rightarrow> JNull | Some i \<Rightarrow> i), (''result'', result)]"

definition json_of_unsupported :: "string list \<Rightarrow> string \<Rightarrow> json" where
  "json_of_unsupported supported requested =
     JObj [(''supported'', JArr (map JStr supported)), (''requested'', JStr requested)]"

section \<open>\<^verbatim>\<open>meta.go\<close>\<close>

definition implementation_fields :: "Implementation field list" where
  "implementation_fields =
     [(''name'', dec_str (\<lambda>x. impl_Name_update (\<lambda>_. x))),
      (''version'', dec_str (\<lambda>x. impl_Version_update (\<lambda>_. x)))]"

definition json_of_implementation :: "Implementation \<Rightarrow> json" where
  "json_of_implementation i = JObj [(''name'', JStr (impl_Name i)), (''version'', JStr (impl_Version i))]"

record requestMeta =
  rm_ProtocolVersion :: string
  rm_ClientInfo :: "Implementation option"
  rm_ClientCapabilities :: raw

definition zero_requestMeta :: requestMeta where
  "zero_requestMeta = \<lparr>rm_ProtocolVersion = [], rm_ClientInfo = None, rm_ClientCapabilities = None\<rparr>"

text \<open>A pointer field: \<^verbatim>\<open>null\<close> makes it nil, an object is decoded into what it points to.\<close>

definition dec_ptr :: "'e field list \<Rightarrow> 'e \<Rightarrow> ('r \<Rightarrow> 'e option) \<Rightarrow> ('e option \<Rightarrow> 'r \<Rightarrow> 'r) \<Rightarrow> json \<Rightarrow> 'r \<Rightarrow> 'r option" where
  "dec_ptr fs zero get put v r =
     (if v = JNull then Some (put None r)
      else map_option (\<lambda>x. put (Some x) r) (dec_struct fs v (case get r of None \<Rightarrow> zero | Some x \<Rightarrow> x)))"

definition requestMeta_fields :: "requestMeta field list" where
  "requestMeta_fields =
     [(''io.modelcontextprotocol/protocolVersion'', dec_str (\<lambda>x. rm_ProtocolVersion_update (\<lambda>_. x))),
      (''io.modelcontextprotocol/clientInfo'',
         dec_ptr implementation_fields \<lparr>impl_Name = [], impl_Version = []\<rparr> rm_ClientInfo (\<lambda>x. rm_ClientInfo_update (\<lambda>_. x))),
      (''io.modelcontextprotocol/clientCapabilities'', dec_raw (\<lambda>x. rm_ClientCapabilities_update (\<lambda>_. x)))]"

record paramsMeta =
  pm_Meta :: "requestMeta option"

definition paramsMeta_fields :: "paramsMeta field list" where
  "paramsMeta_fields =
     [(''_meta'', dec_ptr requestMeta_fields zero_requestMeta pm_Meta (\<lambda>x. pm_Meta_update (\<lambda>_. x)))]"

text \<open>The error of \<^verbatim>\<open>json.Unmarshal\<close> on no bytes at all is \<open>None\<close> here too.\<close>

definition unmarshal_raw :: "'r field list \<Rightarrow> raw \<Rightarrow> 'r \<Rightarrow> 'r option" where
  "unmarshal_raw fs params zero = (case params of None \<Rightarrow> None | Some v \<Rightarrow> dec_struct fs v zero)"

definition parseMeta :: "raw \<Rightarrow> rpcError + requestMeta" where
  "parseMeta params =
     (case (if params = None then Some \<lparr>pm_Meta = None\<rparr> else unmarshal_raw paramsMeta_fields params \<lparr>pm_Meta = None\<rparr>) of
        None \<Rightarrow> Inl (rpc_error codeInvalidParams ''params is not a JSON object'')
      | Some pm \<Rightarrow>
          (case pm_Meta pm of
             None \<Rightarrow> Inl (rpc_error codeInvalidParams ''params._meta is required'')
           | Some m \<Rightarrow>
               if rm_ProtocolVersion m = [] then
                 Inl (rpc_error codeInvalidParams (''params._meta['' @ quoteq ''io.modelcontextprotocol/protocolVersion'' @ ''] is required''))
               else if rm_ClientCapabilities m = None then
                 Inl (rpc_error codeInvalidParams (''params._meta['' @ quoteq ''io.modelcontextprotocol/clientCapabilities'' @ ''] is required''))
               else Inr m))"

definition serverInfoMeta :: "string \<Rightarrow> json" where
  "serverInfoMeta version =
     JObj [(''io.modelcontextprotocol/serverInfo'',
       json_of_implementation \<lparr>impl_Name = ''helmdeep-gateway'', impl_Version = version\<rparr>)]"

section \<open>\<^verbatim>\<open>server.go\<close>: values\<close>

record http_request =
  hr_Method :: string
  hr_Header :: "string \<Rightarrow> string"
  hr_Body :: string

datatype http_body = NoBody | PlainText string | JsonBody json

record http_response =
  hw_Status :: int
  hw_Body :: http_body

record 's Handler =
  h_ListTools :: "CallContext \<Rightarrow> string \<Rightarrow> ('s, handler_error + ListToolsResult) state"
  h_CallTool :: "CallContext \<Rightarrow> string \<Rightarrow> json gomap \<Rightarrow> ('s, handler_error + ToolResult) state"

record 's Server =
  sv_AllowedOrigins :: "string list"
  sv_handler :: "'s Handler"
  sv_version :: string

definition writeError :: "int \<Rightarrow> raw \<Rightarrow> rpcError \<Rightarrow> http_response" where
  "writeError status reqID e = \<lparr>hw_Status = status, hw_Body = JsonBody (coerce_json (json_of_rpcErrorResponse reqID e))\<rparr>"

definition writeResult :: "raw \<Rightarrow> json \<Rightarrow> http_response" where
  "writeResult reqID result = \<lparr>hw_Status = 200, hw_Body = JsonBody (coerce_json (json_of_rpcResultResponse reqID result))\<rparr>"

definition internalError :: "raw \<Rightarrow> http_response" where
  "internalError reqID = writeError 500 reqID (rpc_error codeInternalError ''internal error'')"

fun list_contains :: "string list \<Rightarrow> string \<Rightarrow> bool" where
  "list_contains [] v = False"
| "list_contains (item # items) v = (if item = v then True else list_contains items v)"

definition rawOrEmptyArray :: "raw \<Rightarrow> json" where
  "rawOrEmptyArray r = (case r of None \<Rightarrow> JArr [] | Some v \<Rightarrow> v)"

definition newRequestID :: "string option \<Rightarrow> string" where
  "newRequestID rnd = (case rnd of None \<Rightarrow> ''req-rand-unavailable'' | Some b \<Rightarrow> ''req_'' @ hex_encode b)"

definition bearerToken :: "http_request \<Rightarrow> string" where
  "bearerToken r =
     (let auth = hr_Header r ''Authorization''
      in if hasPrefix auth ''Bearer '' then trimPrefix auth ''Bearer '' else [])"

definition b64SentinelPrefix :: string where "b64SentinelPrefix = ''=?base64?''"
definition b64SentinelSuffix :: string where "b64SentinelSuffix = ''?=''"

definition decodeHeaderValue :: "string \<Rightarrow> string option" where
  "decodeHeaderValue v =
     (if \<not> hasPrefix v b64SentinelPrefix \<or> \<not> hasSuffix v b64SentinelSuffix then Some v
      else b64_decode (trimSuffix (trimPrefix v b64SentinelPrefix) b64SentinelSuffix))"

section \<open>\<^verbatim>\<open>server.go\<close>: requests\<close>

record toolCallParams =
  tp_Name :: string
  tp_Arguments :: raw

definition toolCallParams_fields :: "toolCallParams field list" where
  "toolCallParams_fields =
     [(''name'', dec_str (\<lambda>x. tp_Name_update (\<lambda>_. x))), (''arguments'', dec_raw (\<lambda>x. tp_Arguments_update (\<lambda>_. x)))]"

definition toolCall_params :: "raw \<Rightarrow> toolCallParams option" where
  "toolCall_params params = unmarshal_raw toolCallParams_fields params \<lparr>tp_Name = [], tp_Arguments = None\<rparr>"

definition validateStandardHeaders :: "http_request \<Rightarrow> rpcRequest \<Rightarrow> rpcError option" where
  "validateStandardHeaders r req =
     (let meth = hr_Header r ''Mcp-Method''; name = hr_Header r ''Mcp-Name''
      in if meth = [] then Some (rpc_error codeHeaderMismatch ''missing required header: Mcp-Method'')
         else if meth \<noteq> rq_Method req then Some (rpc_error codeHeaderMismatch ''Mcp-Method header does not match body method'')
         else if rq_Method req \<noteq> ''tools/call'' then None
         else if name = [] then Some (rpc_error codeHeaderMismatch ''missing required header: Mcp-Name'')
         else (case decodeHeaderValue name of
            None \<Rightarrow> Some (rpc_error codeHeaderMismatch ''Mcp-Name header is not validly encoded'')
          | Some decoded \<Rightarrow>
              (case toolCall_params (rq_Params req) of
                 None \<Rightarrow> None
               | Some p \<Rightarrow>
                   if decoded \<noteq> tp_Name p
                   then Some (rpc_error codeHeaderMismatch ''Mcp-Name header does not match params.name'') else None)))"

definition handleDiscover :: "'s Server \<Rightarrow> rpcRequest \<Rightarrow> http_response" where
  "handleDiscover s req =
     writeResult (rq_ID req)
       (JObj [(''_meta'', serverInfoMeta (sv_version s)),
              (''capabilities'', JObj [(''tools'', JObj [(''listChanged'', JBool False)])]),
              (''instructions'', JStr ''HelmDeep Tool Gateway: forwards tools/list and tools/call to upstream MCP servers, subject to policy.''),
              (''resultType'', JStr ''complete''),
              (''supportedVersions'', JArr [JStr ProtocolVersionCurrent])])"

text \<open>
  The error of decoding the parameters of a listing is ignored: what was decoded before it stays,
  so the cursor is the last member of that name that is a string.
\<close>

definition list_cursor :: "raw \<Rightarrow> string" where
  "list_cursor params =
     (case params of
        Some (JObj es) \<Rightarrow>
          fold (\<lambda>(k, v) c. if fold_name k = ''cursor'' then (case v of JStr s \<Rightarrow> s | _ \<Rightarrow> c) else c) es []
      | _ \<Rightarrow> [])"

definition json_of_tool :: "Tool \<Rightarrow> json" where
  "json_of_tool t =
     JObj ([(''name'', JStr (tool_Name t))] @ omit_str ''description'' (tool_Description t) @
           [(''inputSchema'', case tool_InputSchema t of None \<Rightarrow> JNull | Some v \<Rightarrow> v)])"

text \<open>A nil slice of tools is written as \<^verbatim>\<open>null\<close>; the gateway's listing is nil when it is empty.\<close>

definition json_of_tools :: "Tool list \<Rightarrow> json" where
  "json_of_tools ts = (if ts = [] then JNull else JArr (map json_of_tool ts))"

definition handleListTools :: "'s Server \<Rightarrow> rpcRequest \<Rightarrow> CallContext \<Rightarrow> ('s, http_response) state" where
  "handleListTools s req cc =
     do {
       r \<leftarrow> h_ListTools (sv_handler s) cc (list_cursor (rq_Params req));
       State_Monad.return (case r of
           Inl err \<Rightarrow> internalError (rq_ID req)
         | Inr result \<Rightarrow>
             writeResult (rq_ID req)
               (JObj ([(''_meta'', serverInfoMeta (sv_version s))] @
                      omit_str ''nextCursor'' (lt_NextCursor result) @
                      [(''resultType'', JStr ''complete''), (''tools'', json_of_tools (lt_Tools result))])))
     }"

definition call_arguments :: "raw \<Rightarrow> json gomap option" where
  "call_arguments r =
     (case r of
        None \<Rightarrow> Some []
      | Some v \<Rightarrow> (case any_of v of Some (JObj es) \<Rightarrow> Some es | Some JNull \<Rightarrow> Some [] | _ \<Rightarrow> None))"

definition json_of_result :: "string \<Rightarrow> ToolResult \<Rightarrow> json" where
  "json_of_result version result =
     JObj ([(''_meta'', serverInfoMeta version), (''content'', rawOrEmptyArray (tr_Content result)),
            (''isError'', JBool (tr_IsError result)), (''resultType'', JStr ''complete'')] @
           omit_raw ''structuredContent'' (tr_StructuredContent result))"

definition handleCallTool :: "'s Server \<Rightarrow> rpcRequest \<Rightarrow> CallContext \<Rightarrow> ('s, http_response) state" where
  "handleCallTool s req cc =
     (case toolCall_params (rq_Params req) of
        None \<Rightarrow> State_Monad.return (writeError 400 (rq_ID req) (rpc_error codeInvalidParams ''malformed tools/call params''))
      | Some p \<Rightarrow>
          (case call_arguments (tp_Arguments p) of
             None \<Rightarrow> State_Monad.return (writeError 400 (rq_ID req) (rpc_error codeInvalidParams ''malformed arguments''))
           | Some args \<Rightarrow>
               do {
                 r \<leftarrow> h_CallTool (sv_handler s) cc (tp_Name p) args;
                 State_Monad.return (case r of
                     Inl (Protocol pe) \<Rightarrow> writeError 400 (rq_ID req) (rpc_error (pe_Code pe) (pe_Message pe))
                   | Inl (Other err) \<Rightarrow> internalError (rq_ID req)
                   | Inr result \<Rightarrow> writeResult (rq_ID req) (json_of_result (sv_version s) result))
               }))"

definition dispatch :: "'s Server \<Rightarrow> rpcRequest \<Rightarrow> CallContext \<Rightarrow> ('s, http_response) state" where
  "dispatch s req cc =
     (if rq_Method req = ''server/discover'' then State_Monad.return (handleDiscover s req)
      else if rq_Method req = ''tools/list'' then handleListTools s req cc
      else if rq_Method req = ''tools/call'' then handleCallTool s req cc
      else State_Monad.return (writeError 404 (rq_ID req) (rpc_error codeMethodNotFound (''method not found: '' @ rq_Method req))))"

definition decode_request :: "string \<Rightarrow> rpcRequest option" where
  "decode_request body = (case first_json body of None \<Rightarrow> None | Some v \<Rightarrow> dec_struct rpcRequest_fields v zero_rpcRequest)"

definition serveHTTP :: "string option \<Rightarrow> 's Server \<Rightarrow> http_request \<Rightarrow> ('s, http_response) state" where
  "serveHTTP rnd s r =
     (let origin = hr_Header r ''Origin''
      in if origin \<noteq> [] \<and> sv_AllowedOrigins s \<noteq> [] \<and> \<not> list_contains (sv_AllowedOrigins s) origin then
           State_Monad.return \<lparr>hw_Status = 403, hw_Body = PlainText ''origin not allowed''\<rparr>
         else if hr_Method r \<noteq> ''POST'' then State_Monad.return \<lparr>hw_Status = 405, hw_Body = NoBody\<rparr>
         else (case decode_request (hr_Body r) of
            None \<Rightarrow> State_Monad.return (writeError 400 None (rpc_error codeParseError ''malformed JSON-RPC message''))
          | Some req \<Rightarrow>
              if isNotification req then
                State_Monad.return (writeError 400 None
                  (rpc_error codeInvalidRequest ''notifications are not accepted on this endpoint''))
              else (case validateStandardHeaders r req of
                 Some mismatch \<Rightarrow> State_Monad.return (writeError 400 (rq_ID req) mismatch)
               | None \<Rightarrow>
                   (case parseMeta (rq_Params req) of
                      Inl mErr \<Rightarrow> State_Monad.return (writeError 400 (rq_ID req) mErr)
                    | Inr meta \<Rightarrow>
                        (let headerVersion = hr_Header r ''MCP-Protocol-Version''
                         in if headerVersion = [] then
                              State_Monad.return (writeError 400 (rq_ID req)
                                (rpc_error codeHeaderMismatch ''missing required header: MCP-Protocol-Version''))
                            else if headerVersion \<noteq> rm_ProtocolVersion meta then
                              State_Monad.return (writeError 400 (rq_ID req)
                                (rpc_error codeHeaderMismatch (''MCP-Protocol-Version header does not match _meta['' @
                                   quoteq ''io.modelcontextprotocol/protocolVersion'' @ '']'')))
                            else if rm_ProtocolVersion meta \<noteq> ProtocolVersionCurrent then
                              State_Monad.return (writeError 400 (rq_ID req)
                                \<lparr>re_Code = codeUnsupportedProtocolVersion, re_Message = ''unsupported protocol version'',
                                 re_Data = Some (json_of_unsupported [ProtocolVersionCurrent] (rm_ProtocolVersion meta))\<rparr>)
                            else dispatch s req
                              \<lparr>cc_Credential = bearerToken r, cc_ClientInfo = rm_ClientInfo meta,
                               cc_ProtocolVersion = rm_ProtocolVersion meta, cc_RequestID = newRequestID rnd\<rparr>)))))"

section \<open>What the server accepts\<close>

text \<open>The call context the handler sees.\<close>

definition request_context :: "string option \<Rightarrow> http_request \<Rightarrow> requestMeta \<Rightarrow> CallContext" where
  "request_context rnd r meta =
     \<lparr>cc_Credential = bearerToken r, cc_ClientInfo = rm_ClientInfo meta,
      cc_ProtocolVersion = rm_ProtocolVersion meta, cc_RequestID = newRequestID rnd\<rparr>"

text \<open>
  A request whose parts agree: origin allowed, a request and not a notification, the headers for the
  method, the tool and the version present and equal to what the body says, and the version the one
  this server speaks.
\<close>

definition accepted :: "'s Server \<Rightarrow> http_request \<Rightarrow> rpcRequest \<Rightarrow> requestMeta \<Rightarrow> bool" where
  "accepted s r req meta \<longleftrightarrow>
     (hr_Header r ''Origin'' = [] \<or> sv_AllowedOrigins s = [] \<or> hr_Header r ''Origin'' \<in> set (sv_AllowedOrigins s)) \<and>
     hr_Method r = ''POST'' \<and> decode_request (hr_Body r) = Some req \<and> rq_ID req \<noteq> None \<and>
     rq_Method req \<noteq> [] \<and> hr_Header r ''Mcp-Method'' = rq_Method req \<and>
     (rq_Method req = ''tools/call'' \<longrightarrow>
        hr_Header r ''Mcp-Name'' \<noteq> [] \<and> decodeHeaderValue (hr_Header r ''Mcp-Name'') \<noteq> None \<and>
        (case toolCall_params (rq_Params req) of
           None \<Rightarrow> True | Some p \<Rightarrow> decodeHeaderValue (hr_Header r ''Mcp-Name'') = Some (tp_Name p))) \<and>
     parseMeta (rq_Params req) = Inr meta \<and> rm_ProtocolVersion meta = ProtocolVersionCurrent \<and>
     hr_Header r ''MCP-Protocol-Version'' = ProtocolVersionCurrent"

lemma list_contains_iff [simp]: "list_contains xs v \<longleftrightarrow> v \<in> set xs"
  by (induction xs) auto

lemma validate_None_iff:
  "validateStandardHeaders r req = None \<longleftrightarrow>
     rq_Method req \<noteq> [] \<and> hr_Header r ''Mcp-Method'' = rq_Method req \<and>
     (rq_Method req = ''tools/call'' \<longrightarrow>
        hr_Header r ''Mcp-Name'' \<noteq> [] \<and> decodeHeaderValue (hr_Header r ''Mcp-Name'') \<noteq> None \<and>
        (case toolCall_params (rq_Params req) of
           None \<Rightarrow> True | Some p \<Rightarrow> decodeHeaderValue (hr_Header r ''Mcp-Name'') = Some (tp_Name p)))"
  by (cases "rq_Method req = ''tools/call''")
    (auto simp: validateStandardHeaders_def Let_def split: option.splits)

lemma accepted_iff:
  "accepted s r req meta \<longleftrightarrow>
     (hr_Header r ''Origin'' = [] \<or> sv_AllowedOrigins s = [] \<or> hr_Header r ''Origin'' \<in> set (sv_AllowedOrigins s)) \<and>
     hr_Method r = ''POST'' \<and> decode_request (hr_Body r) = Some req \<and> rq_ID req \<noteq> None \<and>
     validateStandardHeaders r req = None \<and> parseMeta (rq_Params req) = Inr meta \<and>
     rm_ProtocolVersion meta = ProtocolVersionCurrent \<and> hr_Header r ''MCP-Protocol-Version'' = ProtocolVersionCurrent"
  unfolding accepted_def validate_None_iff by (simp only: conj_assoc)

lemma serveHTTP_accepted:
  "accepted s r req meta \<Longrightarrow> serveHTTP rnd s r = dispatch s req (request_context rnd r meta)"
  unfolding accepted_iff serveHTTP_def request_context_def
  by (auto simp: isNotification_def Let_def ProtocolVersionCurrent_def)

lemma writeError_status [simp]: "hw_Status (writeError c i e) = c"
  by (simp add: writeError_def)

lemma serveHTTP_rejected:
  assumes "\<nexists>req meta. accepted s r req meta"
  shows "\<exists>resp. serveHTTP rnd s r = State_Monad.return resp \<and> 400 \<le> hw_Status resp"
proof -
  let ?ok = "hr_Header r ''Origin'' = [] \<or> sv_AllowedOrigins s = [] \<or> hr_Header r ''Origin'' \<in> set (sv_AllowedOrigins s)"
  show ?thesis
  proof (cases "?ok \<and> hr_Method r = ''POST''")
    case False
    then show ?thesis by (auto simp: serveHTTP_def Let_def)
  next
    case ok: True
    show ?thesis
    proof (cases "decode_request (hr_Body r)")
      case None
      with ok show ?thesis by (auto simp: serveHTTP_def Let_def)
    next
      case (Some req)
      show ?thesis
      proof (cases "rq_ID req = None \<or> validateStandardHeaders r req \<noteq> None")
        case True
        with ok Some show ?thesis by (auto simp: serveHTTP_def isNotification_def Let_def)
      next
        case False
        show ?thesis
        proof (cases "parseMeta (rq_Params req)")
          case (Inl e)
          with ok Some False show ?thesis by (auto simp: serveHTTP_def isNotification_def Let_def)
        next
          case (Inr meta)
          have "\<not> accepted s r req meta" using assms by blast
          with ok Some False Inr have "rm_ProtocolVersion meta \<noteq> ProtocolVersionCurrent \<or>
              hr_Header r ''MCP-Protocol-Version'' \<noteq> ProtocolVersionCurrent"
            by (simp add: accepted_iff)
          with ok Some False Inr show ?thesis by (auto simp: serveHTTP_def isNotification_def Let_def)
        qed
      qed
    qed
  qed
qed

section \<open>Properties\<close>

text \<open>C20. Nothing reaches the handler unvalidated: if a request changes the state behind the server or is
  answered with success, then its origin is allowed, it is a POST of a JSON-RPC request with an
  identifier, its headers agree with its body on method, version and tool, and the version is the
  one spoken. The handler then runs once, as the caller the bearer token names, on exactly what
  the headers announced: a tool call is made for the tool of the header, with the arguments of
  the body.\<close>

theorem serveHTTP_validates:
  assumes "run_state (serveHTTP rnd s r) st = (resp, st')" and "st' \<noteq> st \<or> hw_Status resp = 200"
  shows "\<exists>req meta. accepted s r req meta \<and>
    (if rq_Method req = ''server/discover'' then st' = st
     else if rq_Method req = ''tools/list'' then
       st' = snd (run_state (h_ListTools (sv_handler s) (request_context rnd r meta) (list_cursor (rq_Params req))) st)
     else rq_Method req = ''tools/call'' \<and>
       (\<exists>p args. toolCall_params (rq_Params req) = Some p \<and> call_arguments (tp_Arguments p) = Some args \<and>
          decodeHeaderValue (hr_Header r ''Mcp-Name'') = Some (tp_Name p) \<and>
          st' = snd (run_state (h_CallTool (sv_handler s) (request_context rnd r meta) (tp_Name p) args) st)))"
proof (cases "\<exists>req meta. accepted s r req meta")
  case False
  with serveHTTP_rejected [of s r rnd] assms show ?thesis by auto
next
  case True
  then obtain req meta where acc: "accepted s r req meta" by blast
  with assms(1) have run: "run_state (dispatch s req (request_context rnd r meta)) st = (resp, st')"
    by (simp add: serveHTTP_accepted)
  consider "rq_Method req = ''server/discover''" | "rq_Method req = ''tools/list''"
    | "rq_Method req = ''tools/call''"
    using run assms(2) by (auto simp: dispatch_def split: if_splits)
  then show ?thesis
  proof cases
    case 1
    with run acc show ?thesis by (intro exI [of _ req] exI [of _ meta]) (simp add: dispatch_def)
  next
    case 2
    with run acc show ?thesis
      by (intro exI [of _ req] exI [of _ meta]) (auto simp: dispatch_def handleListTools_def split: prod.splits)
  next
    case 3
    with run assms(2) obtain p args where p: "toolCall_params (rq_Params req) = Some p" "call_arguments (tp_Arguments p) = Some args"
      by (auto simp: dispatch_def handleCallTool_def split: option.splits)
    with 3 run have "st' = snd (run_state (h_CallTool (sv_handler s) (request_context rnd r meta) (tp_Name p) args) st)"
      by (auto simp: dispatch_def handleCallTool_def split: prod.splits)
    with acc p 3 show ?thesis
      by (intro exI [of _ req] exI [of _ meta]) (auto simp: accepted_def)
  qed
qed

end
