(* ===== verification/HD_Client.thy ===== *)
theory HD_Client
  imports HD_Server HD_Audit
begin

text \<open>
  \<^verbatim>\<open>pkg/mcp/client.go\<close>: the upstream that speaks JSON-RPC over HTTP. The HTTP client is the argument
  \<open>send\<close>, an operation of the world on a URL and a request; a request identifier takes its random
  bytes from the world too. Request bodies are the bytes \<^verbatim>\<open>json.Marshal\<close> writes, response bodies the
  bytes that were read.

  The properties show how the two ends of \<^verbatim>\<open>pkg/mcp\<close> fit: what the client sends, the server of
  \<open>HD_Server\<close> accepts and hands to its handler unchanged, and the client returns what the handler
  answered.
\<close>

section \<open>The client\<close>

record HTTPUpstream =
  hu_name :: string
  hu_baseURL :: string
  hu_bearerToken :: string

definition NewHTTPUpstream :: "string \<Rightarrow> string \<Rightarrow> string \<Rightarrow> HTTPUpstream" where
  "NewHTTPUpstream name baseURL token = \<lparr>hu_name = name, hu_baseURL = baseURL, hu_bearerToken = token\<rparr>"

text \<open>
  What sending a request comes to: it cannot be built, it fails, its answer cannot be read to the
  end, or an answer with its status, content type and body.
\<close>

datatype transport =
    BuildFailed error
  | SendFailed error
  | ReadFailed string error
  | Answered int string string

type_synonym 'w http_send = "string \<Rightarrow> http_request \<Rightarrow> ('w, transport) state"

definition client_meta :: json where
  "client_meta =
     JObj [(''io.modelcontextprotocol/clientCapabilities'', JObj []),
           (''io.modelcontextprotocol/clientInfo'',
              json_of_implementation \<lparr>impl_Name = ''helmdeep-gateway'', impl_Version = ''internal''\<rparr>),
           (''io.modelcontextprotocol/protocolVersion'', JStr ProtocolVersionCurrent)]"

definition json_of_rpcRequest :: "rpcRequest \<Rightarrow> json" where
  "json_of_rpcRequest r =
     JObj ([(''jsonrpc'', JStr (rq_JSONRPC r))] @ omit_raw ''id'' (rq_ID r) @ [(''method'', JStr (rq_Method r))] @
           omit_raw ''params'' (rq_Params r))"

definition client_header :: "HTTPUpstream \<Rightarrow> string \<Rightarrow> string \<Rightarrow> string \<Rightarrow> string \<Rightarrow> string" where
  "client_header u meth name credentialOverride h =
     (if h = ''Content-Type'' then ''application/json''
      else if h = ''Accept'' then ''application/json, text/event-stream''
      else if h = ''MCP-Protocol-Version'' then ProtocolVersionCurrent
      else if h = ''Mcp-Method'' then meth
      else if h = ''Mcp-Name'' then name
      else if h = ''Authorization'' then
        (if credentialOverride \<noteq> [] then ''Bearer '' @ credentialOverride
         else if hu_bearerToken u \<noteq> [] then ''Bearer '' @ hu_bearerToken u else [])
      else [])"

definition client_request :: "HTTPUpstream \<Rightarrow> string \<Rightarrow> string \<Rightarrow> string \<Rightarrow> string \<Rightarrow> json gomap \<Rightarrow> http_request" where
  "client_request u reqID meth name credentialOverride params =
     \<lparr>hr_Method = ''POST'', hr_Header = client_header u meth name credentialOverride,
      hr_Body = json_text (json_of_rpcRequest
        \<lparr>rq_JSONRPC = ''2.0'', rq_ID = Some (JStr reqID), rq_Method = meth,
         rq_Params = Some (JObj (gm_upd ''_meta'' client_meta params))\<rparr>)\<rparr>"

definition rpcError_fields :: "rpcError field list" where
  "rpcError_fields =
     [(''code'', dec_int (\<lambda>x. re_Code_update (\<lambda>_. x))),
      (''message'', dec_str (\<lambda>x. re_Message_update (\<lambda>_. x))),
      (''data'', dec_any (\<lambda>x. re_Data_update (\<lambda>_. Some x)))]"

record envelope =
  en_Result :: raw
  en_Error :: "rpcError option"

definition envelope_fields :: "envelope field list" where
  "envelope_fields =
     [(''result'', dec_raw (\<lambda>x. en_Result_update (\<lambda>_. x))),
      (''error'', dec_ptr rpcError_fields (rpc_error 0 []) en_Error (\<lambda>x. en_Error_update (\<lambda>_. x)))]"

definition decode_envelope :: "string \<Rightarrow> envelope option" where
  "decode_envelope body =
     (case parse_json body of
        None \<Rightarrow> None
      | Some v \<Rightarrow> dec_struct envelope_fields v \<lparr>en_Result = None, en_Error = None\<rparr>)"

definition read_answer :: "HTTPUpstream \<Rightarrow> (raw \<Rightarrow> 'r option) \<Rightarrow> transport \<Rightarrow> error + 'r" where
  "read_answer u dec t =
     (let unsupported = (\<lambda>ct. ct \<noteq> [] \<and> ct \<noteq> ''application/json'' \<and> \<not> hasPrefix ct ''application/json;'');
          bad_type = (\<lambda>ct. ''upstream '' @ hu_name u @ '' responded with unsupported Content-Type '' @ quoteq ct @
            '' (only application/json is supported)'')
      in case t of
           BuildFailed err \<Rightarrow> Inl (''build request to upstream '' @ hu_name u @ '': '' @ err)
         | SendFailed err \<Rightarrow> Inl (''call upstream '' @ hu_name u @ '': '' @ err)
         | ReadFailed ct err \<Rightarrow>
             if unsupported ct then Inl (bad_type ct) else Inl (''read response from upstream '' @ hu_name u @ '': '' @ err)
         | Answered status ct body \<Rightarrow>
             if unsupported ct then Inl (bad_type ct)
             else (case decode_envelope body of
                None \<Rightarrow> Inl (''upstream '' @ hu_name u @ '' returned malformed JSON-RPC (HTTP '' @ show_int status @ '')'')
              | Some e \<Rightarrow>
                  (case en_Error e of
                     Some err \<Rightarrow> Inl (''upstream '' @ hu_name u @ '' returned error '' @ show_int (re_Code err) @ '': '' @ re_Message err)
                   | None \<Rightarrow>
                       (case dec (en_Result e) of
                          None \<Rightarrow> Inl (''upstream '' @ hu_name u @ '' result did not match expected shape'')
                        | Some x \<Rightarrow> Inr x))))"

definition HTTPUpstream_call ::
  "'w http_send \<Rightarrow> ('w, string option) state \<Rightarrow> HTTPUpstream \<Rightarrow> string \<Rightarrow> string \<Rightarrow> string \<Rightarrow> json gomap \<Rightarrow> (raw \<Rightarrow> 'r option) \<Rightarrow>
     ('w, error + 'r) state" where
  "HTTPUpstream_call send rnd u meth name credentialOverride params dec =
     do {
       b \<leftarrow> rnd;
       t \<leftarrow> send (hu_baseURL u) (client_request u (newRequestID b) meth name credentialOverride params);
       State_Monad.return (read_answer u dec t)
     }"

definition tool_fields :: "Tool field list" where
  "tool_fields =
     [(''name'', dec_str (\<lambda>x. tool_Name_update (\<lambda>_. x))),
      (''description'', dec_str (\<lambda>x. tool_Description_update (\<lambda>_. x))),
      (''inputSchema'', dec_raw (\<lambda>x. tool_InputSchema_update (\<lambda>_. x)))]"

definition tool_elem :: "json \<Rightarrow> Tool option" where
  "tool_elem v = dec_struct tool_fields v \<lparr>tool_Name = [], tool_Description = [], tool_InputSchema = None, tool_Upstream = []\<rparr>"

definition list_result :: "raw \<Rightarrow> Tool list option" where
  "list_result r = unmarshal_raw [(''tools'', dec_slice tool_elem (\<lambda>ts _. ts))] r []"

definition HTTPUpstream_ListTools :: "'w http_send \<Rightarrow> ('w, string option) state \<Rightarrow> HTTPUpstream \<Rightarrow> ('w, error + Tool list) state" where
  "HTTPUpstream_ListTools send rnd u =
     do {
       r \<leftarrow> HTTPUpstream_call send rnd u ''tools/list'' [] [] [] list_result;
       State_Monad.return (case r of Inl err \<Rightarrow> Inl err | Inr tools \<Rightarrow> Inr (map (tool_Upstream_update (\<lambda>_. hu_name u)) tools))
     }"

definition tool_result_fields :: "ToolResult field list" where
  "tool_result_fields =
     [(''content'', dec_raw (\<lambda>x. tr_Content_update (\<lambda>_. x))),
      (''structuredContent'', dec_raw (\<lambda>x. tr_StructuredContent_update (\<lambda>_. x))),
      (''isError'', dec_bool (\<lambda>x. tr_IsError_update (\<lambda>_. x)))]"

definition call_params :: "ToolCall \<Rightarrow> json gomap" where
  "call_params tc =
     [(''arguments'', JObj (gm_map (\<lambda>k v. val_Data v) (case tc_Arguments tc of None \<Rightarrow> [] | Some m \<Rightarrow> m))),
      (''name'', JStr (tc_Tool tc))]"

definition HTTPUpstream_CallTool ::
  "'w http_send \<Rightarrow> ('w, string option) state \<Rightarrow> HTTPUpstream \<Rightarrow> ToolCall \<Rightarrow> ('w, error + ToolResult) state" where
  "HTTPUpstream_CallTool send rnd u tc =
     HTTPUpstream_call send rnd u ''tools/call'' (tc_Tool tc) (tc_Credential tc) (call_params tc)
       (\<lambda>r. unmarshal_raw tool_result_fields r zero_ToolResult)"

definition http_upstream :: "'w http_send \<Rightarrow> ('w, string option) state \<Rightarrow> HTTPUpstream \<Rightarrow> 'w Upstream" where
  "http_upstream send rnd u =
     \<lparr>up_Name = hu_name u, up_ListTools = HTTPUpstream_ListTools send rnd u, up_CallTool = HTTPUpstream_CallTool send rnd u\<rparr>"

section \<open>The two ends\<close>

text \<open>A server of \<open>HD_Server\<close> as the other end of the client's transport.\<close>

definition respond :: "http_response \<Rightarrow> transport" where
  "respond resp =
     (case hw_Body resp of
        JsonBody j \<Rightarrow> Answered (hw_Status resp) ''application/json'' (json_text j @ [CHR 10])
      | PlainText t \<Rightarrow> Answered (hw_Status resp) ''text/plain; charset=utf-8'' (t @ [CHR 10])
      | NoBody \<Rightarrow> Answered (hw_Status resp) [] [])"

definition serve_transport :: "'s Server \<Rightarrow> ('s, string option) state \<Rightarrow> 's http_send" where
  "serve_transport srv rnd url req =
     do {
       b \<leftarrow> rnd;
       resp \<leftarrow> serveHTTP b srv req;
       State_Monad.return (respond resp)
     }"

text \<open>A value that can be written with \<open>n\<close> levels around it and read back.\<close>

definition sendable :: "nat \<Rightarrow> json \<Rightarrow> bool" where
  "sendable n v \<longleftrightarrow> json_ok v \<and> utf8_json v \<and> json_depth v + n \<le> max_depth"

abbreviation is_utf8 :: "string \<Rightarrow> bool" where
  "is_utf8 s \<equiv> coerce_utf8 s = s"

lemma utf8_lit: "list_all (byte_in 0 0x7F) s \<Longrightarrow> is_utf8 s"
  by (rule coerce_ascii)

lemma newRequestID_utf8 [simp]: "is_utf8 (newRequestID b)"
  using hex_encode_ascii by (cases b) (auto simp: newRequestID_def byte_in_def intro!: coerce_ascii)

lemma decode_client_request:
  assumes "sendable 1 (JObj (gm_upd ''_meta'' client_meta params))" "is_utf8 meth"
  shows "decode_request (hr_Body (client_request u (newRequestID b) meth name cred params)) =
    Some \<lparr>rq_JSONRPC = ''2.0'', rq_ID = Some (JStr (newRequestID b)), rq_Method = meth,
          rq_Params = Some (JObj (gm_upd ''_meta'' client_meta params))\<rparr>"
proof -
  define j where "j = json_of_rpcRequest \<lparr>rq_JSONRPC = ''2.0'', rq_ID = Some (JStr (newRequestID b)), rq_Method = meth,
     rq_Params = Some (JObj (gm_upd ''_meta'' client_meta params))\<rparr>"
  have "json_ok j" "json_depth j \<le> max_depth" "utf8_json j"
    using assms by (auto simp: j_def json_of_rpcRequest_def omit_raw_def sendable_def coerce_ascii byte_in_def simp del: json_depth.simps(1))
  then have "first_json (json_text j) = Some j" by (simp add: first_json_text coerce_json_id)
  then show ?thesis
    by (simp add: client_request_def decode_request_def j_def [symmetric])
      (simp add: j_def json_of_rpcRequest_def omit_raw_def dec_struct_def rpcRequest_fields_def find_field_def
        dec_str_def dec_raw_def zero_rpcRequest_def)
qed

definition call_data :: "ToolCall \<Rightarrow> json gomap" where
  "call_data tc = gm_map (\<lambda>k v. val_Data v) (case tc_Arguments tc of None \<Rightarrow> [] | Some m \<Rightarrow> m)"

lemma client_params:
  "gm_upd ''_meta'' client_meta (call_params tc) =
     [(''_meta'', client_meta), (''arguments'', JObj (call_data tc)), (''name'', JStr (tc_Tool tc))]"
  by (simp add: call_params_def call_data_def less_char_def)

definition client_info :: requestMeta where
  "client_info =
     \<lparr>rm_ProtocolVersion = ProtocolVersionCurrent,
      rm_ClientInfo = Some \<lparr>impl_Name = ''helmdeep-gateway'', impl_Version = ''internal''\<rparr>,
      rm_ClientCapabilities = Some (JObj [])\<rparr>"

lemma parseMeta_client:
  "parseMeta (Some (JObj [(''_meta'', client_meta), (''arguments'', a), (''name'', n)])) = Inr client_info"
  by (simp add: parseMeta_def unmarshal_raw_def dec_struct_def paramsMeta_fields_def find_field_def dec_ptr_def
      client_meta_def requestMeta_fields_def zero_requestMeta_def dec_str_def dec_raw_def json_of_implementation_def
      implementation_fields_def client_info_def ProtocolVersionCurrent_def)

lemma toolCall_params_client:
  "toolCall_params (Some (JObj [(''_meta'', m), (''arguments'', a), (''name'', JStr n)])) = Some \<lparr>tp_Name = n, tp_Arguments = Some a\<rparr>"
  by (simp add: toolCall_params_def unmarshal_raw_def dec_struct_def toolCallParams_fields_def find_field_def dec_str_def dec_raw_def)

lemma client_accepted:
  assumes "tc_Tool tc \<noteq> []" "decodeHeaderValue (tc_Tool tc) = Some (tc_Tool tc)" "is_utf8 (tc_Tool tc)"
    and "sendable 2 (JObj (call_data tc))"
  shows "accepted srv (client_request u (newRequestID b) ''tools/call'' (tc_Tool tc) cred (call_params tc))
    \<lparr>rq_JSONRPC = ''2.0'', rq_ID = Some (JStr (newRequestID b)), rq_Method = ''tools/call'',
     rq_Params = Some (JObj [(''_meta'', client_meta), (''arguments'', JObj (call_data tc)), (''name'', JStr (tc_Tool tc))])\<rparr>
    client_info"
proof -
  have "sendable 1 (JObj (gm_upd ''_meta'' client_meta (call_params tc)))"
    using assms(3,4) unfolding client_params
    by (auto simp: sendable_def client_meta_def json_of_implementation_def ProtocolVersionCurrent_def
        coerce_ascii byte_in_def max_depth_def)
  from decode_client_request [OF this, of "''tools/call''" u b "tc_Tool tc" cred]
  have "decode_request (hr_Body (client_request u (newRequestID b) ''tools/call'' (tc_Tool tc) cred (call_params tc))) =
    Some \<lparr>rq_JSONRPC = ''2.0'', rq_ID = Some (JStr (newRequestID b)), rq_Method = ''tools/call'',
     rq_Params = Some (JObj [(''_meta'', client_meta), (''arguments'', JObj (call_data tc)), (''name'', JStr (tc_Tool tc))])\<rparr>"
    by (simp add: client_params coerce_ascii byte_in_def)
  then show ?thesis
    unfolding accepted_def
    using assms(1,2) toolCall_params_client [of client_meta "JObj (call_data tc)" "tc_Tool tc"]
    by (simp add: parseMeta_client client_info_def client_request_def client_header_def)
qed

text \<open>The answers of the handler as they arrive.\<close>

lemma decode_envelope_text:
  assumes "json_ok j" "json_depth j \<le> max_depth"
  shows "decode_envelope (json_text j @ [CHR 10]) =
    dec_struct envelope_fields (coerce_json j) \<lparr>en_Result = None, en_Error = None\<rparr>"
  using parse_json_line [OF assms] by (simp add: decode_envelope_def)

definition wire_result :: "ToolResult \<Rightarrow> ToolResult" where
  "wire_result res = res\<lparr>tr_Content := Some (rawOrEmptyArray (tr_Content res))\<rparr>"

definition result_sendable :: "ToolResult \<Rightarrow> bool" where
  "result_sendable res \<longleftrightarrow> list_all (sendable 2) (rawOrEmptyArray (tr_Content res) #
     (case tr_StructuredContent res of None \<Rightarrow> [] | Some v \<Rightarrow> [v]))"

definition answer_sendable :: "handler_error + ToolResult \<Rightarrow> bool" where
  "answer_sendable r =
     (case r of
        Inl (Protocol pe) \<Rightarrow> is_utf8 (pe_Message pe) \<and> int64_ok (pe_Code pe)
      | Inl (Other err) \<Rightarrow> True
      | Inr res \<Rightarrow> result_sendable res)"

definition wire_answer :: "HTTPUpstream \<Rightarrow> handler_error + ToolResult \<Rightarrow> error + ToolResult" where
  "wire_answer u r =
     (case r of
        Inl (Protocol pe) \<Rightarrow> Inl (''upstream '' @ hu_name u @ '' returned error '' @ show_int (pe_Code pe) @ '': '' @ pe_Message pe)
      | Inl (Other err) \<Rightarrow> Inl (''upstream '' @ hu_name u @ '' returned error -32603: internal error'')
      | Inr res \<Rightarrow> Inr (wire_result res))"

lemma read_error:
  assumes "is_utf8 (re_Message e)" "int64_ok (re_Code e)" "re_Data e = None"
  shows "read_answer u dec (respond (writeError c (Some (JStr (newRequestID b))) e)) =
    Inl (''upstream '' @ hu_name u @ '' returned error '' @ show_int (re_Code e) @ '': '' @ re_Message e)"
proof -
  define j where "j = coerce_json (json_of_rpcErrorResponse (Some (JStr (newRequestID b))) e)"
  have j: "j = json_of_rpcErrorResponse (Some (JStr (newRequestID b))) e"
    unfolding j_def by (rule coerce_json_id)
      (use assms in \<open>simp add: json_of_rpcErrorResponse_def json_of_rpcError_def omit_raw_def coerce_ascii byte_in_def\<close>)
  have "json_ok j" "json_depth j \<le> max_depth" "coerce_json j = j"
    using assms
    by (simp_all add: j json_of_rpcErrorResponse_def json_of_rpcError_def omit_raw_def max_depth_def coerce_ascii byte_in_def
        valid_num_show_int)
  then have "decode_envelope (json_text j @ [CHR 10]) = Some \<lparr>en_Result = None, en_Error = Some e\<rparr>"
    using assms int_of_lit_show_int [OF assms(2)]
    by (cases e) (simp add: decode_envelope_text, simp add: j json_of_rpcErrorResponse_def json_of_rpcError_def omit_raw_def dec_struct_def
        envelope_fields_def find_field_def dec_ptr_def rpcError_fields_def dec_int_def dec_str_def)
  then show ?thesis
    by (simp add: respond_def writeError_def j_def [symmetric] read_answer_def Let_def)
qed

lemma read_result:
  assumes "result_sendable res" "is_utf8 v"
  shows "read_answer u (\<lambda>r. unmarshal_raw tool_result_fields r zero_ToolResult)
      (respond (writeResult (Some (JStr (newRequestID b))) (json_of_result v res))) = Inr (wire_result res)"
proof -
  obtain c sc e where res: "res = \<lparr>tr_Content = c, tr_StructuredContent = sc, tr_IsError = e\<rparr>" by (cases res)
  define j where "j = json_of_rpcResultResponse (Some (JStr (newRequestID b))) (json_of_result v res)"
  have ok: "json_ok j" "json_depth j \<le> max_depth" "utf8_json j"
    using assms
    by (auto simp: j_def json_of_rpcResultResponse_def json_of_result_def serverInfoMeta_def json_of_implementation_def
        result_sendable_def sendable_def omit_raw_def coerce_ascii byte_in_def max_depth_def split: option.splits)
  then have "decode_envelope (json_text j @ [CHR 10]) = Some \<lparr>en_Result = Some (json_of_result v res), en_Error = None\<rparr>"
    by (simp add: decode_envelope_text coerce_json_id, simp add: j_def json_of_rpcResultResponse_def dec_struct_def
        envelope_fields_def find_field_def dec_raw_def)
  moreover have "unmarshal_raw tool_result_fields (Some (json_of_result v res)) zero_ToolResult = Some (wire_result res)"
    by (cases sc) (simp_all add: res unmarshal_raw_def json_of_result_def omit_raw_def dec_struct_def tool_result_fields_def
        find_field_def dec_raw_def dec_bool_def zero_ToolResult_def wire_result_def)
  ultimately show ?thesis
    using ok by (simp add: respond_def writeResult_def j_def [symmetric] coerce_json_id read_answer_def Let_def)
qed

lemma read_internal:
  "read_answer u dec (respond (internalError (Some (JStr (newRequestID b))))) =
     Inl (''upstream '' @ hu_name u @ '' returned error -32603: internal error'')"
proof -
  have "show_int codeInternalError = ''-32603''"
    by (simp add: show_int_def codeInternalError_def show_nat.simps [of "numeral w" for w] digit_char_def char_of_def bit_0)
  with read_error [of "rpc_error codeInternalError ''internal error''" u dec 500 b] show ?thesis
    by (simp add: internalError_def coerce_ascii byte_in_def int64_ok_def codeInternalError_def)
qed

text \<open>C21. The two ends of \<^verbatim>\<open>pkg/mcp\<close> fit: calling a tool through the HTTP client, with a server of this
  package at the other end, runs that server's handler exactly once, with the tool, the
  arguments and the credential of the call (the broker's credential when there is one, else the
  configured one), and returns the handler's answer: its result, with an absent content as an empty
  list, or its error in the client's words.\<close>

theorem client_server_roundtrip:
  assumes name: "tc_Tool tc \<noteq> []" "decodeHeaderValue (tc_Tool tc) = Some (tc_Tool tc)" "is_utf8 (tc_Tool tc)"
    and args: "any_ok (JObj (call_data tc))" "sendable 2 (JObj (call_data tc))"
    and version: "is_utf8 (sv_version srv)"
    and answers: "\<And>cc st. answer_sendable (fst (run_state (h_CallTool (sv_handler srv) cc (tc_Tool tc) (call_data tc)) st))"
  shows "run_state (HTTPUpstream_CallTool (serve_transport srv rnd2) rnd1 u tc) st =
    (case run_state rnd1 st of (b1, st1) \<Rightarrow>
       case run_state rnd2 st1 of (b2, st2) \<Rightarrow>
         case run_state (h_CallTool (sv_handler srv)
                \<lparr>cc_Credential = (if tc_Credential tc \<noteq> [] then tc_Credential tc else hu_bearerToken u),
                 cc_ClientInfo = Some \<lparr>impl_Name = ''helmdeep-gateway'', impl_Version = ''internal''\<rparr>,
                 cc_ProtocolVersion = ProtocolVersionCurrent, cc_RequestID = newRequestID b2\<rparr>
                (tc_Tool tc) (call_data tc)) st2 of
           (r, st3) \<Rightarrow> (wire_answer u r, st3))"
proof -
  let ?cc = "\<lambda>b2. \<lparr>cc_Credential = (if tc_Credential tc \<noteq> [] then tc_Credential tc else hu_bearerToken u),
     cc_ClientInfo = Some \<lparr>impl_Name = ''helmdeep-gateway'', impl_Version = ''internal''\<rparr>,
     cc_ProtocolVersion = ProtocolVersionCurrent, cc_RequestID = newRequestID b2\<rparr>"
  obtain b1 st1 where 1: "run_state rnd1 st = (b1, st1)" by fastforce
  obtain b2 st2 where 2: "run_state rnd2 st1 = (b2, st2)" by fastforce
  obtain r st3 where 3: "run_state (h_CallTool (sv_handler srv) (?cc b2) (tc_Tool tc) (call_data tc)) st2 = (r, st3)" by fastforce
  let ?req = "client_request u (newRequestID b1) ''tools/call'' (tc_Tool tc) (tc_Credential tc) (call_params tc)"
  have "request_context b2 ?req client_info = ?cc b2"
    by (auto simp: request_context_def bearerToken_def client_info_def client_request_def client_header_def
        trimPrefix_def hasPrefix_def Let_def)
  moreover have "call_arguments (Some (JObj (call_data tc))) = Some (call_data tc)"
    using any_of_id [OF args(1)] by (simp add: call_arguments_def)
  ultimately have serve: "run_state (serveHTTP b2 srv ?req) st2 =
      ((case r of
          Inl (Protocol pe) \<Rightarrow> writeError 400 (Some (JStr (newRequestID b1))) (rpc_error (pe_Code pe) (pe_Message pe))
        | Inl (Other err) \<Rightarrow> internalError (Some (JStr (newRequestID b1)))
        | Inr result \<Rightarrow> writeResult (Some (JStr (newRequestID b1))) (json_of_result (sv_version srv) result)), st3)"
    using 3 by (simp add: serveHTTP_accepted [OF client_accepted [OF name args(2)]] dispatch_def handleCallTool_def
        toolCall_params_client split: sum.splits handler_error.splits)
  have "answer_sendable r" using answers [of "?cc b2" st2] 3 by simp
  then have "read_answer u (\<lambda>r. unmarshal_raw tool_result_fields r zero_ToolResult)
      (respond (fst (run_state (serveHTTP b2 srv ?req) st2))) = wire_answer u r"
    by (simp add: serve answer_sendable_def wire_answer_def read_internal read_error read_result [OF _ version]
        split: sum.splits handler_error.splits)
  then show ?thesis
    by (simp add: HTTPUpstream_CallTool_def HTTPUpstream_call_def serve_transport_def 1 2 3 serve)
qed

section \<open>Examples\<close>

text \<open>A server whose handler counts the calls it gets.\<close>

definition example_server :: "nat Server" where
  "example_server =
     \<lparr>sv_AllowedOrigins = [''https://console.example''],
      sv_handler = \<lparr>h_ListTools = (\<lambda>cc cursor. State_Monad.return (Inr \<lparr>lt_Tools = [], lt_NextCursor = []\<rparr>)),
        h_CallTool = (\<lambda>cc name args. State (\<lambda>n. (Inr zero_ToolResult, n + 1)))\<rparr>,
      sv_version = ''1''\<rparr>"

definition example_call :: ToolCall where
  "example_call = \<lparr>tc_Tool = ''lookup'', tc_Arguments = None, tc_Credential = ''minted''\<rparr>"

lemma example_call_ok:
  "tc_Tool example_call \<noteq> []" "decodeHeaderValue (tc_Tool example_call) = Some (tc_Tool example_call)"
  "is_utf8 (tc_Tool example_call)" "any_ok (JObj (call_data example_call))" "sendable 2 (JObj (call_data example_call))"
  by (simp_all add: example_call_def call_data_def gm_map_def gm_ok_def sendable_def max_depth_def coerce_ascii byte_in_def
      decodeHeaderValue_def b64SentinelPrefix_def hasPrefix_def)

theorem client_server_roundtrip_witness:
  "run_state (HTTPUpstream_CallTool (serve_transport example_server (State_Monad.return None)) (State_Monad.return None)
     (NewHTTPUpstream ''crm'' ''http://crm'' []) example_call) 0 = (Inr (wire_result zero_ToolResult), 1)"
proof -
  have answers: "answer_sendable (fst (run_state (h_CallTool (sv_handler example_server) cc n a) st))" for cc n a st
    by (simp add: example_server_def answer_sendable_def result_sendable_def zero_ToolResult_def rawOrEmptyArray_def
        sendable_def max_depth_def)
  have version: "is_utf8 (sv_version example_server)"
    by (simp add: example_server_def coerce_ascii byte_in_def)
  show ?thesis
    using client_server_roundtrip [OF example_call_ok version answers, of "State_Monad.return None" "State_Monad.return None"
        "NewHTTPUpstream ''crm'' ''http://crm'' []" 0]
    by (simp add: example_server_def wire_answer_def)
qed

definition example_request :: http_request where
  "example_request = client_request (NewHTTPUpstream ''crm'' ''http://crm'' []) (newRequestID None) ''tools/call'' ''lookup'' ''minted''
     (call_params example_call)"

lemma example_served: "\<exists>resp. run_state (serveHTTP None example_server example_request) 0 = (resp, 1)"
proof -
  have "accepted example_server example_request
      \<lparr>rq_JSONRPC = ''2.0'', rq_ID = Some (JStr (newRequestID None)), rq_Method = ''tools/call'',
       rq_Params = Some (JObj [(''_meta'', client_meta), (''arguments'', JObj (call_data example_call)), (''name'', JStr ''lookup'')])\<rparr>
      client_info"
    using client_accepted [OF example_call_ok(1,2,3,5)] by (simp add: example_request_def example_call_def)
  from serveHTTP_accepted [OF this, of None] show ?thesis
    by (simp add: dispatch_def handleCallTool_def toolCall_params_client call_arguments_def call_data_def example_call_def
        gm_map_def example_server_def)
qed

theorem serveHTTP_validates_witness:
  "\<exists>req meta p. accepted example_server example_request req meta \<and> toolCall_params (rq_Params req) = Some p \<and>
     decodeHeaderValue (hr_Header example_request ''Mcp-Name'') = Some (tp_Name p)"
proof -
  obtain resp where run: "run_state (serveHTTP None example_server example_request) 0 = (resp, 1)"
    using example_served by blast
  obtain req meta where *: "accepted example_server example_request req meta"
      "if rq_Method req = ''server/discover'' then (1::nat) = 0
       else if rq_Method req = ''tools/list'' then
         1 = snd (run_state (h_ListTools (sv_handler example_server) (request_context None example_request meta) (list_cursor (rq_Params req))) 0)
       else rq_Method req = ''tools/call'' \<and>
         (\<exists>p args. toolCall_params (rq_Params req) = Some p \<and> call_arguments (tp_Arguments p) = Some args \<and>
            decodeHeaderValue (hr_Header example_request ''Mcp-Name'') = Some (tp_Name p) \<and>
            1 = snd (run_state (h_CallTool (sv_handler example_server) (request_context None example_request meta) (tp_Name p) args) 0))"
    using serveHTTP_validates [OF run] by auto
  then have "\<exists>p. toolCall_params (rq_Params req) = Some p \<and>
      decodeHeaderValue (hr_Header example_request ''Mcp-Name'') = Some (tp_Name p)"
    by (auto simp: example_server_def split: if_splits)
  with *(1) show ?thesis by blast
qed

end
