(* ===== verification/HD_MockUpstream.thy ===== *)
theory HD_MockUpstream
  imports HD_Client
begin

text \<open>
  \<^verbatim>\<open>internal/mockupstream/mockupstream.go\<close>: the upstream of the end-to-end tests and of the quickstart, with its four
  profiles and its log of the calls it received. A request is one step: the log is written under a mutex, once per
  request. What a custom tool computes is a field of its definition. The texts \<^verbatim>\<open>encoding/json\<close> gives its errors
  are left out of the error messages.

  The property ties the client of \<^verbatim>\<open>pkg/mcp\<close> to it: what the mock logs and answers is what the client was given.
\<close>

section \<open>\<^verbatim>\<open>%v\<close>\<close>

text \<open>
  A \<^verbatim>\<open>float64\<close> under \<^verbatim>\<open>%v\<close>: the shortest digits, with an exponent of at least two digits when it is below \<open>-4\<close> or from \<open>6\<close> on.
  Maps are printed in the order of their keys.
\<close>

definition fmt_exponent :: "int \<Rightarrow> string" where
  "fmt_exponent e =
     (if e < 0 then ''e-'' else ''e+'') @ (if nat \<bar>e\<bar> < 10 then ''0'' else []) @ show_nat (nat \<bar>e\<bar>)"

definition fmt_g :: "string \<Rightarrow> string" where
  "fmt_g s =
     (case num_parts s of
        None \<Rightarrow> s
      | Some (neg, n, k) \<Rightarrow>
          (let (d, k') = strip_zeros n k;
               ds = show_nat d;
               x = int (length ds) + k';
               body = (if d = 0 then ''0''
                       else if x - 1 < - 4 \<or> 6 \<le> x - 1 then
                         (if tl ds = [] then ds else hd ds # CHR ''.'' # tl ds) @ fmt_exponent (x - 1)
                       else if x \<le> 0 then ''0.'' @ replicate (nat (- x)) (CHR ''0'') @ ds
                       else if int (length ds) \<le> x then ds @ replicate (nat x - length ds) (CHR ''0'')
                       else take (nat x) ds @ ''.'' @ drop (nat x) ds)
           in (if neg then ''-'' else []) @ body))"

fun join_with :: "string \<Rightarrow> string list \<Rightarrow> string" where
  "join_with sep [] = []"
| "join_with sep [x] = x"
| "join_with sep (x # y # ys) = x @ sep @ join_with sep (y # ys)"

fun fmt_v :: "json \<Rightarrow> string" where
  "fmt_v JNull = ''<nil>''"
| "fmt_v (JBool b) = (if b then ''true'' else ''false'')"
| "fmt_v (JNum n) = fmt_g n"
| "fmt_v (JStr s) = s"
| "fmt_v (JArr xs) = ''['' @ join_with '' '' (map fmt_v xs) @ '']''"
| "fmt_v (JObj es) = ''map['' @ join_with '' '' (map (\<lambda>(k, v). k @ '':'' @ fmt_v v) es) @ '']''"

section \<open>Tools and profiles\<close>

text \<open>A nil map is \<open>None\<close>.\<close>

record ToolDef =
  td_Name :: string
  td_Description :: string
  td_Handler :: "json gomap option \<Rightarrow> json gomap option \<times> bool \<times> string"

definition arg_of :: "json gomap option \<Rightarrow> string \<Rightarrow> json option" where
  "arg_of arguments k = (case arguments of None \<Rightarrow> None | Some m \<Rightarrow> map_of m k)"

definition arg_string :: "json gomap option \<Rightarrow> string \<Rightarrow> string" where
  "arg_string arguments k = (case arg_of arguments k of Some (JStr s) \<Rightarrow> s | _ \<Rightarrow> [])"

definition arg_float :: "json gomap option \<Rightarrow> string \<Rightarrow> string" where
  "arg_float arguments k = (case arg_of arguments k of Some (JNum n) \<Rightarrow> n | _ \<Rightarrow> ''0'')"

definition kb_search :: ToolDef where
  "kb_search =
     \<lparr>td_Name = ''kb.search'', td_Description = ''Search the internal knowledge base for an answer.'',
      td_Handler = (\<lambda>arguments.
        (Some [(''answer'', JStr (''Mock knowledge-base answer for: '' @ arg_string arguments ''query''))], False, []))\<rparr>"

definition supplier_get_account :: ToolDef where
  "supplier_get_account =
     \<lparr>td_Name = ''supplier.get_account'', td_Description = ''Look up a supplier's on-file bank account for payment.'',
      td_Handler = (\<lambda>arguments.
        (Some [(''account_number'', JStr ''ACC-TRUSTED-0001''), (''supplier_id'', JStr (arg_string arguments ''supplier_id''))],
         False, []))\<rparr>"

definition email_read_latest :: ToolDef where
  "email_read_latest =
     \<lparr>td_Name = ''email.read_latest'', td_Description = ''Read the most recent email in the inbox.'',
      td_Handler = (\<lambda>_.
        (Some [(''account_number'', JStr ''ACC-PHISHING-6669''), (''subject'', JStr ''URGENT: updated payment details'')],
         False, []))\<rparr>"

definition payments_wire_transfer :: ToolDef where
  "payments_wire_transfer =
     \<lparr>td_Name = ''payments.wire_transfer'',
      td_Description = ''Wire funds to the given account. High-risk: policy must gate this.'',
      td_Handler = (\<lambda>arguments.
        (Some [(''account_number'', JStr (arg_string arguments ''account_number'')),
               (''amount_usd'', JNum (arg_float arguments ''amount_usd'')), (''status'', JStr ''sent'')], False, []))\<rparr>"

definition Profiles :: "string \<rightharpoonup> ToolDef list" where
  "Profiles =
     [''knowledgebase'' \<mapsto> [kb_search], ''suppliermaster'' \<mapsto> [supplier_get_account], ''email'' \<mapsto> [email_read_latest],
      ''payments'' \<mapsto> [payments_wire_transfer]]"

section \<open>The server\<close>

record RecordedCall =
  rcl_Method :: string
  rcl_Tool :: string
  rcl_Arguments :: "json gomap option"
  rcl_AuthHeader :: string

record MockServer =
  ms_tools :: "ToolDef list"
  ms_calls :: "RecordedCall list"

definition NewCustomHandler :: "ToolDef list \<Rightarrow> MockServer" where
  "NewCustomHandler tools = \<lparr>ms_tools = tools, ms_calls = []\<rparr>"

definition NewHandler :: "string \<Rightarrow> error + MockServer" where
  "NewHandler profile =
     (case Profiles profile of
        None \<Rightarrow> Inl (''unknown mock upstream profile '' @ quoteq profile)
      | Some tools \<Rightarrow> Inr \<lparr>ms_tools = tools, ms_calls = []\<rparr>)"

definition mock_Calls :: "MockServer \<Rightarrow> RecordedCall list" where
  "mock_Calls s = ms_calls s"

definition mock_record :: "RecordedCall \<Rightarrow> MockServer \<Rightarrow> MockServer" where
  "mock_record rc s = s\<lparr>ms_calls := ms_calls s @ [rc]\<rparr>"

definition raw_json :: "raw \<Rightarrow> json" where
  "raw_json r = (case r of None \<Rightarrow> JNull | Some v \<Rightarrow> v)"

definition writeRPCResult :: "raw \<Rightarrow> json \<Rightarrow> http_response" where
  "writeRPCResult i result =
     \<lparr>hw_Status = 200, hw_Body = JsonBody (JObj [(''id'', raw_json i), (''jsonrpc'', JStr ''2.0''), (''result'', result)])\<rparr>"

definition writeRPCError :: "raw \<Rightarrow> int \<Rightarrow> string \<Rightarrow> http_response" where
  "writeRPCError i code message =
     \<lparr>hw_Status = 400,
      hw_Body = JsonBody (JObj [(''error'', JObj [(''code'', JNum (show_int code)), (''message'', JStr message)]),
        (''id'', raw_json i), (''jsonrpc'', JStr ''2.0'')])\<rparr>"

definition mock_tool_json :: "ToolDef \<Rightarrow> json" where
  "mock_tool_json t =
     JObj [(''name'', JStr (td_Name t)), (''description'', JStr (td_Description t)),
           (''inputSchema'', JObj [(''type'', JStr ''object'')])]"

definition mock_handleListTools :: "MockServer \<Rightarrow> rpcRequest \<Rightarrow> http_response" where
  "mock_handleListTools s req =
     writeRPCResult (rq_ID req)
       (JObj [(''resultType'', JStr ''complete''),
              (''tools'', if ms_tools s = [] then JNull else JArr (map mock_tool_json (ms_tools s)))])"

record mockCallParams =
  mp_Name :: string
  mp_Arguments :: "json gomap option"

text \<open>\<^verbatim>\<open>map[string]any\<close>: \<^verbatim>\<open>null\<close> makes it nil, an object adds to what is there.\<close>

definition dec_any_map :: "json \<Rightarrow> mockCallParams \<Rightarrow> mockCallParams option" where
  "dec_any_map v r =
     (case v of
        JNull \<Rightarrow> Some (r\<lparr>mp_Arguments := None\<rparr>)
      | JObj es \<Rightarrow> map_option (\<lambda>m. r\<lparr>mp_Arguments := Some m\<rparr>) (any_obj es (case mp_Arguments r of None \<Rightarrow> [] | Some m \<Rightarrow> m))
      | _ \<Rightarrow> None)"

definition mockCallParams_fields :: "mockCallParams field list" where
  "mockCallParams_fields = [(''name'', dec_str (\<lambda>x. mp_Name_update (\<lambda>_. x))), (''arguments'', dec_any_map)]"

definition mock_result :: "ToolDef \<Rightarrow> json gomap option \<Rightarrow> ToolResult" where
  "mock_result t arguments =
     (case td_Handler t arguments of (structured, isError, errText) \<Rightarrow>
        \<lparr>tr_Content = Some (JArr [JObj [(''text'',
           JStr (if isError then errText else fmt_v (JObj (case structured of None \<Rightarrow> [] | Some m \<Rightarrow> m)))), (''type'', JStr ''text'')]]),
         tr_StructuredContent = Some (case structured of None \<Rightarrow> JNull | Some m \<Rightarrow> JObj m), tr_IsError = isError\<rparr>)"

definition json_of_mock_result :: "ToolResult \<Rightarrow> json" where
  "json_of_mock_result r =
     JObj [(''content'', raw_json (tr_Content r)), (''isError'', JBool (tr_IsError r)), (''resultType'', JStr ''complete''),
           (''structuredContent'', raw_json (tr_StructuredContent r))]"

fun mock_call_loop :: "ToolDef list \<Rightarrow> MockServer \<Rightarrow> rpcRequest \<Rightarrow> mockCallParams \<Rightarrow> string \<Rightarrow> http_response \<times> MockServer" where
  "mock_call_loop [] s req p authHeader = (writeRPCError (rq_ID req) (- 32602) (''unknown tool: '' @ mp_Name p), s)"
| "mock_call_loop (t # ts) s req p authHeader =
     (if td_Name t \<noteq> mp_Name p then mock_call_loop ts s req p authHeader
      else (writeRPCResult (rq_ID req) (json_of_mock_result (mock_result t (mp_Arguments p))),
            mock_record \<lparr>rcl_Method = ''tools/call'', rcl_Tool = mp_Name p, rcl_Arguments = mp_Arguments p,
              rcl_AuthHeader = authHeader\<rparr> s))"

definition mock_handleCallTool :: "MockServer \<Rightarrow> rpcRequest \<Rightarrow> string \<Rightarrow> http_response \<times> MockServer" where
  "mock_handleCallTool s req authHeader =
     (case unmarshal_raw mockCallParams_fields (rq_Params req) \<lparr>mp_Name = [], mp_Arguments = None\<rparr> of
        None \<Rightarrow> (writeRPCError (rq_ID req) (- 32602) ''malformed params: '', s)
      | Some p \<Rightarrow> mock_call_loop (ms_tools s) s req p authHeader)"

text \<open>The identifier when the request does not decode: the one in the document, if a value of the wrong type is all that is wrong.\<close>

definition partial_id :: "string \<Rightarrow> raw" where
  "partial_id body =
     (case first_json body of
        None \<Rightarrow> None
      | Some v \<Rightarrow> (case dec_struct [(''id'', dec_raw (\<lambda>x _. x))] v None of None \<Rightarrow> None | Some i \<Rightarrow> i))"

definition mock_ServeHTTP :: "MockServer \<Rightarrow> http_request \<Rightarrow> http_response \<times> MockServer" where
  "mock_ServeHTTP s r =
     (case decode_request (hr_Body r) of
        None \<Rightarrow> (writeRPCError (partial_id (hr_Body r)) (- 32700) ''malformed JSON-RPC: '', s)
      | Some req \<Rightarrow>
          (let authHeader = hr_Header r ''Authorization''
           in if rq_Method req = ''tools/list'' then
                (mock_handleListTools s req,
                 mock_record \<lparr>rcl_Method = ''tools/list'', rcl_Tool = [], rcl_Arguments = None, rcl_AuthHeader = authHeader\<rparr> s)
              else if rq_Method req = ''tools/call'' then mock_handleCallTool s req authHeader
              else (writeRPCError (rq_ID req) (- 32601) (''method not found: '' @ rq_Method req), s)))"

text \<open>The mock at the other end of the client's transport.\<close>

definition mock_transport :: "MockServer http_send" where
  "mock_transport url req = State (\<lambda>s. case mock_ServeHTTP s req of (resp, s') \<Rightarrow> (respond resp, s'))"

section \<open>The client and the mock\<close>

lemma coerce_ascii_append: "list_all (byte_in 0 0x7F) s \<Longrightarrow> coerce_utf8 (s @ t) = s @ coerce_utf8 t"
proof (induction s)
  case (Cons c s)
  then have "rune_len [c] = length [c]" using rune_len_1 [of c "[]"] by simp
  from coerce_rune [OF this, of "s @ t"] Cons show ?case by simp
qed simp

lemma mock_call_loop_find:
  "mock_call_loop ts s req p auth =
     (case find (\<lambda>t. td_Name t = mp_Name p) ts of
        None \<Rightarrow> (writeRPCError (rq_ID req) (- 32602) (''unknown tool: '' @ mp_Name p), s)
      | Some t \<Rightarrow> (writeRPCResult (rq_ID req) (json_of_mock_result (mock_result t (mp_Arguments p))),
            mock_record \<lparr>rcl_Method = ''tools/call'', rcl_Tool = mp_Name p, rcl_Arguments = mp_Arguments p, rcl_AuthHeader = auth\<rparr> s))"
  by (induction ts) auto

lemma mock_params_client:
  assumes "any_ok (JObj args)"
  shows "unmarshal_raw mockCallParams_fields (Some (JObj [(''_meta'', m), (''arguments'', JObj args), (''name'', JStr n)]))
     \<lparr>mp_Name = [], mp_Arguments = None\<rparr> = Some \<lparr>mp_Name = n, mp_Arguments = Some args\<rparr>"
proof -
  have "any_obj args [] = Some args" using any_of_id [OF assms] by simp
  then show ?thesis
    by (simp add: unmarshal_raw_def mockCallParams_fields_def dec_struct_def find_field_def dec_str_def dec_any_map_def)
qed

lemma mock_decodes_call:
  assumes "is_utf8 (tc_Tool tc)" "sendable 2 (JObj (call_data tc))"
  shows "decode_request (hr_Body (client_request u (newRequestID b) ''tools/call'' (tc_Tool tc) cred (call_params tc))) =
    Some \<lparr>rq_JSONRPC = ''2.0'', rq_ID = Some (JStr (newRequestID b)), rq_Method = ''tools/call'',
     rq_Params = Some (JObj [(''_meta'', client_meta), (''arguments'', JObj (call_data tc)), (''name'', JStr (tc_Tool tc))])\<rparr>"
proof -
  have "sendable 1 (JObj (gm_upd ''_meta'' client_meta (call_params tc)))"
    using assms unfolding client_params
    by (auto simp: sendable_def client_meta_def json_of_implementation_def ProtocolVersionCurrent_def
        coerce_ascii byte_in_def max_depth_def)
  from decode_client_request [OF this, of "''tools/call''" u b "tc_Tool tc" cred] show ?thesis
    by (simp add: client_params coerce_ascii byte_in_def)
qed

lemma read_mock_error:
  assumes "is_utf8 msg" "int64_ok c"
  shows "read_answer u dec (respond (writeRPCError (Some (JStr (newRequestID b))) c msg)) =
    Inl (''upstream '' @ hu_name u @ '' returned error '' @ show_int c @ '': '' @ msg)"
proof -
  define j where "j = JObj [(''error'', JObj [(''code'', JNum (show_int c)), (''message'', JStr msg)]),
        (''id'', JStr (newRequestID b)), (''jsonrpc'', JStr ''2.0'')]"
  have "json_ok j" "json_depth j \<le> max_depth" "coerce_json j = j"
    using assms(1) by (simp_all add: j_def max_depth_def coerce_ascii byte_in_def valid_num_show_int)
  then have "decode_envelope (json_text j @ [CHR 10]) = Some \<lparr>en_Result = None, en_Error = Some (rpc_error c msg)\<rparr>"
    using int_of_lit_show_int [OF assms(2)]
    by (simp add: decode_envelope_text, simp add: j_def dec_struct_def envelope_fields_def find_field_def dec_ptr_def
        rpcError_fields_def dec_int_def dec_str_def)
  then show ?thesis
    by (simp add: respond_def writeRPCError_def raw_json_def j_def [symmetric] read_answer_def Let_def)
qed

lemma read_mock_result:
  assumes "result_sendable res" "tr_Content res \<noteq> None" "tr_StructuredContent res \<noteq> None"
  shows "read_answer u (\<lambda>r. unmarshal_raw tool_result_fields r zero_ToolResult)
      (respond (writeRPCResult (Some (JStr (newRequestID b))) (json_of_mock_result res))) = Inr res"
proof -
  obtain c v e where res: "res = \<lparr>tr_Content = Some c, tr_StructuredContent = Some v, tr_IsError = e\<rparr>"
    using assms(2,3) by (cases res) auto
  define j where "j = JObj [(''id'', JStr (newRequestID b)), (''jsonrpc'', JStr ''2.0''), (''result'', json_of_mock_result res)]"
  have ok: "json_ok j" "json_depth j \<le> max_depth" "utf8_json j"
    using assms(1)
    by (auto simp: j_def res json_of_mock_result_def raw_json_def result_sendable_def rawOrEmptyArray_def sendable_def coerce_ascii byte_in_def
        max_depth_def)
  then have "decode_envelope (json_text j @ [CHR 10]) = Some \<lparr>en_Result = Some (json_of_mock_result res), en_Error = None\<rparr>"
    by (simp add: decode_envelope_text coerce_json_id, simp add: j_def dec_struct_def envelope_fields_def find_field_def dec_raw_def)
  moreover have "unmarshal_raw tool_result_fields (Some (json_of_mock_result res)) zero_ToolResult = Some res"
    by (simp add: res unmarshal_raw_def json_of_mock_result_def raw_json_def dec_struct_def tool_result_fields_def
        find_field_def dec_raw_def dec_bool_def zero_ToolResult_def)
  ultimately show ?thesis
    by (simp add: respond_def writeRPCResult_def raw_json_def j_def [symmetric] read_answer_def Let_def)
qed

text \<open>C22. What reaches the upstream is what the client was given, and nothing else. Calling a tool through the HTTP client on the mock
  adds exactly one entry to its log: the tool, the arguments without their provenance, and the credential minted for the
  call or else the configured one; and returns what the tool computed from these arguments. A call of a tool the mock does
  not have is not logged and comes back as an error that names it.\<close>

theorem mock_logs_what_was_called:
  assumes "is_utf8 (tc_Tool tc)" "any_ok (JObj (call_data tc))" "sendable 2 (JObj (call_data tc))"
    and "list_all (\<lambda>t. result_sendable (mock_result t (Some (call_data tc)))) (ms_tools s)"
  shows "run_state (HTTPUpstream_CallTool mock_transport (State_Monad.return b) u tc) s =
    (case find (\<lambda>t. td_Name t = tc_Tool tc) (ms_tools s) of
       None \<Rightarrow> (Inl (''upstream '' @ hu_name u @ '' returned error '' @ show_int (- 32602) @ '': unknown tool: '' @ tc_Tool tc), s)
     | Some t \<Rightarrow>
         (Inr (mock_result t (Some (call_data tc))),
          s\<lparr>ms_calls := ms_calls s @
            [\<lparr>rcl_Method = ''tools/call'', rcl_Tool = tc_Tool tc, rcl_Arguments = Some (call_data tc),
              rcl_AuthHeader =
                (if tc_Credential tc \<noteq> [] then ''Bearer '' @ tc_Credential tc
                 else if hu_bearerToken u \<noteq> [] then ''Bearer '' @ hu_bearerToken u else [])\<rparr>]\<rparr>))"
proof -
  let ?req = "client_request u (newRequestID b) ''tools/call'' (tc_Tool tc) (tc_Credential tc) (call_params tc)"
  have auth: "hr_Header ?req ''Authorization'' =
      (if tc_Credential tc \<noteq> [] then ''Bearer '' @ tc_Credential tc
       else if hu_bearerToken u \<noteq> [] then ''Bearer '' @ hu_bearerToken u else [])"
    by (simp add: client_request_def client_header_def)
  have run: "run_state (HTTPUpstream_CallTool mock_transport (State_Monad.return b) u tc) s =
      map_prod (\<lambda>resp. read_answer u (\<lambda>r. unmarshal_raw tool_result_fields r zero_ToolResult) (respond resp)) id (mock_ServeHTTP s ?req)"
    by (simp add: HTTPUpstream_CallTool_def HTTPUpstream_call_def mock_transport_def split: prod.splits)
  show ?thesis
  proof (cases "find (\<lambda>t. td_Name t = tc_Tool tc) (ms_tools s)")
    case None
    have "is_utf8 (''unknown tool: '' @ tc_Tool tc)"
      using assms(1) by (simp add: coerce_ascii_append [of "''unknown tool: ''", simplified] byte_in_def)
    then show ?thesis
      using read_mock_error [of "''unknown tool: '' @ tc_Tool tc" "- 32602" u _ b]
      by (simp add: run mock_ServeHTTP_def mock_decodes_call [OF assms(1,3)] mock_handleCallTool_def mock_params_client [OF assms(2)]
          mock_call_loop_find None int64_ok_def)
  next
    case (Some t)
    then have "result_sendable (mock_result t (Some (call_data tc)))"
      using assms(4) by (auto simp: find_Some_iff list_all_length)
    then have "read_answer u (\<lambda>r. unmarshal_raw tool_result_fields r zero_ToolResult)
        (respond (writeRPCResult (Some (JStr (newRequestID b))) (json_of_mock_result (mock_result t (Some (call_data tc)))))) =
        Inr (mock_result t (Some (call_data tc)))"
      by (rule read_mock_result) (simp_all add: mock_result_def split: prod.split)
    then show ?thesis
      by (simp add: run mock_ServeHTTP_def mock_decodes_call [OF assms(1,3)] mock_handleCallTool_def mock_params_client [OF assms(2)]
          mock_call_loop_find Some mock_record_def auth [simplified])
  qed
qed

definition example_search :: ToolCall where
  "example_search = \<lparr>tc_Tool = ''kb.search'', tc_Arguments = Some [(''query'', \<lparr>val_Data = JStr ''vat'', val_Provenance = \<lparr>prov_Source = [], prov_Trusted = False\<rparr>\<rparr>)],
     tc_Credential = ''minted''\<rparr>"

lemma example_search_data: "call_data example_search = [(''query'', JStr ''vat'')]"
  by (simp add: call_data_def example_search_def gm_map_def)

theorem mock_logs_what_was_called_witness:
  "\<exists>s. NewHandler ''knowledgebase'' = Inr s \<and>
     run_state (HTTPUpstream_CallTool mock_transport (State_Monad.return None) (NewHTTPUpstream ''kb'' ''http://kb'' []) example_search) s =
     (Inr (mock_result kb_search (Some [(''query'', JStr ''vat'')])),
      s\<lparr>ms_calls := [\<lparr>rcl_Method = ''tools/call'', rcl_Tool = ''kb.search'', rcl_Arguments = Some [(''query'', JStr ''vat'')],
         rcl_AuthHeader = ''Bearer minted''\<rparr>]\<rparr>)"
proof -
  let ?s = "\<lparr>ms_tools = [kb_search], ms_calls = []\<rparr>"
  have a: "is_utf8 (tc_Tool example_search)" by (simp add: example_search_def coerce_ascii byte_in_def)
  have b: "any_ok (JObj (call_data example_search))" "sendable 2 (JObj (call_data example_search))"
    by (simp_all add: example_search_data gm_ok_def sendable_def max_depth_def coerce_ascii byte_in_def)
  have c: "list_all (\<lambda>t. result_sendable (mock_result t (Some (call_data example_search)))) (ms_tools ?s)"
    by (simp add: example_search_data mock_result_def kb_search_def arg_string_def arg_of_def result_sendable_def rawOrEmptyArray_def
        sendable_def max_depth_def coerce_ascii byte_in_def)
  have "NewHandler ''knowledgebase'' = Inr ?s" by (simp add: NewHandler_def Profiles_def)
  with mock_logs_what_was_called [OF a b c, of None "NewHTTPUpstream ''kb'' ''http://kb'' []"] show ?thesis
    by (simp add: example_search_data) (simp add: example_search_def kb_search_def)
qed

end
