(* ===== verification/Go_Json_Indent.thy ===== *)
theory Go_Json_Indent
  imports Go_Json_Text
begin

text \<open>
  \<^verbatim>\<open>json.MarshalIndent\<close> with no prefix and two spaces of indentation. The indented text of a tree reads
  back to the tree, as its compact text does.
\<close>

definition indent_nl :: "nat \<Rightarrow> string" where
  "indent_nl n = CHR 10 # replicate (2 * n) (CHR '' '')"

fun indent_text :: "nat \<Rightarrow> json \<Rightarrow> string" where
  "indent_text n (JArr xs) =
     (if xs = [] then ''[]''
      else ''['' @ indent_nl (n + 1) @ joinWith ('','' @ indent_nl (n + 1)) (map (indent_text (n + 1)) xs) @ indent_nl n @ '']'')"
| "indent_text n (JObj es) =
     (if es = [] then ''{}''
      else ''{'' @ indent_nl (n + 1) @
           joinWith ('','' @ indent_nl (n + 1)) (map (\<lambda>(k, v). str_text k @ '': '' @ indent_text (n + 1) v) es) @
           indent_nl n @ ''}'')"
| "indent_text n v = json_text v"

lemma lex_space [simp]: "lexer (CHR 10 # s) = lexer s" "lexer (CHR '' '' # s) = lexer s"
  by (simp_all add: lexer.simps(2) is_space_def)

lemma lex_spaces [simp]: "lexer (replicate k (CHR '' '') @ s) = lexer s"
  by (induction k) simp_all

lemma lex_nl [simp]: "lexer (indent_nl n @ s) = lexer s"
  by (simp add: indent_nl_def)

lemma not_num_newline [simp]: "\<not> num_char (CHR 10)"
  by (simp add: num_char_def is_digit_def)

lemma hd_nl [simp]: "hd (indent_nl n @ s) = CHR 10" "indent_nl n \<noteq> []"
  by (simp_all add: indent_nl_def)

lemma lex_join_nl:
  assumes "\<And>x rest. x \<in> set xs \<Longrightarrow> delim rest \<Longrightarrow> lexer (f x @ rest) = map_option (\<lambda>ts. g x @ ts) (lexer rest)"
    and "delim rest"
  shows "lexer (joinWith ('','' @ indent_nl n) (map f xs) @ rest) = map_option (\<lambda>ts. tok_join (map g xs) @ ts) (lexer rest)"
  using assms(1)
proof (induction xs rule: induct_list012)
  case 1
  then show ?case by (simp add: option.map_ident)
next
  case (2 x)
  then show ?case using assms(2) by simp
next
  case (3 x y zs)
  let ?j = "joinWith ('','' @ indent_nl n) (map f (y # zs)) @ rest"
  have "lexer ?j = map_option (\<lambda>ts. tok_join (map g (y # zs)) @ ts) (lexer rest)"
    using 3 by simp
  moreover have "lexer (f x @ CHR '','' # indent_nl n @ ?j) = map_option (\<lambda>ts. g x @ ts) (lexer (CHR '','' # indent_nl n @ ?j))"
    by (rule 3(3)) simp_all
  ultimately show ?case by (simp add: lex_punct option.map_comp o_def)
qed

lemma lex_indent_text:
  "json_ok v \<Longrightarrow> delim rest \<Longrightarrow>
     lexer (indent_text n v @ rest) = map_option (\<lambda>ts. json_tokens (coerce_json v) @ ts) (lexer rest)"
proof (induction v arbitrary: n rest)
  case (JArr xs)
  have "lexer (joinWith ('','' @ indent_nl (n + 1)) (map (indent_text (n + 1)) xs) @ indent_nl n @ CHR '']'' # rest) =
      map_option (\<lambda>ts. tok_join (map (json_tokens \<circ> coerce_json) xs) @ ts) (lexer (indent_nl n @ CHR '']'' # rest))"
    using JArr by (intro lex_join_nl) (auto simp: list_all_iff)
  then show ?case by (cases "xs = []") (simp_all add: lex_punct option.map_comp o_def)
next
  case (JObj es)
  let ?f = "\<lambda>(k, v). str_text k @ '': '' @ indent_text (n + 1) v"
  let ?g = "\<lambda>(k, v). TVal (JStr (coerce_utf8 k)) # TColon # json_tokens (coerce_json v)"
  have "lexer (joinWith ('','' @ indent_nl (n + 1)) (map ?f es) @ indent_nl n @ CHR ''}'' # rest) =
      map_option (\<lambda>ts. tok_join (map ?g es) @ ts) (lexer (indent_nl n @ CHR ''}'' # rest))"
  proof (rule lex_join_nl)
    fix e r
    assume e: "e \<in> set es" and r: "delim r"
    obtain k v where kv: "e = (k, v)" by (cases e)
    have "lexer (indent_text (n + 1) v @ r) = map_option (\<lambda>ts. json_tokens (coerce_json v) @ ts) (lexer r)"
      using JObj e r by (intro JObj.IH) (auto simp: kv list_all_iff)
    then show "lexer (?f e @ r) = map_option (\<lambda>ts. ?g e @ ts) (lexer r)"
      by (simp add: kv lex_str lex_punct option.map_comp o_def)
  qed simp
  then show ?case
    by (cases "es = []") (simp_all add: lex_punct option.map_comp o_def case_prod_unfold)
next
  case JNull
  with lex_json_text [of JNull rest] show ?case by simp
next
  case (JBool b)
  with lex_json_text [of "JBool b" rest] show ?case by simp
next
  case (JNum x)
  with lex_json_text [of "JNum x" rest] show ?case by simp
next
  case (JStr x)
  with lex_json_text [of "JStr x" rest] show ?case by simp
qed

text \<open>As \<^verbatim>\<open>WriteManifest\<close> writes it, with a newline at the end.\<close>

lemma parse_indent_text:
  assumes "json_ok v" "json_depth v \<le> max_depth"
  shows "parse_json (indent_text 0 v @ [CHR 10]) = Some (coerce_json v)"
  using lex_indent_text [OF assms(1), of "[CHR 10]" 0] assms(2)
    parse_tokens [where v = "coerce_json v" and stk = "[]" and d = max_depth and ts = "[]"]
  by (simp add: parse_json_def parse_depth_def)

end
