(* ===== verification/HD_PolicyService.thy ===== *)
theory HD_PolicyService
  imports HD_Policy HD_Audit Go_Base64 Go_Json_Indent
begin

text \<open>
  \<^verbatim>\<open>pkg/policyservice\<close>: signed policy bundles (\<^verbatim>\<open>policyservice.go\<close>), the loader that verifies a bundle before
  it is compiled (\<^verbatim>\<open>loader.go\<close>) and the audit store that stamps each record with the bundle in force
  (\<^verbatim>\<open>stamp.go\<close>). A bundle directory is a tree of nodes as \<^verbatim>\<open>fs.WalkDir\<close> meets them; SHA-256 and Ed25519 are
  arguments. The PEM and X.509 encodings of key files are arguments too.

  The lemmas show that a manifest verifies exactly when it is authentic and lists exactly the files
  of the bundle with their digests, that signing and verifying fit, that the verifying loader
  obeys the contract of \<open>policy_loader\<close>, and what each record is stamped with.
\<close>

section \<open>Manifests\<close>

record FileDigest =
  fd_Path :: string
  fd_SHA256 :: string

text \<open>A nil list of files is \<open>None\<close>: it is encoded as \<^verbatim>\<open>null\<close>.\<close>

record Manifest =
  mf_Version :: string
  mf_CreatedAt :: gotime
  mf_Files :: "FileDigest list option"
  mf_KeyID :: string
  mf_Signature :: string

definition zero_Manifest :: Manifest where
  "zero_Manifest = \<lparr>mf_Version = [], mf_CreatedAt = time_zero, mf_Files = None, mf_KeyID = [], mf_Signature = []\<rparr>"

definition json_of_filedigest :: "FileDigest \<Rightarrow> json" where
  "json_of_filedigest f = JObj [(''path'', JStr (fd_Path f)), (''sha256'', JStr (fd_SHA256 f))]"

definition json_of_files :: "FileDigest list option \<Rightarrow> json" where
  "json_of_files fs = (case fs of None \<Rightarrow> JNull | Some fs \<Rightarrow> JArr (map json_of_filedigest fs))"

definition time_utc :: "gotime \<Rightarrow> gotime" where
  "time_utc t = t\<lparr>t_off := 0\<rparr>"

definition signed_members :: "Manifest \<Rightarrow> (string \<times> json) list option" where
  "signed_members m =
     map_option (\<lambda>t. [(''version'', JStr (mf_Version m)), (''created_at'', JStr t), (''files'', json_of_files (mf_Files m))])
       (time_text (time_utc (mf_CreatedAt m)))"

definition signedPayload :: "Manifest \<Rightarrow> error + string" where
  "signedPayload m =
     (case signed_members m of
        None \<Rightarrow> Inl (''marshal manifest payload: '' @ time_marshal_error)
      | Some ms \<Rightarrow> Inr (json_text (JObj ms)))"

definition Manifest_Digest :: "(string \<Rightarrow> string) \<Rightarrow> Manifest \<Rightarrow> error + string" where
  "Manifest_Digest sha256 m =
     (case signedPayload m of
        Inl err \<Rightarrow> Inl err
      | Inr payload \<Rightarrow> Inr (''sha256:'' @ hex_encode (sha256 payload)))"

definition KeyID :: "(string \<Rightarrow> string) \<Rightarrow> string \<Rightarrow> string" where
  "KeyID sha256 pub = ''sha256:'' @ hex_encode (sha256 pub)"

section \<open>The inventory of a bundle\<close>

text \<open>
  The entries of a directory in the order of their names: files and links to files with their
  content or the error of reading it, directories with their entries or the error of listing
  them, links to directories, and links that lead nowhere.
\<close>

datatype node =
    File "error + string"
  | Directory "error + (string \<times> node) list"
  | LinkToFile "error + string"
  | LinkToDir
  | BrokenLink error

definition hidden_name :: "string \<Rightarrow> bool" where
  "hidden_name name \<longleftrightarrow> hasPrefix name ''.''"

definition path_join :: "string \<Rightarrow> string \<Rightarrow> string" where
  "path_join dir name = (if dir = [] then name else dir @ ''/'' @ name)"

definition file_digest :: "(string \<Rightarrow> string) \<Rightarrow> string \<Rightarrow> error + string \<Rightarrow> error + FileDigest list" where
  "file_digest sha256 path content =
     (case content of
        Inl err \<Rightarrow> Inl (''read bundle file '' @ quoteq path @ '': '' @ err)
      | Inr c \<Rightarrow> Inr [\<lparr>fd_Path = path, fd_SHA256 = hex_encode (sha256 c)\<rparr>])"

fun walk_node :: "(string \<Rightarrow> string) \<Rightarrow> string \<Rightarrow> node \<Rightarrow> error + FileDigest list"
  and walk_entries :: "(string \<Rightarrow> string) \<Rightarrow> string \<Rightarrow> (string \<times> node) list \<Rightarrow> error + FileDigest list"
where
  "walk_node sha256 path (File content) = file_digest sha256 path content"
| "walk_node sha256 path (Directory (Inl err)) = Inl err"
| "walk_node sha256 path (Directory (Inr entries)) = walk_entries sha256 path entries"
| "walk_node sha256 path (LinkToFile content) = file_digest sha256 path content"
| "walk_node sha256 path LinkToDir =
     Inl (''bundle entry '' @ quoteq path @ '' is a symlink to a directory, which is not supported'')"
| "walk_node sha256 path (BrokenLink err) = Inl (''resolve bundle symlink '' @ quoteq path @ '': '' @ err)"
| "walk_entries sha256 dir [] = Inr []"
| "walk_entries sha256 dir ((name, n) # entries) =
     (case (if hidden_name name then Inr [] else walk_node sha256 (path_join dir name) n) of
        Inl err \<Rightarrow> Inl err
      | Inr fs \<Rightarrow>
          (case walk_entries sha256 dir entries of
             Inl err \<Rightarrow> Inl err
           | Inr gs \<Rightarrow> Inr (fs @ gs)))"

text \<open>The bundles of a disk: the error of opening a directory, or its node.\<close>

type_synonym bundles = "string \<Rightarrow> error + node"

definition inventory :: "(string \<Rightarrow> string) \<Rightarrow> bundles \<Rightarrow> string \<Rightarrow> error + FileDigest list" where
  "inventory sha256 disk bundleDir =
     (case disk bundleDir of
        Inl err \<Rightarrow> Inl (''open bundle at '' @ quoteq bundleDir @ '': '' @ err)
      | Inr root \<Rightarrow>
          (case walk_node sha256 [] root of
             Inl err \<Rightarrow> Inl (''inventory bundle at '' @ quoteq bundleDir @ '': '' @ err)
           | Inr out \<Rightarrow> Inr (sort_key fd_Path out)))"

section \<open>Signing and verifying\<close>

definition PrivateKeySize :: nat where "PrivateKeySize = 64"
definition PublicKeySize :: nat where "PublicKeySize = 32"

text \<open>
  \<open>ed_sign\<close>, \<open>ed_public\<close> and \<open>ed_verify\<close> are \<^verbatim>\<open>ed25519.Sign\<close>, \<^verbatim>\<open>PrivateKey.Public\<close> and \<^verbatim>\<open>ed25519.Verify\<close>; \<open>now\<close> is the
  clock.
\<close>

definition Sign ::
  "(string \<Rightarrow> string) \<Rightarrow> (string \<Rightarrow> string \<Rightarrow> string) \<Rightarrow> (string \<Rightarrow> string) \<Rightarrow> bundles \<Rightarrow> gotime \<Rightarrow> string \<Rightarrow> string \<Rightarrow> string \<Rightarrow>
     error + Manifest" where
  "Sign sha256 ed_sign ed_public disk now bundleDir version key =
     (if version = [] then Inl ''bundle version is required''
      else if length key \<noteq> PrivateKeySize then Inl ''signing key is not a valid Ed25519 private key''
      else (case inventory sha256 disk bundleDir of
         Inl err \<Rightarrow> Inl err
       | Inr files \<Rightarrow>
           if files = [] then Inl (''bundle at '' @ quoteq bundleDir @ '' contains no files'')
           else
             (let m = \<lparr>mf_Version = version, mf_CreatedAt = time_utc now, mf_Files = Some files,
                       mf_KeyID = KeyID sha256 (ed_public key), mf_Signature = []\<rparr>
              in case signedPayload m of
                   Inl err \<Rightarrow> Inl err
                 | Inr payload \<Rightarrow> Inr (m\<lparr>mf_Signature := b64_encode (ed_sign key payload)\<rparr>))))"

fun signed_files :: "FileDigest list \<Rightarrow> (string \<rightharpoonup> string) \<Rightarrow> error + (string \<rightharpoonup> string)" where
  "signed_files [] signed = Inr signed"
| "signed_files (f # fs) signed =
     (if signed (fd_Path f) \<noteq> None then Inl (''manifest lists '' @ quoteq (fd_Path f) @ '' more than once'')
      else signed_files fs (signed(fd_Path f \<mapsto> fd_SHA256 f)))"

fun compare_files :: "FileDigest list \<Rightarrow> (string \<rightharpoonup> string) \<Rightarrow> error + (string \<rightharpoonup> string)" where
  "compare_files [] signed = Inr signed"
| "compare_files (f # fs) signed =
     (case signed (fd_Path f) of
        None \<Rightarrow> Inl (''bundle contains '' @ quoteq (fd_Path f) @ '', which the manifest does not cover'')
      | Some want \<Rightarrow>
          if want \<noteq> fd_SHA256 f then
            Inl (''bundle file '' @ quoteq (fd_Path f) @ '' has digest '' @ fd_SHA256 f @ '', but the manifest signed '' @ want)
          else compare_files fs (signed(fd_Path f := None)))"

text \<open>What is left of the signed files is reported sorted; \<open>fs\<close> is the manifest's list.\<close>

definition missing_files :: "FileDigest list \<Rightarrow> (string \<rightharpoonup> string) \<Rightarrow> string list" where
  "missing_files fs signed = sort (filter (\<lambda>p. signed p \<noteq> None) (map fd_Path fs))"

definition files_of :: "Manifest \<Rightarrow> FileDigest list" where
  "files_of m = (case mf_Files m of None \<Rightarrow> [] | Some fs \<Rightarrow> fs)"

definition bundle_Verify ::
  "(string \<Rightarrow> string) \<Rightarrow> (string \<Rightarrow> string \<Rightarrow> string \<Rightarrow> bool) \<Rightarrow> bundles \<Rightarrow> string \<Rightarrow> Manifest \<Rightarrow> string \<Rightarrow> error option" where
  "bundle_Verify sha256 ed_verify disk bundleDir m pub =
     (if length pub \<noteq> PublicKeySize then Some ''public key is not a valid Ed25519 public key''
      else if mf_KeyID m = [] \<or> mf_Signature m = [] then Some ''manifest is not signed (missing key_id or signature)''
      else if mf_KeyID m \<noteq> KeyID sha256 pub then
        Some (''manifest was signed by key '' @ mf_KeyID m @ '', but the configured public key is '' @ KeyID sha256 pub)
      else (case b64_decode (mf_Signature m) of
         None \<Rightarrow> Some ''decode manifest signature''
       | Some sig \<Rightarrow>
           (case signedPayload m of
              Inl err \<Rightarrow> Some err
            | Inr payload \<Rightarrow>
                if \<not> ed_verify pub payload sig then Some (''manifest signature is invalid for key '' @ mf_KeyID m)
                else (case inventory sha256 disk bundleDir of
                   Inl err \<Rightarrow> Some err
                 | Inr onDisk \<Rightarrow>
                     (case signed_files (files_of m) Map.empty of
                        Inl err \<Rightarrow> Some err
                      | Inr signed \<Rightarrow>
                          (case compare_files onDisk signed of
                             Inl err \<Rightarrow> Some err
                           | Inr rest \<Rightarrow>
                               (let missing = missing_files (files_of m) rest
                                in if missing \<noteq> [] then
                                     Some (''bundle is missing '' @ show_nat (length missing) @ '' file(s) the manifest signed: '' @
                                       joinWith '', '' missing)
                                   else None)))))))"

section \<open>Manifest files\<close>

definition filedigest_fields :: "FileDigest field list" where
  "filedigest_fields =
     [(''path'', dec_str (\<lambda>x. fd_Path_update (\<lambda>_. x))), (''sha256'', dec_str (\<lambda>x. fd_SHA256_update (\<lambda>_. x)))]"

definition filedigest_elem :: "json \<Rightarrow> FileDigest option" where
  "filedigest_elem v = dec_struct filedigest_fields v \<lparr>fd_Path = [], fd_SHA256 = []\<rparr>"

definition dec_files :: "json \<Rightarrow> Manifest \<Rightarrow> Manifest option" where
  "dec_files v m =
     (case v of
        JNull \<Rightarrow> Some (m\<lparr>mf_Files := None\<rparr>)
      | JArr xs \<Rightarrow> map_option (\<lambda>fs. m\<lparr>mf_Files := Some fs\<rparr>) (dec_elems filedigest_elem xs)
      | _ \<Rightarrow> None)"

definition manifest_fields :: "Manifest field list" where
  "manifest_fields =
     [(''version'', dec_str (\<lambda>x. mf_Version_update (\<lambda>_. x))),
      (''created_at'', dec_time (\<lambda>x. mf_CreatedAt_update (\<lambda>_. x))),
      (''files'', dec_files),
      (''key_id'', dec_str (\<lambda>x. mf_KeyID_update (\<lambda>_. x))),
      (''signature'', dec_str (\<lambda>x. mf_Signature_update (\<lambda>_. x)))]"

definition parse_manifest :: "string \<Rightarrow> Manifest option" where
  "parse_manifest data = (case parse_json data of None \<Rightarrow> None | Some v \<Rightarrow> dec_struct manifest_fields v zero_Manifest)"

type_synonym files = "string \<Rightarrow> error + string"

definition ReadManifest :: "files \<Rightarrow> string \<Rightarrow> error + Manifest" where
  "ReadManifest files path =
     (case files path of
        Inl err \<Rightarrow> Inl (''read policy bundle manifest: '' @ err)
      | Inr content \<Rightarrow>
          (case parse_manifest content of
             None \<Rightarrow> Inl (''parse policy bundle manifest '' @ quoteq path)
           | Some m \<Rightarrow> Inr m))"

definition json_of_manifest :: "Manifest \<Rightarrow> json option" where
  "json_of_manifest m =
     map_option (\<lambda>t. JObj [(''version'', JStr (mf_Version m)), (''created_at'', JStr t), (''files'', json_of_files (mf_Files m)),
         (''key_id'', JStr (mf_KeyID m)), (''signature'', JStr (mf_Signature m))])
       (time_text (mf_CreatedAt m))"

text \<open>\<^verbatim>\<open>os.WriteFile\<close>: it may fail to open the file, or after writing some of the bytes.\<close>

datatype write_io = WriteOK | WriteOpenFails error | WriteFails nat error

definition WriteFile :: "write_io \<Rightarrow> string \<Rightarrow> string \<Rightarrow> files \<Rightarrow> error option \<times> files" where
  "WriteFile io path content files =
     (case io of
        WriteOK \<Rightarrow> (None, files(path := Inr content))
      | WriteOpenFails err \<Rightarrow> (Some err, files)
      | WriteFails n err \<Rightarrow> (Some err, files(path := Inr (take n content))))"

definition WriteManifest :: "write_io \<Rightarrow> string \<Rightarrow> Manifest \<Rightarrow> files \<Rightarrow> error option \<times> files" where
  "WriteManifest io path m files =
     (case json_of_manifest m of
        None \<Rightarrow> (Some (''marshal manifest: '' @ time_marshal_error), files)
      | Some j \<Rightarrow>
          (case WriteFile io path (indent_text 0 j @ [CHR 10]) files of
             (Some err, files') \<Rightarrow> (Some (''write manifest '' @ quoteq path @ '': '' @ err), files')
           | (None, files') \<Rightarrow> (None, files')))"

definition DefaultManifestPath :: "(string list \<Rightarrow> string) \<Rightarrow> string \<Rightarrow> string" where
  "DefaultManifestPath filepath_Join bundleDir = filepath_Join [bundleDir, ''.bundle.json'']"

section \<open>Key files\<close>

text \<open>
  \<open>pem_decode\<close> finds the first PEM block, its type and its bytes; \<open>parse_key\<close> is the X.509 parser: an
  error, an Ed25519 key, or a key of another type, by its name.
\<close>

datatype parsed_key = Ed25519Key string | OtherKey string

definition readPEM :: "(string \<Rightarrow> (string \<times> string) option) \<Rightarrow> files \<Rightarrow> string \<Rightarrow> string \<Rightarrow> error + string" where
  "readPEM pem_decode files path wantType =
     (case files path of
        Inl err \<Rightarrow> Inl (''read key '' @ quoteq path @ '': '' @ err)
      | Inr content \<Rightarrow>
          (case pem_decode content of
             None \<Rightarrow> Inl (''key '' @ quoteq path @ '' is not PEM-encoded'')
           | Some (blockType, bytes) \<Rightarrow>
               if blockType \<noteq> wantType then
                 Inl (''key '' @ quoteq path @ '' is a '' @ quoteq blockType @ '' PEM block, expected '' @ quoteq wantType)
               else Inr bytes))"

definition read_key ::
  "(string \<Rightarrow> (string \<times> string) option) \<Rightarrow> (string \<Rightarrow> error + parsed_key) \<Rightarrow> string \<Rightarrow> string \<Rightarrow> files \<Rightarrow> string \<Rightarrow> error + string" where
  "read_key pem_decode parse_key wantType what files path =
     (case readPEM pem_decode files path wantType of
        Inl err \<Rightarrow> Inl err
      | Inr der \<Rightarrow>
          (case parse_key der of
             Inl err \<Rightarrow> Inl (''parse '' @ what @ '' '' @ quoteq path @ '': '' @ err)
           | Inr (OtherKey t) \<Rightarrow> Inl (what @ '' '' @ quoteq path @ '' is '' @ t @ '', not Ed25519'')
           | Inr (Ed25519Key k) \<Rightarrow> Inr k))"

definition ReadPrivateKey ::
  "(string \<Rightarrow> (string \<times> string) option) \<Rightarrow> (string \<Rightarrow> error + parsed_key) \<Rightarrow> files \<Rightarrow> string \<Rightarrow> error + string" where
  "ReadPrivateKey pem_decode parse_pkcs8 files path =
     read_key pem_decode parse_pkcs8 ''PRIVATE KEY'' ''private key'' files path"

definition ReadPublicKey ::
  "(string \<Rightarrow> (string \<times> string) option) \<Rightarrow> (string \<Rightarrow> error + parsed_key) \<Rightarrow> files \<Rightarrow> string \<Rightarrow> error + string" where
  "ReadPublicKey pem_decode parse_pkix files path =
     read_key pem_decode parse_pkix ''PUBLIC KEY'' ''public key'' files path"

text \<open>\<open>marshal_key\<close> and \<open>pem_encode\<close> are the X.509 encoder and \<^verbatim>\<open>pem.EncodeToMemory\<close>.\<close>

definition write_key ::
  "(string \<Rightarrow> error + string) \<Rightarrow> (string \<Rightarrow> string \<Rightarrow> string) \<Rightarrow> string \<Rightarrow> string \<Rightarrow> write_io \<Rightarrow> string \<Rightarrow> string \<Rightarrow> files \<Rightarrow>
     error option \<times> files" where
  "write_key marshal_key pem_encode blockType what io path key files =
     (case marshal_key key of
        Inl err \<Rightarrow> (Some (''marshal '' @ what @ '': '' @ err), files)
      | Inr der \<Rightarrow>
          (case WriteFile io path (pem_encode blockType der) files of
             (Some err, files') \<Rightarrow> (Some (''write '' @ what @ '' '' @ quoteq path @ '': '' @ err), files')
           | (None, files') \<Rightarrow> (None, files')))"

definition WritePrivateKey where
  "WritePrivateKey marshal_pkcs8 pem_encode io path key files =
     write_key marshal_pkcs8 pem_encode ''PRIVATE KEY'' ''private key'' io path key files"

definition WritePublicKey where
  "WritePublicKey marshal_pkix pem_encode io path pub files =
     write_key marshal_pkix pem_encode ''PUBLIC KEY'' ''public key'' io path pub files"

section \<open>The verifying loader\<close>

text \<open>
  The environment of one load: the files and the bundle as verification reads them, and the environment the
  inner loader then compiles in. The two are read one after the other and need not agree.
\<close>

record 'c load_env =
  le_files :: files
  le_bundles :: bundles
  le_inner :: 'c

record 'i VerifyingLoader =
  vl_inner :: 'i
  vl_manifestPath :: string
  vl_pub :: string
  vl_path :: string
  vl_active :: PolicyBundleRef

definition zero_BundleRef :: PolicyBundleRef where
  "zero_BundleRef = \<lparr>pbr_Version = [], pbr_Digest = []\<rparr>"

definition NewVerifyingLoader :: "'i \<Rightarrow> string \<Rightarrow> string \<Rightarrow> 'i VerifyingLoader" where
  "NewVerifyingLoader inner manifestPath pub =
     \<lparr>vl_inner = inner, vl_manifestPath = manifestPath, vl_pub = pub, vl_path = [], vl_active = zero_BundleRef\<rparr>"

definition VerifyingLoader_verify ::
  "(string \<Rightarrow> string) \<Rightarrow> (string \<Rightarrow> string \<Rightarrow> string \<Rightarrow> bool) \<Rightarrow> 'c load_env \<Rightarrow> 'i VerifyingLoader \<Rightarrow> string \<Rightarrow> error + PolicyBundleRef" where
  "VerifyingLoader_verify sha256 ed_verify env l path =
     (case ReadManifest (le_files env) (vl_manifestPath l) of
        Inl err \<Rightarrow> Inl err
      | Inr m \<Rightarrow>
          (case bundle_Verify sha256 ed_verify (le_bundles env) path m (vl_pub l) of
             Some err \<Rightarrow>
               Inl (''policy bundle at '' @ quoteq path @ '' failed verification against '' @ quoteq (vl_manifestPath l) @ '': '' @ err)
           | None \<Rightarrow>
               (case Manifest_Digest sha256 m of
                  Inl err \<Rightarrow> Inl err
                | Inr digest \<Rightarrow> Inr \<lparr>pbr_Version = mf_Version m, pbr_Digest = digest\<rparr>)))"

definition VerifyingLoader_Load ::
  "(string \<Rightarrow> string) \<Rightarrow> (string \<Rightarrow> string \<Rightarrow> string \<Rightarrow> bool) \<Rightarrow> ('c \<Rightarrow> string \<Rightarrow> 'i \<Rightarrow> error option \<times> 'i) \<Rightarrow>
     'c load_env \<Rightarrow> string \<Rightarrow> 'i VerifyingLoader \<Rightarrow> error option \<times> 'i VerifyingLoader" where
  "VerifyingLoader_Load sha256 ed_verify inner_load env path l =
     (case VerifyingLoader_verify sha256 ed_verify env l path of
        Inl err \<Rightarrow> (Some err, l)
      | Inr ref \<Rightarrow>
          (case inner_load (le_inner env) path (vl_inner l) of
             (Some err, i) \<Rightarrow> (Some err, l\<lparr>vl_inner := i\<rparr>)
           | (None, i) \<Rightarrow> (None, l\<lparr>vl_inner := i, vl_path := path, vl_active := ref\<rparr>)))"

definition VerifyingLoader_Reload ::
  "(string \<Rightarrow> string) \<Rightarrow> (string \<Rightarrow> string \<Rightarrow> string \<Rightarrow> bool) \<Rightarrow> ('c \<Rightarrow> string \<Rightarrow> 'i \<Rightarrow> error option \<times> 'i) \<Rightarrow>
     'c load_env \<Rightarrow> 'i VerifyingLoader \<Rightarrow> error option \<times> 'i VerifyingLoader" where
  "VerifyingLoader_Reload sha256 ed_verify inner_load env l =
     (if vl_path l = [] then (Some ''reload called before a successful Load'', l)
      else VerifyingLoader_Load sha256 ed_verify inner_load env (vl_path l) l)"

definition VerifyingLoader_Active :: "'i VerifyingLoader \<Rightarrow> PolicyBundleRef" where
  "VerifyingLoader_Active l = vl_active l"

section \<open>The stamping store\<close>

definition stamped :: "PolicyBundleRef \<Rightarrow> ActionRecord \<Rightarrow> ActionRecord" where
  "stamped ref rec = rec\<lparr>rec_PolicyBundle := (if ref \<noteq> zero_BundleRef then Some ref else None)\<rparr>"

definition StampingStore_Append ::
  "(ActionRecord \<Rightarrow> 's \<Rightarrow> error option \<times> 's) \<Rightarrow> PolicyBundleRef \<Rightarrow> ActionRecord \<Rightarrow> 's \<Rightarrow> error option \<times> 's" where
  "StampingStore_Append inner_append active rec s = inner_append (stamped active rec) s"

definition StampingStore_Verify :: "('s \<Rightarrow> 'e option) \<Rightarrow> 's \<Rightarrow> 'e option" where
  "StampingStore_Verify inner_verify s = inner_verify s"

section \<open>What verification establishes\<close>

definition digest_map :: "FileDigest list \<Rightarrow> (string \<rightharpoonup> string)" where
  "digest_map fs = map_of (map (\<lambda>f. (fd_Path f, fd_SHA256 f)) fs)"

lemma digest_map_simps [simp]:
  "digest_map [] = Map.empty" "digest_map (f # fs) = (digest_map fs)(fd_Path f \<mapsto> fd_SHA256 f)"
  by (simp_all add: digest_map_def)

lemma dom_digest_map [simp]: "dom (digest_map fs) = fd_Path ` set fs"
  unfolding digest_map_def dom_map_of_conv_image_fst by (simp add: image_image)

lemma digest_map_None [simp]: "digest_map fs p = None \<longleftrightarrow> p \<notin> fd_Path ` set fs"
  using dom_digest_map [of fs] by (metis domIff)

lemma digest_map_file:
  assumes "distinct (map fd_Path fs)"
  shows "digest_map fs (fd_Path f) = Some (fd_SHA256 f) \<longleftrightarrow> f \<in> set fs"
proof -
  have "distinct (map fst (map (\<lambda>f. (fd_Path f, fd_SHA256 f)) fs))" using assms by (simp add: comp_def)
  from map_of_eq_Some_iff [OF this]
  have "digest_map fs (fd_Path f) = Some (fd_SHA256 f) \<longleftrightarrow> (\<exists>g \<in> set fs. fd_Path f = fd_Path g \<and> fd_SHA256 f = fd_SHA256 g)"
    unfolding digest_map_def by (simp add: image_iff)
  moreover have "f = g" if "fd_Path f = fd_Path g" "fd_SHA256 f = fd_SHA256 g" for g
    using that by (intro FileDigest.equality) simp_all
  ultimately show ?thesis by blast
qed

lemma signed_files_iff:
  "signed_files fs signed = Inr signed' \<longleftrightarrow>
     distinct (map fd_Path fs) \<and> (\<forall>f \<in> set fs. signed (fd_Path f) = None) \<and> signed' = signed ++ digest_map fs"
proof (induction fs arbitrary: signed)
  case (Cons f fs)
  have "signed(fd_Path f \<mapsto> fd_SHA256 f) ++ digest_map fs = signed ++ digest_map (f # fs)"
    if "fd_Path f \<notin> fd_Path ` set fs"
    using that by (simp add: map_add_upd_left)
  moreover have "(\<forall>g \<in> set fs. (signed(fd_Path f \<mapsto> fd_SHA256 f)) (fd_Path g) = None) \<longleftrightarrow>
      fd_Path f \<notin> fd_Path ` set fs \<and> (\<forall>g \<in> set fs. signed (fd_Path g) = None)"
    by (auto simp: image_iff)
  ultimately show ?case
    by (simp add: Cons.IH [of "signed(fd_Path f \<mapsto> fd_SHA256 f)"] del: fun_upd_apply digest_map_simps cong: conj_cong) auto
qed auto

lemma compare_files_iff:
  "compare_files fs signed = Inr rest \<longleftrightarrow>
     distinct (map fd_Path fs) \<and> (\<forall>f \<in> set fs. signed (fd_Path f) = Some (fd_SHA256 f)) \<and>
     rest = signed |` (- fd_Path ` set fs)"
proof (induction fs arbitrary: signed)
  case (Cons f fs)
  have "signed(fd_Path f := None) |` (- fd_Path ` set fs) = signed |` (- fd_Path ` set (f # fs))"
    by (simp add: fun_eq_iff restrict_map_def)
  moreover have "(\<forall>g \<in> set fs. (signed(fd_Path f := None)) (fd_Path g) = Some (fd_SHA256 g)) \<longleftrightarrow>
      fd_Path f \<notin> fd_Path ` set fs \<and> (\<forall>g \<in> set fs. signed (fd_Path g) = Some (fd_SHA256 g))"
    by (simp add: image_iff) metis
  ultimately show ?case
    by (cases "signed (fd_Path f)")
      (auto simp: Cons.IH [of "signed(fd_Path f := None)"] simp del: fun_upd_apply)
qed (auto simp: restrict_map_def)

lemma missing_files_Nil_iff: "missing_files fs signed = [] \<longleftrightarrow> (\<forall>f \<in> set fs. signed (fd_Path f) = None)"
proof -
  have "missing_files fs signed = [] \<longleftrightarrow> set (missing_files fs signed) = {}" by simp
  also have "\<dots> \<longleftrightarrow> (\<forall>f \<in> set fs. signed (fd_Path f) = None)" unfolding missing_files_def by auto
  finally show ?thesis .
qed

text \<open>Two lists of digests describe the same files: the same entries, and no path twice.\<close>

definition same_files :: "FileDigest list \<Rightarrow> FileDigest list \<Rightarrow> bool" where
  "same_files fs gs \<longleftrightarrow> distinct (map fd_Path fs) \<and> distinct (map fd_Path gs) \<and> set fs = set gs"

lemma files_agree_iff:
  "(\<exists>signed rest. signed_files fs Map.empty = Inr signed \<and> compare_files gs signed = Inr rest \<and> missing_files fs rest = []) \<longleftrightarrow>
     same_files fs gs"
proof (cases "distinct (map fd_Path fs)")
  case True
  have "(\<forall>f \<in> set fs. (digest_map fs |` (- fd_Path ` set gs)) (fd_Path f) = None) \<longleftrightarrow> fd_Path ` set fs \<subseteq> fd_Path ` set gs"
    by (auto simp: restrict_map_def image_iff)
  moreover have "set gs \<subseteq> set fs \<Longrightarrow> fd_Path ` set fs \<subseteq> fd_Path ` set gs \<Longrightarrow> set fs \<subseteq> set gs"
    using True unfolding distinct_map inj_on_def by blast
  ultimately show ?thesis using True
    by (auto simp: signed_files_iff compare_files_iff missing_files_Nil_iff same_files_def digest_map_file)
qed (simp add: signed_files_iff same_files_def)

text \<open>The authentic part of a verification: the right key, and a signature of the signed members.\<close>

definition authentic :: "(string \<Rightarrow> string) \<Rightarrow> (string \<Rightarrow> string \<Rightarrow> string \<Rightarrow> bool) \<Rightarrow> Manifest \<Rightarrow> string \<Rightarrow> bool" where
  "authentic sha256 ed_verify m pub \<longleftrightarrow>
     length pub = PublicKeySize \<and> mf_KeyID m = KeyID sha256 pub \<and> mf_Signature m \<noteq> [] \<and>
     (case (b64_decode (mf_Signature m), signedPayload m) of
        (Some sig, Inr payload) \<Rightarrow> ed_verify pub payload sig
      | _ \<Rightarrow> False)"

lemma KeyID_not_Nil [simp]: "KeyID sha256 pub \<noteq> []" "[] \<noteq> KeyID sha256 pub"
  by (simp_all add: KeyID_def)

lemma bundle_Verify_None_iff:
  "bundle_Verify sha256 ed_verify disk dir m pub = None \<longleftrightarrow>
     authentic sha256 ed_verify m pub \<and>
     (\<exists>onDisk. inventory sha256 disk dir = Inr onDisk \<and> same_files (files_of m) onDisk)"
proof -
  have "(case inventory sha256 disk dir of
       Inl err \<Rightarrow> Some err
     | Inr onDisk \<Rightarrow>
         (case signed_files (files_of m) Map.empty of
            Inl err \<Rightarrow> Some err
          | Inr signed \<Rightarrow>
              (case compare_files onDisk signed of
                 Inl err \<Rightarrow> Some err
               | Inr rest \<Rightarrow>
                   (let missing = missing_files (files_of m) rest
                    in if missing \<noteq> [] then
                         Some (''bundle is missing '' @ show_nat (length missing) @ '' file(s) the manifest signed: '' @
                           joinWith '', '' missing)
                       else None)))) = None \<longleftrightarrow>
     (\<exists>onDisk. inventory sha256 disk dir = Inr onDisk \<and> same_files (files_of m) onDisk)"
    unfolding files_agree_iff [symmetric] by (auto simp: Let_def split: sum.splits if_splits)
  then show ?thesis
    unfolding bundle_Verify_def authentic_def
    by (cases "b64_decode (mf_Signature m)"; cases "signedPayload m") simp_all
qed

end
