(* ===== verification/HD_Bundles.thy ===== *)
theory HD_Bundles
  imports HD_PolicyService "HOL-Library.Multiset"
begin

text \<open>
  Properties of \<^verbatim>\<open>pkg/policyservice\<close>. The first part relates manifests to the contents of bundles: signing
  and verifying fit, a manifest written to a file is read back, and what verifies under a key
  whose holder signed only some bundles is one of these. The second part is about the loader: it
  obeys the contract of \<open>policy_loader\<close> over any inner loader that does, and a run of concurrent
  loads shows what its lock does not order.
\<close>

section \<open>The contents of a bundle\<close>

definition read_content :: "string \<Rightarrow> error + string \<Rightarrow> (string \<times> string) list" where
  "read_content path content = (case content of Inl _ \<Rightarrow> [] | Inr c \<Rightarrow> [(path, c)])"

fun node_contents :: "string \<Rightarrow> node \<Rightarrow> (string \<times> string) list"
  and entries_contents :: "string \<Rightarrow> (string \<times> node) list \<Rightarrow> (string \<times> string) list"
where
  "node_contents path (File content) = read_content path content"
| "node_contents path (LinkToFile content) = read_content path content"
| "node_contents path (Directory (Inl _)) = []"
| "node_contents path (Directory (Inr es)) = entries_contents path es"
| "node_contents path LinkToDir = []"
| "node_contents path (BrokenLink _) = []"
| "entries_contents dir [] = []"
| "entries_contents dir ((name, n) # es) =
     (if hidden_name name then [] else node_contents (path_join dir name) n) @ entries_contents dir es"

definition bundle_contents :: "bundles \<Rightarrow> string \<Rightarrow> (string \<times> string) list" where
  "bundle_contents disk dir = (case disk dir of Inl _ \<Rightarrow> [] | Inr root \<Rightarrow> node_contents [] root)"

text \<open>File names are distinct within a directory, not empty and without slashes.\<close>

fun names_ok :: "node \<Rightarrow> bool"
  and entries_ok :: "(string \<times> node) list \<Rightarrow> bool"
where
  "names_ok (File _) \<longleftrightarrow> True"
| "names_ok (LinkToFile _) \<longleftrightarrow> True"
| "names_ok (Directory (Inl _)) \<longleftrightarrow> True"
| "names_ok (Directory (Inr es)) \<longleftrightarrow> entries_ok es"
| "names_ok LinkToDir \<longleftrightarrow> True"
| "names_ok (BrokenLink _) \<longleftrightarrow> True"
| "entries_ok [] \<longleftrightarrow> True"
| "entries_ok ((name, n) # es) \<longleftrightarrow>
     name \<noteq> [] \<and> CHR ''/'' \<notin> set name \<and> name \<notin> fst ` set es \<and> names_ok n \<and> entries_ok es"

definition bundle_ok :: "bundles \<Rightarrow> string \<Rightarrow> bool" where
  "bundle_ok disk dir \<longleftrightarrow> (case disk dir of Inl _ \<Rightarrow> False | Inr (Directory (Inr es)) \<Rightarrow> entries_ok es | Inr _ \<Rightarrow> False)"

abbreviation digest_entry :: "(string \<Rightarrow> string) \<Rightarrow> string \<times> string \<Rightarrow> FileDigest" where
  "digest_entry sha256 e \<equiv> \<lparr>fd_Path = fst e, fd_SHA256 = hex_encode (sha256 (snd e))\<rparr>"

lemma walk_contents:
  "walk_node sha256 path n = Inr fs \<Longrightarrow> fs = map (digest_entry sha256) (node_contents path n)"
  "walk_entries sha256 dir es = Inr gs \<Longrightarrow> gs = map (digest_entry sha256) (entries_contents dir es)"
proof (induction sha256 path n and sha256 dir es arbitrary: fs and gs rule: walk_node_walk_entries.induct)
  case (8 sha256 dir name n entries)
  then show ?case by (auto split: sum.splits if_splits)
qed (auto simp: file_digest_def read_content_def split: sum.splits)

lemma inventory_contents:
  "inventory sha256 disk dir = Inr fs \<Longrightarrow> fs = sort_key fd_Path (map (digest_entry sha256) (bundle_contents disk dir))"
  by (auto simp: inventory_def bundle_contents_def dest: walk_contents(1) split: sum.splits)

text \<open>Below an entry, every path starts with the entry's path, ends there or goes on with a slash.\<close>

definition below :: "string \<Rightarrow> string \<Rightarrow> bool" where
  "below p q \<longleftrightarrow> (\<exists>rest. q = p @ rest \<and> (rest = [] \<or> hd rest = CHR ''/''))"

lemma below_refl [simp]: "below p p"
  by (simp add: below_def)

lemma below_join: "dir \<noteq> [] \<Longrightarrow> below (path_join dir name) q \<Longrightarrow> below dir q"
  by (auto simp: below_def path_join_def)

lemma path_join_not_Nil [simp]: "name \<noteq> [] \<Longrightarrow> path_join dir name \<noteq> []"
  by (simp add: path_join_def)

lemma contents_below:
  "names_ok n \<Longrightarrow> p \<noteq> [] \<Longrightarrow> e \<in> set (node_contents p n) \<Longrightarrow> below p (fst e)"
  "entries_ok es \<Longrightarrow> e \<in> set (entries_contents dir es) \<Longrightarrow> \<exists>name \<in> fst ` set es. below (path_join dir name) (fst e)"
proof (induction p n and dir es rule: node_contents_entries_contents.induct)
  case (4 path es)
  then show ?case using below_join by auto
next
  case (8 dir name n es)
  then show ?case by (auto split: if_splits)
qed (auto simp: read_content_def split: sum.splits)

lemma below_name:
  assumes "below (path_join dir a) q" "below (path_join dir b) q"
    and "CHR ''/'' \<notin> set a" "CHR ''/'' \<notin> set b"
  shows "a = b"
proof -
  obtain r s where q: "q = path_join dir a @ r" "q = path_join dir b @ s"
    and "r = [] \<or> hd r = CHR ''/''" "s = [] \<or> hd s = CHR ''/''"
    using assms(1,2) unfolding below_def by blast
  moreover from q have "a @ r = b @ s" by (simp add: path_join_def split: if_splits)
  moreover have "takeWhile (\<lambda>c. c \<noteq> CHR ''/'') (x @ t) = x"
    if "CHR ''/'' \<notin> set x" "t = [] \<or> hd t = CHR ''/''" for x t
    using that by (cases t; induction x) auto
  ultimately show ?thesis using assms(3,4) by metis
qed

lemma entries_ok_name: "entries_ok es \<Longrightarrow> name \<in> fst ` set es \<Longrightarrow> CHR ''/'' \<notin> set name"
  by (induction es rule: names_ok_entries_ok.induct(2) [where P = "\<lambda>_. True"]) auto

lemma contents_distinct:
  "names_ok n \<Longrightarrow> p \<noteq> [] \<Longrightarrow> distinct (map fst (node_contents p n))"
  "entries_ok es \<Longrightarrow> distinct (map fst (entries_contents dir es))"
proof (induction p n and dir es rule: node_contents_entries_contents.induct)
  case (8 dir name n es)
  have "fst e \<noteq> fst e'" if e: "e \<in> set (node_contents (path_join dir name) n)" and e': "e' \<in> set (entries_contents dir es)" for e e'
  proof
    assume "fst e = fst e'"
    moreover obtain other where "other \<in> fst ` set es" "below (path_join dir other) (fst e')"
      using contents_below(2) [OF _ e'] 8(3) by auto
    moreover have "below (path_join dir name) (fst e)"
      using contents_below(1) [OF _ _ e] 8(3) by simp
    ultimately show False using below_name [of dir name "fst e" other] entries_ok_name 8(3) by auto
  qed
  with 8 show ?case by (auto simp: image_iff)
qed (auto simp: read_content_def split: sum.splits)

lemma inventory_distinct:
  assumes "inventory sha256 disk dir = Inr fs" "bundle_ok disk dir"
  shows "distinct (map fd_Path fs)"
proof -
  obtain es where es: "disk dir = Inr (Directory (Inr es))" "entries_ok es"
    using assms(2) unfolding bundle_ok_def by (cases "disk dir"; simp split: node.splits sum.splits)
  then have "distinct (map fst (bundle_contents disk dir))"
    by (simp add: bundle_contents_def contents_distinct)
  then have "distinct (map fd_Path (map (digest_entry sha256) (bundle_contents disk dir)))"
    by (simp add: comp_def)
  moreover have "mset (map fd_Path fs) = mset (map fd_Path (map (digest_entry sha256) (bundle_contents disk dir)))"
    unfolding inventory_contents [OF assms(1)] by (simp only: mset_map mset_sort)
  ultimately show ?thesis by (metis mset_eq_imp_distinct_iff)
qed

section \<open>Signed manifests\<close>

lemma signed_fields [simp]:
  "signedPayload (m\<lparr>mf_Signature := s\<rparr>) = signedPayload m" "signedPayload (m\<lparr>mf_KeyID := k\<rparr>) = signedPayload m"
  "files_of (m\<lparr>mf_Signature := s\<rparr>) = files_of m"
  by (simp_all add: signedPayload_def signed_members_def files_of_def)

lemma Sign_Inr:
  assumes "Sign sha256 ed_sign ed_public disk now dir version key = Inr m"
  obtains files payload where "inventory sha256 disk dir = Inr files" "files \<noteq> []" "signedPayload m = Inr payload"
    "m = \<lparr>mf_Version = version, mf_CreatedAt = time_utc now, mf_Files = Some files, mf_KeyID = KeyID sha256 (ed_public key),
          mf_Signature = b64_encode (ed_sign key payload)\<rparr>"
    "version \<noteq> []" "length key = PrivateKeySize"
  using assms
  by (auto simp: Sign_def Let_def signedPayload_def signed_members_def simp del: json_text.simps
      split: if_splits sum.splits option.splits)

text \<open>What is relied on of Ed25519: keys have their sizes, and a signature verifies under its public key.\<close>

definition ed25519_pair :: "(string \<Rightarrow> string \<Rightarrow> string) \<Rightarrow> (string \<Rightarrow> string \<Rightarrow> string \<Rightarrow> bool) \<Rightarrow> string \<Rightarrow> string \<Rightarrow> bool" where
  "ed25519_pair ed_sign ed_verify key pub \<longleftrightarrow>
     length pub = PublicKeySize \<and> (\<forall>p. ed_sign key p \<noteq> [] \<and> ed_verify pub p (ed_sign key p))"

lemma Sign_verifies:
  assumes "Sign sha256 ed_sign ed_public disk now dir version key = Inr m"
    and "bundle_ok disk dir"
    and "ed25519_pair ed_sign ed_verify key (ed_public key)"
  shows "bundle_Verify sha256 ed_verify disk dir m (ed_public key) = None"
proof -
  obtain files payload where s: "inventory sha256 disk dir = Inr files" "signedPayload m = Inr payload"
    "m = \<lparr>mf_Version = version, mf_CreatedAt = time_utc now, mf_Files = Some files, mf_KeyID = KeyID sha256 (ed_public key),
          mf_Signature = b64_encode (ed_sign key payload)\<rparr>"
    using Sign_Inr [OF assms(1)] .
  then have "authentic sha256 ed_verify m (ed_public key)"
    using assms(3) by (simp add: authentic_def ed25519_pair_def)
  moreover have "same_files (files_of m) files"
    using inventory_distinct [OF s(1) assms(2)] by (simp add: s(3) files_of_def same_files_def)
  ultimately show ?thesis using s(1) by (auto simp: bundle_Verify_None_iff)
qed

text \<open>What a signature covers: two manifests of valid text with the same payload agree on it.\<close>

definition files_utf8 :: "FileDigest list \<Rightarrow> bool" where
  "files_utf8 fs \<longleftrightarrow> list_all (\<lambda>f. utf8 (fd_Path f) \<and> utf8 (fd_SHA256 f)) fs"

definition manifest_utf8 :: "Manifest \<Rightarrow> bool" where
  "manifest_utf8 m \<longleftrightarrow> utf8 (mf_Version m) \<and> utf8 (mf_KeyID m) \<and> utf8 (mf_Signature m) \<and>
     (case mf_Files m of None \<Rightarrow> True | Some fs \<Rightarrow> files_utf8 fs)"

lemma files_json:
  assumes "case fs of None \<Rightarrow> True | Some xs \<Rightarrow> files_utf8 xs"
  shows "utf8_json (json_of_files fs)" "json_ok (json_of_files fs)" "json_depth (json_of_files fs) \<le> 2"
proof -
  show "utf8_json (json_of_files fs)" "json_ok (json_of_files fs)"
    using assms by (auto simp: json_of_files_def json_of_filedigest_def files_utf8_def list_all_iff coerce_ascii byte_in_def
        split: option.splits)
  have "fold max (map (\<lambda>_. Suc 0) xs) n \<le> 1" if "n \<le> 1" for xs :: "FileDigest list" and n
    using that by (induction xs arbitrary: n) auto
  from this [of 0] show "json_depth (json_of_files fs) \<le> 2"
    by (simp add: json_of_files_def json_of_filedigest_def comp_def split: option.splits)
qed

lemma json_of_files_inj: "json_of_files a = json_of_files b \<Longrightarrow> a = b"
proof -
  have "inj json_of_filedigest" by (rule injI) (simp add: json_of_filedigest_def)
  then show "json_of_files a = json_of_files b \<Longrightarrow> a = b"
    by (auto simp: json_of_files_def inj_map_eq_map split: option.splits)
qed

lemma signed_members_json:
  assumes "signed_members m = Some ms" "manifest_utf8 m"
  shows "utf8_json (JObj ms)" "json_ok (JObj ms)"
  using assms files_json [of "mf_Files m"]
  by (auto simp: signed_members_def manifest_utf8_def coerce_ascii time_text_ascii byte_in_def)

lemma signedPayload_inj:
  assumes "signedPayload m = Inr p" "signedPayload n = Inr p" "manifest_utf8 m" "manifest_utf8 n"
  shows "mf_Version m = mf_Version n \<and> mf_Files m = mf_Files n \<and> time_utc (mf_CreatedAt m) = time_utc (mf_CreatedAt n)"
proof -
  obtain ms ns where ms: "signed_members m = Some ms" "signed_members n = Some ns" "json_text (JObj ms) = p" "json_text (JObj ns) = p"
    using assms(1,2) by (auto simp: signedPayload_def simp del: json_text.simps split: option.splits)
  have "coerce_json (JObj ms) = coerce_json (JObj ns)"
    using signed_members_json(2) [OF ms(1) assms(3)] signed_members_json(2) [OF ms(2) assms(4)] ms(3,4)
    by (intro json_text_inj) simp_all
  then have "ms = ns"
    using coerce_json_id [OF signed_members_json(1) [OF ms(1) assms(3)]]
      coerce_json_id [OF signed_members_json(1) [OF ms(2) assms(4)]] by simp
  then obtain t where t: "time_text (time_utc (mf_CreatedAt m)) = Some t" "time_text (time_utc (mf_CreatedAt n)) = Some t"
    and "mf_Version m = mf_Version n" "json_of_files (mf_Files m) = json_of_files (mf_Files n)"
    using ms(1,2) by (auto simp: signed_members_def)
  with parse_time_text [OF t(1)] parse_time_text [OF t(2)] show ?thesis by (simp add: json_of_files_inj)
qed

section \<open>Manifest files\<close>

lemma keeps_manifest: "keeps manifest_utf8 (dec_struct manifest_fields)"
proof (rule keeps_struct)
  have elem: "keeps (\<lambda>f. utf8 (fd_Path f) \<and> utf8 (fd_SHA256 f)) (dec_struct filedigest_fields)"
    by (rule keeps_struct) (auto simp: filedigest_fields_def intro!: keeps_intros)
  have "keeps manifest_utf8 dec_files"
  proof (rule keepsI)
    fix v m m'
    assume v: "utf8_json v" "manifest_utf8 m" "dec_files v m = Some m'"
    have "files_utf8 fs" if "v = JArr xs" "dec_elems filedigest_elem xs = Some fs" for xs fs
      unfolding files_utf8_def using that(2)
      by (rule dec_elems_all)
        (use that v(1) keepsD [OF elem] in \<open>auto simp: filedigest_elem_def list_all_iff\<close>)
    with v show "manifest_utf8 m'" by (auto simp: dec_files_def manifest_utf8_def split: json.splits)
  qed
  then show "list_all (\<lambda>(k, f). keeps manifest_utf8 f) manifest_fields"
    by (auto simp: manifest_fields_def manifest_utf8_def intro!: keeps_intros)
qed

lemma ReadManifest_utf8: "ReadManifest files path = Inr m \<Longrightarrow> manifest_utf8 m"
  by (auto simp: ReadManifest_def parse_manifest_def zero_Manifest_def manifest_utf8_def [where m = "\<lparr>mf_Version = _, mf_CreatedAt = _, mf_Files = _, mf_KeyID = _, mf_Signature = _\<rparr>"]
      split: sum.splits option.splits dest!: keepsD [OF keeps_manifest] intro: parse_json_utf8)

lemma manifest_json:
  assumes "json_of_manifest m = Some j" "manifest_utf8 m"
  shows "utf8_json j" "json_ok j" "json_depth j \<le> max_depth"
  using assms files_json [of "mf_Files m"]
  by (auto simp: json_of_manifest_def manifest_utf8_def coerce_ascii time_text_ascii byte_in_def max_depth_def)

lemma dec_files_json: "dec_files (json_of_files fs) m = Some (m\<lparr>mf_Files := fs\<rparr>)"
proof -
  have "filedigest_elem (json_of_filedigest f) = Some f" for f
    by (simp add: filedigest_elem_def json_of_filedigest_def filedigest_fields_def dec_simps)
  then have "dec_elems filedigest_elem (map json_of_filedigest xs) = Some xs" for xs
    by (simp add: dec_elems_iff)
  then show ?thesis by (simp add: dec_files_def json_of_files_def split: option.splits)
qed

lemma dec_manifest_json: "json_of_manifest m = Some j \<Longrightarrow> dec_struct manifest_fields j zero_Manifest = Some m"
  by (auto simp: json_of_manifest_def manifest_fields_def dec_simps dec_time_def dec_files_json parse_time_text
      zero_Manifest_def)

lemma parse_manifest_text:
  assumes "json_of_manifest m = Some j" "manifest_utf8 m"
  shows "parse_manifest (indent_text 0 j @ [CHR 10]) = Some m"
  using parse_indent_text [of j] manifest_json [OF assms] dec_manifest_json [OF assms(1)]
  by (simp add: parse_manifest_def coerce_json_id)

lemma ReadManifest_WriteManifest:
  assumes "WriteManifest WriteOK path m files = (None, files')" "manifest_utf8 m"
  shows "ReadManifest files' path = Inr m"
  using assms parse_manifest_text [OF _ assms(2)]
  by (auto simp: WriteManifest_def WriteFile_def ReadManifest_def split: option.splits)

section \<open>What a signing key vouches for\<close>

text \<open>
  A release: the disk, the directory, the version and the moment of a call of \<^verbatim>\<open>Sign\<close> that succeeded, with
  file names of valid text.
\<close>

type_synonym release = "bundles \<times> string \<times> string \<times> gotime"

definition released_as ::
  "(string \<Rightarrow> string) \<Rightarrow> (string \<Rightarrow> string \<Rightarrow> string) \<Rightarrow> (string \<Rightarrow> string) \<Rightarrow> string \<Rightarrow> release \<Rightarrow> Manifest \<Rightarrow> bool" where
  "released_as sha256 ed_sign ed_public key r m \<longleftrightarrow>
     (case r of (disk, dir, version, now) \<Rightarrow> Sign sha256 ed_sign ed_public disk now dir version key = Inr m \<and> manifest_utf8 m)"

text \<open>
  The signatures in existence: those that verify under \<open>pub\<close> do so for payloads of releases only, which is
  what Ed25519 gives as long as nobody else has the key.
\<close>

definition signs_only ::
  "(string \<Rightarrow> string) \<Rightarrow> (string \<Rightarrow> string \<Rightarrow> string) \<Rightarrow> (string \<Rightarrow> string) \<Rightarrow> (string \<Rightarrow> string \<Rightarrow> string \<Rightarrow> bool) \<Rightarrow>
     string \<Rightarrow> string \<Rightarrow> string set \<Rightarrow> release set \<Rightarrow> bool" where
  "signs_only sha256 ed_sign ed_public ed_verify key pub sigs releases \<longleftrightarrow>
     (\<forall>payload. \<forall>sig \<in> sigs. ed_verify pub payload sig \<longrightarrow>
        (\<exists>r \<in> releases. \<exists>m. released_as sha256 ed_sign ed_public key r m \<and> signedPayload m = Inr payload))"

definition release_contents :: "release \<Rightarrow> (string \<times> string) list" where
  "release_contents r = (case r of (disk, dir, version, now) \<Rightarrow> bundle_contents disk dir)"

lemma files_contents:
  assumes "inventory sha256 disk dir = Inr fs"
  shows "set fs = digest_entry sha256 ` set (bundle_contents disk dir)"
  using inventory_contents [OF assms] by simp

lemma digest_entry_inj:
  assumes "inj_on sha256 (snd ` X)"
  shows "inj_on (digest_entry sha256) X"
proof (rule inj_onI)
  fix e e'
  assume "e \<in> X" "e' \<in> X" and eq: "digest_entry sha256 e = digest_entry sha256 e'"
  then have "fst e = fst e'" "sha256 (snd e) = sha256 (snd e')" by (auto dest: hex_encode_inj)
  with assms \<open>e \<in> X\<close> \<open>e' \<in> X\<close> show "e = e'" by (simp add: inj_on_def prod_eq_iff)
qed

lemma Verify_only_released:
  assumes vouch: "signs_only sha256 ed_sign ed_public ed_verify key pub sigs releases" "b64_decode (mf_Signature m) \<in> Some ` sigs"
    and m: "manifest_utf8 m" and ok: "bundle_Verify sha256 ed_verify disk dir m pub = None"
    and inj: "inj_on sha256 (snd ` (set (bundle_contents disk dir) \<union> (\<Union>r \<in> releases. set (release_contents r))))"
  shows "\<exists>r \<in> releases. \<exists>n. released_as sha256 ed_sign ed_public key r n \<and>
     mf_Version m = mf_Version n \<and> mf_Files m = mf_Files n \<and> signedPayload m = signedPayload n \<and>
     set (bundle_contents disk dir) = set (release_contents r)"
proof -
  obtain sig payload onDisk where a: "ed_verify pub payload sig" "signedPayload m = Inr payload" "sig \<in> sigs"
    and d: "inventory sha256 disk dir = Inr onDisk" "same_files (files_of m) onDisk"
    using ok vouch(2) by (auto simp: bundle_Verify_None_iff authentic_def split: option.splits sum.splits)
  obtain r n where r: "r \<in> releases" "released_as sha256 ed_sign ed_public key r n" "signedPayload n = Inr payload"
    using vouch(1) a(1,3) unfolding signs_only_def by blast
  then have n: "manifest_utf8 n" by (auto simp: released_as_def)
  note same = signedPayload_inj [OF a(2) r(3) m n]
  obtain rdisk rdir v t where rr: "r = (rdisk, rdir, v, t)" by (cases r)
  have "Sign sha256 ed_sign ed_public rdisk t rdir v key = Inr n" using r(2) by (simp add: released_as_def rr)
  from Sign_Inr [OF this] obtain files where "inventory sha256 rdisk rdir = Inr files" "mf_Files n = Some files"
    by (metis Manifest.select_convs(3))
  then have "set (files_of n) = digest_entry sha256 ` set (release_contents r)"
    using files_contents by (simp add: files_of_def release_contents_def rr)
  moreover have "set (files_of n) = digest_entry sha256 ` set (bundle_contents disk dir)"
    using files_contents [OF d(1)] d(2) same by (simp add: same_files_def files_of_def)
  ultimately have "set (bundle_contents disk dir) = set (release_contents r)"
    using inj_on_image_eq_iff [OF digest_entry_inj [OF inj], of "set (bundle_contents disk dir)" "set (release_contents r)"] r(1)
    by blast
  with same r a(2) show ?thesis by force
qed

section \<open>The loader\<close>

locale verifying_loader = policy_loader load reload in_force at_path
  for load :: "'env \<Rightarrow> string \<Rightarrow> 's \<Rightarrow> error option \<times> 's"
    and reload :: "'env \<Rightarrow> 's \<Rightarrow> error option \<times> 's"
    and in_force :: "'s \<Rightarrow> 'p option"
    and at_path :: "'env \<Rightarrow> string \<Rightarrow> 'p option" +
  fixes sha256 :: "string \<Rightarrow> string"
    and ed_verify :: "string \<Rightarrow> string \<Rightarrow> string \<Rightarrow> bool"
begin

abbreviation vload :: "'env load_env \<Rightarrow> string \<Rightarrow> 's VerifyingLoader \<Rightarrow> error option \<times> 's VerifyingLoader" where
  "vload \<equiv> VerifyingLoader_Load sha256 ed_verify load"

abbreviation vreload :: "'env load_env \<Rightarrow> 's VerifyingLoader \<Rightarrow> error option \<times> 's VerifyingLoader" where
  "vreload \<equiv> VerifyingLoader_Reload sha256 ed_verify load"

lemma vload_fails:
  "vload env path l = (Some e, l') \<Longrightarrow>
     in_force (vl_inner l') = in_force (vl_inner l) \<and> vl_active l' = vl_active l \<and> vl_path l' = vl_path l"
  using load_fails by (auto simp: VerifyingLoader_Load_def split: sum.splits prod.splits option.splits)

lemma vload_succeeds:
  "vload env path l = (None, l') \<Longrightarrow>
     VerifyingLoader_verify sha256 ed_verify env l path = Inr (vl_active l') \<and> vl_path l' = path \<and>
     in_force (vl_inner l') = at_path (le_inner env) path \<and> at_path (le_inner env) path \<noteq> None"
  using load_succeeds by (auto simp: VerifyingLoader_Load_def split: sum.splits prod.splits option.splits)

lemma vload_config:
  "vl_pub (snd (vload env path l)) = vl_pub l \<and> vl_manifestPath (snd (vload env path l)) = vl_manifestPath l"
  by (auto simp: VerifyingLoader_Load_def split: sum.splits prod.splits option.splits)

end

sublocale verifying_loader \<subseteq> vl: policy_loader vload vreload "\<lambda>l. in_force (vl_inner l)" "\<lambda>env. at_path (le_inner env)"
  using vload_fails vload_succeeds
  by unfold_locales (fastforce simp: VerifyingLoader_Reload_def split: if_splits)+

context verifying_loader
begin

lemma verify_config:
  "vl_pub l = vl_pub l' \<Longrightarrow> vl_manifestPath l = vl_manifestPath l' \<Longrightarrow>
     VerifyingLoader_verify sha256 ed_verify env l path = VerifyingLoader_verify sha256 ed_verify env l' path"
  by (simp add: VerifyingLoader_verify_def cong: sum.case_cong option.case_cong)

lemma vstep_config:
  "vl_pub (snd (vl.load_step env op l)) = vl_pub l \<and> vl_manifestPath (snd (vl.load_step env op l)) = vl_manifestPath l"
  using vload_config by (cases op) (simp_all add: VerifyingLoader_Reload_def)

text \<open>What one call leaves: nothing changed, or the policy of a bundle that verified, under its name.\<close>

definition attested :: "'env load_env \<Rightarrow> 's VerifyingLoader \<Rightarrow> PolicyBundleRef \<Rightarrow> 'p option \<Rightarrow> bool" where
  "attested env l ref p \<longleftrightarrow>
     (\<exists>path. VerifyingLoader_verify sha256 ed_verify env l path = Inr ref \<and> p = at_path (le_inner env) path \<and> p \<noteq> None)"

lemma vstep_attested:
  assumes "vl.load_step env op l = (r, l')"
  shows "(in_force (vl_inner l') = in_force (vl_inner l) \<and> vl_active l' = vl_active l) \<or>
    attested env l (vl_active l') (in_force (vl_inner l'))"
proof -
  have "vload env path l = (None, l') \<Longrightarrow> attested env l (vl_active l') (in_force (vl_inner l'))" for path
    unfolding attested_def using vload_succeeds [of env path l l'] by (intro exI [of _ path]) simp
  with assms vload_fails [of env _ l _ l'] show ?thesis
    by (cases op; cases r) (auto simp: VerifyingLoader_Reload_def split: if_splits)
qed

lemma loads_attested:
  "(in_force (vl_inner (vl.loads ops l)) = in_force (vl_inner l) \<and> vl_active (vl.loads ops l) = vl_active l) \<or>
   (\<exists>(env, op) \<in> set ops. attested env l (vl_active (vl.loads ops l)) (in_force (vl_inner (vl.loads ops l))))"
proof (induction ops arbitrary: l)
  case (Cons eo ops)
  obtain env op where eo: "eo = (env, op)" by (cases eo)
  obtain r l' where st: "vl.load_step env op l = (r, l')" by fastforce
  have "attested e l' = attested e l" for e
    using vstep_config [of env op l] verify_config [of l' l e] unfolding attested_def st by (intro ext) simp
  with Cons.IH [of l'] vstep_attested [OF st] show ?case by (auto simp: eo st)
qed simp

end

section \<open>Concurrent loads\<close>

text \<open>
  The loader's lock guards only the fields it writes at the end of a load, so concurrent calls of
  \<^verbatim>\<open>Load\<close> interleave between verifying, compiling and publishing. A thread is one call, at the point it has
  reached.
\<close>

datatype 'c load_thread =
    Starting "'c load_env" string
  | Checked "'c load_env" string PolicyBundleRef
  | Compiled string PolicyBundleRef
  | Returned "error option"

fun thread_step ::
  "(string \<Rightarrow> string) \<Rightarrow> (string \<Rightarrow> string \<Rightarrow> string \<Rightarrow> bool) \<Rightarrow> ('c \<Rightarrow> string \<Rightarrow> 'i \<Rightarrow> error option \<times> 'i) \<Rightarrow>
     'c load_thread \<Rightarrow> 'i VerifyingLoader \<Rightarrow> ('c load_thread \<times> 'i VerifyingLoader) option" where
  "thread_step sha256 ed_verify inner_load (Starting env path) l =
     Some (case VerifyingLoader_verify sha256 ed_verify env l path of
             Inl err \<Rightarrow> (Returned (Some err), l)
           | Inr ref \<Rightarrow> (Checked env path ref, l))"
| "thread_step sha256 ed_verify inner_load (Checked env path ref) l =
     Some (case inner_load (le_inner env) path (vl_inner l) of
             (Some err, i) \<Rightarrow> (Returned (Some err), l\<lparr>vl_inner := i\<rparr>)
           | (None, i) \<Rightarrow> (Compiled path ref, l\<lparr>vl_inner := i\<rparr>))"
| "thread_step sha256 ed_verify inner_load (Compiled path ref) l =
     Some (Returned None, l\<lparr>vl_path := path, vl_active := ref\<rparr>)"
| "thread_step sha256 ed_verify inner_load (Returned r) l = None"

inductive pool_step ::
  "(string \<Rightarrow> string) \<Rightarrow> (string \<Rightarrow> string \<Rightarrow> string \<Rightarrow> bool) \<Rightarrow> ('c \<Rightarrow> string \<Rightarrow> 'i \<Rightarrow> error option \<times> 'i) \<Rightarrow>
     'c load_thread list \<times> 'i VerifyingLoader \<Rightarrow> 'c load_thread list \<times> 'i VerifyingLoader \<Rightarrow> bool"
  for sha256 ed_verify inner_load
where
  step: "i < length ts \<Longrightarrow> thread_step sha256 ed_verify inner_load (ts ! i) l = Some (t, l') \<Longrightarrow>
    pool_step sha256 ed_verify inner_load (ts, l) (ts[i := t], l')"

inductive_simps pool_step_simps: "pool_step sha256 ed_verify inner_load (ts, l) p"

abbreviation pool_runs where
  "pool_runs sha256 ed_verify inner_load \<equiv> (pool_step sha256 ed_verify inner_load)\<^sup>*\<^sup>*"

text \<open>A schedule names the thread that takes each step.\<close>

fun run_schedule where
  "run_schedule sha256 ed_verify inner_load [] p = p"
| "run_schedule sha256 ed_verify inner_load (i # is) (ts, l) =
     (if i < length ts then
        (case thread_step sha256 ed_verify inner_load (ts ! i) l of
           None \<Rightarrow> run_schedule sha256 ed_verify inner_load is (ts, l)
         | Some (t, l') \<Rightarrow> run_schedule sha256 ed_verify inner_load is (ts[i := t], l'))
      else run_schedule sha256 ed_verify inner_load is (ts, l))"

lemma run_schedule_runs: "pool_runs sha256 ed_verify inner_load p (run_schedule sha256 ed_verify inner_load is p)"
proof (induction sha256 ed_verify inner_load "is" p rule: run_schedule.induct)
  case (2 sha256 ed_verify inner_load i "is" ts l)
  then show ?case by (auto split: option.splits intro: converse_rtranclp_into_rtranclp pool_step.step)
qed simp

text \<open>Alone, a thread is \<^verbatim>\<open>Load\<close>.\<close>

lemma Load_is_a_run:
  assumes "VerifyingLoader_Load sha256 ed_verify inner_load env path l = (r, l')"
  shows "pool_runs sha256 ed_verify inner_load ([Starting env path], l) ([Returned r], l')"
proof -
  have "run_schedule sha256 ed_verify inner_load [0, 0, 0] ([Starting env path], l) = ([Returned r], l')"
    using assms by (auto simp: VerifyingLoader_Load_def split: sum.splits prod.splits option.splits)
  with run_schedule_runs show ?thesis by metis
qed

context verifying_loader
begin

text \<open>The calls under way are calls of the pool, and hold the name of the bundle they verified.\<close>

definition thread_inv :: "('env load_env \<times> string) list \<Rightarrow> 's VerifyingLoader \<Rightarrow> 'env load_thread \<Rightarrow> bool" where
  "thread_inv calls l0 t \<longleftrightarrow>
     (case t of
        Starting env path \<Rightarrow> (env, path) \<in> set calls
      | Checked env path ref \<Rightarrow> (env, path) \<in> set calls \<and> VerifyingLoader_verify sha256 ed_verify env l0 path = Inr ref
      | Compiled path ref \<Rightarrow> \<exists>env. (env, path) \<in> set calls \<and> VerifyingLoader_verify sha256 ed_verify env l0 path = Inr ref
      | Returned r \<Rightarrow> True)"

definition policy_verified :: "('env load_env \<times> string) list \<Rightarrow> 's VerifyingLoader \<Rightarrow> 's VerifyingLoader \<Rightarrow> bool" where
  "policy_verified calls l0 l \<longleftrightarrow>
     in_force (vl_inner l) = in_force (vl_inner l0) \<or>
     (\<exists>(env, path) \<in> set calls. (\<exists>ref. VerifyingLoader_verify sha256 ed_verify env l0 path = Inr ref) \<and>
        in_force (vl_inner l) = at_path (le_inner env) path \<and> at_path (le_inner env) path \<noteq> None)"

definition active_verified :: "('env load_env \<times> string) list \<Rightarrow> 's VerifyingLoader \<Rightarrow> 's VerifyingLoader \<Rightarrow> bool" where
  "active_verified calls l0 l \<longleftrightarrow>
     vl_active l = vl_active l0 \<or>
     (\<exists>(env, path) \<in> set calls. VerifyingLoader_verify sha256 ed_verify env l0 path = Inr (vl_active l))"

definition pool_inv where
  "pool_inv calls l0 p \<longleftrightarrow>
     list_all (thread_inv calls l0) (fst p) \<and> policy_verified calls l0 (snd p) \<and> active_verified calls l0 (snd p) \<and>
     vl_pub (snd p) = vl_pub l0 \<and> vl_manifestPath (snd p) = vl_manifestPath l0"

lemma verified_fields [simp]:
  "policy_verified calls l0 (l\<lparr>vl_path := p, vl_active := a\<rparr>) = policy_verified calls l0 l"
  "active_verified calls l0 (l\<lparr>vl_inner := i\<rparr>) = active_verified calls l0 l"
  by (simp_all add: policy_verified_def active_verified_def)

lemma thread_step_inv:
  assumes "thread_step sha256 ed_verify load t l = Some (t', l')" "pool_inv calls l0 (ts, l)" "thread_inv calls l0 t"
  shows "thread_inv calls l0 t' \<and> policy_verified calls l0 l' \<and> active_verified calls l0 l' \<and>
    vl_pub l' = vl_pub l0 \<and> vl_manifestPath l' = vl_manifestPath l0"
proof (cases t)
  case (Starting env path)
  then show ?thesis
    using assms verify_config [of l l0 env path]
    by (auto simp: pool_inv_def thread_inv_def split: sum.splits)
next
  case (Checked env path ref)
  obtain e i where i: "load (le_inner env) path (vl_inner l) = (e, i)" by fastforce
  have "policy_verified calls l0 (l\<lparr>vl_inner := i\<rparr>)"
  proof (cases e)
    case None
    with i load_succeeds [of "le_inner env" path "vl_inner l" i] assms(3) show ?thesis
      by (auto simp: Checked policy_verified_def thread_inv_def)
  next
    case (Some err)
    with i load_fails [of "le_inner env" path "vl_inner l" err i] assms(2) show ?thesis
      by (simp add: policy_verified_def pool_inv_def)
  qed
  then show ?thesis
    using assms i
    by (cases e) (auto simp: Checked pool_inv_def thread_inv_def)
next
  case (Compiled path ref)
  then have "active_verified calls l0 (l\<lparr>vl_path := path, vl_active := ref\<rparr>)"
    using assms(3) by (auto simp: active_verified_def thread_inv_def)
  then show ?thesis using assms Compiled by (auto simp: pool_inv_def thread_inv_def)
qed (use assms in simp)

lemma pool_runs_inv:
  assumes "pool_runs sha256 ed_verify load (map (\<lambda>(env, path). Starting env path) calls, l0) p"
  shows "pool_inv calls l0 p"
  using assms
proof (induction rule: rtranclp_induct)
  case base
  show ?case by (auto simp: pool_inv_def thread_inv_def policy_verified_def active_verified_def list_all_iff)
next
  case (step p q)
  obtain ts l i t l' where p: "p = (ts, l)" "q = (ts[i := t], l')" "i < length ts"
    "thread_step sha256 ed_verify load (ts ! i) l = Some (t, l')"
    using step.hyps(2) by (cases rule: pool_step.cases) auto
  then have "thread_inv calls l0 (ts ! i)" using step.IH by (simp add: pool_inv_def list_all_length)
  from thread_step_inv [OF p(4) _ this, of ts] p step.IH show ?case
    by (simp add: pool_inv_def list_all_length nth_list_update)
qed

end

interpretation opa_verified: verifying_loader OPADecider_Load OPADecider_Reload opa_prepared opa_at_path sha256 ed_verify
  for sha256 ed_verify
  by unfold_locales

section \<open>From signing to loading\<close>

lemma hex_utf8: "utf8 (''sha256:'' @ hex_encode x)" "utf8 (hex_encode x)"
  using hex_encode_ascii [of x] by (simp_all add: coerce_ascii byte_in_def)

lemma b64_utf8: "utf8 (b64_encode s)"
proof (rule coerce_ascii)
  have "byte_in 0 0x7F (b64_char n)" for n using b64_char_ascii [of n] by (simp add: byte_in_def)
  moreover have "byte_in 0 0x7F (CHR ''='')" by (simp add: byte_in_def)
  ultimately show "list_all (byte_in 0 0x7F) (b64_encode s)"
    by (induction s rule: b64_encode.induct) (simp_all add: Let_def)
qed

lemma Sign_utf8:
  assumes "Sign sha256 ed_sign ed_public disk now dir version key = Inr m"
    and "utf8 version" "list_all (\<lambda>e. utf8 (fst e)) (bundle_contents disk dir)"
  shows "manifest_utf8 m"
proof -
  obtain files payload where s: "inventory sha256 disk dir = Inr files"
    "m = \<lparr>mf_Version = version, mf_CreatedAt = time_utc now, mf_Files = Some files, mf_KeyID = KeyID sha256 (ed_public key),
          mf_Signature = b64_encode (ed_sign key payload)\<rparr>"
    using Sign_Inr [OF assms(1)] .
  have "files_utf8 files"
    using assms(3) hex_utf8(2) files_contents [OF s(1)] by (auto simp: files_utf8_def list_all_iff)
  with assms(2) hex_utf8(1) b64_utf8 show ?thesis by (simp add: manifest_utf8_def s(2) KeyID_def del: append.simps)
qed

lemma signed_bundle_verifies:
  assumes sign: "Sign sha256 ed_sign ed_public disk now dir version key = Inr m"
    and "bundle_ok disk dir" "utf8 version" "list_all (\<lambda>e. utf8 (fst e)) (bundle_contents disk dir)"
    and "ed25519_pair ed_sign ed_verify key (ed_public key)"
    and "WriteManifest WriteOK mpath m files = (None, files')"
    and "vl_pub l = ed_public key" "vl_manifestPath l = mpath" "Manifest_Digest sha256 m = Inr digest"
  shows "VerifyingLoader_verify sha256 ed_verify \<lparr>le_files = files', le_bundles = disk, le_inner = compile\<rparr> l dir =
    Inr \<lparr>pbr_Version = version, pbr_Digest = digest\<rparr>"
proof -
  have "ReadManifest files' mpath = Inr m"
    by (rule ReadManifest_WriteManifest [OF assms(6) Sign_utf8 [OF assms(1,3,4)]])
  moreover have "bundle_Verify sha256 ed_verify disk dir m (ed_public key) = None"
    by (rule Sign_verifies [OF assms(1,2,5)])
  moreover have "mf_Version m = version" using Sign_Inr [OF sign] by (metis Manifest.select_convs(1))
  ultimately show ?thesis using assms(7-9) by (simp add: VerifyingLoader_verify_def)
qed

lemma verified_load:
  "VerifyingLoader_verify sha256 ed_verify env l path = Inr ref \<Longrightarrow> le_inner env path = Inr pq \<Longrightarrow>
     VerifyingLoader_Load sha256 ed_verify OPADecider_Load env path l =
       (None, l\<lparr>vl_inner := (vl_inner l)\<lparr>opa_path := path, opa_prepared := Some pq\<rparr>, vl_path := path, vl_active := ref\<rparr>)"
  by (simp add: VerifyingLoader_Load_def OPADecider_Load_def)

lemma Sign_digest:
  assumes "Sign sha256 ed_sign ed_public disk now dir version key = Inr m"
  obtains digest where "Manifest_Digest sha256 m = Inr digest"
proof -
  obtain payload where "signedPayload m = Inr payload" using Sign_Inr [OF assms] by metis
  then show thesis by (intro that) (simp add: Manifest_Digest_def)
qed

section \<open>Properties\<close>

text \<open>C16. \<^verbatim>\<open>Verify\<close> accepts a bundle exactly when the manifest is authentic, that is it names the configured key
  and carries a signature of its version, time and files that this key verifies, and the files
  it lists are exactly the files of the bundle: each with its digest, none missing, none besides,
  none twice.\<close>

theorem Verify_exact:
  "bundle_Verify sha256 ed_verify disk dir m pub = None \<longleftrightarrow>
     length pub = PublicKeySize \<and> mf_KeyID m = KeyID sha256 pub \<and> mf_Signature m \<noteq> [] \<and>
     (\<exists>sig payload. b64_decode (mf_Signature m) = Some sig \<and> signedPayload m = Inr payload \<and> ed_verify pub payload sig) \<and>
     (\<exists>onDisk. inventory sha256 disk dir = Inr onDisk \<and> set onDisk = set (files_of m) \<and>
        distinct (map fd_Path onDisk) \<and> distinct (map fd_Path (files_of m)))"
  by (auto simp: bundle_Verify_None_iff authentic_def same_files_def split: option.splits sum.splits)

text \<open>C17. Signing, publishing and loading fit: a bundle that \<^verbatim>\<open>Sign\<close> signed and whose manifest \<^verbatim>\<open>WriteManifest\<close> wrote
  is loaded by a verifying loader that has the public key, if the policy compiles, and the loader
  then reports the version that was signed and the digest of its manifest.\<close>

theorem Sign_Write_Load:
  assumes "Sign sha256 ed_sign ed_public disk now dir version key = Inr m"
    and "bundle_ok disk dir" "utf8 version" "list_all (\<lambda>e. utf8 (fst e)) (bundle_contents disk dir)"
    and "ed25519_pair ed_sign ed_verify key (ed_public key)"
    and "WriteManifest WriteOK mpath m files = (None, files')"
    and "compile dir = Inr pq"
  shows "\<exists>l digest.
    VerifyingLoader_Load sha256 ed_verify OPADecider_Load \<lparr>le_files = files', le_bundles = disk, le_inner = compile\<rparr> dir
      (NewVerifyingLoader d mpath (ed_public key)) = (None, l) \<and>
    Manifest_Digest sha256 m = Inr digest \<and>
    VerifyingLoader_Active l = \<lparr>pbr_Version = version, pbr_Digest = digest\<rparr> \<and> opa_prepared (vl_inner l) = Some pq"
proof -
  obtain digest where digest: "Manifest_Digest sha256 m = Inr digest" using Sign_digest [OF assms(1)] .
  have "VerifyingLoader_verify sha256 ed_verify \<lparr>le_files = files', le_bundles = disk, le_inner = compile\<rparr>
      (NewVerifyingLoader d mpath (ed_public key)) dir = Inr \<lparr>pbr_Version = version, pbr_Digest = digest\<rparr>"
    by (rule signed_bundle_verifies [OF assms(1-6) _ _ digest]) (simp_all add: NewVerifyingLoader_def)
  from verified_load [OF this, of pq] show ?thesis using digest assms(7) by (simp add: VerifyingLoader_Active_def)
qed

text \<open>An example: one policy file, and a signature scheme that repeats the message.\<close>

definition example_disk :: bundles where
  "example_disk dir = Inr (Directory (Inr [(''.bundle.json'', File (Inr [])), (''main.rego'', File (Inr ''package helmdeep''))]))"

definition example_key :: string where
  "example_key = replicate 64 (CHR ''k'')"

abbreviation example_sign :: "string \<Rightarrow> string \<Rightarrow> string" where
  "example_sign key p \<equiv> CHR ''s'' # p"

abbreviation example_verify :: "string \<Rightarrow> string \<Rightarrow> string \<Rightarrow> bool" where
  "example_verify pub p sig \<equiv> sig = CHR ''s'' # p"

abbreviation example_Sign :: "string \<Rightarrow> error + Manifest" where
  "example_Sign version \<equiv> Sign example_sha example_sign (take 32) example_disk time_zero ''policies'' version example_key"

definition example_compile :: "nat \<Rightarrow> string \<Rightarrow> error + nat" where
  "example_compile n path = Inr n"

lemma example_contents: "bundle_contents example_disk dir = [(''main.rego'', ''package helmdeep'')]"
  by (simp add: bundle_contents_def example_disk_def hidden_name_def hasPrefix_def path_join_def read_content_def)

lemma time_utc_zero [simp]: "time_utc time_zero = time_zero"
  by (simp add: time_utc_def time_zero_def)

lemma example_Sign_Inr: "version \<noteq> [] \<Longrightarrow> \<exists>m. example_Sign version = Inr m"
  by (simp add: Sign_def example_key_def PrivateKeySize_def inventory_def example_disk_def hidden_name_def hasPrefix_def
      file_digest_def signedPayload_def signed_members_def example_time Let_def del: json_text.simps)

lemma example_pair: "ed25519_pair example_sign example_verify example_key (take 32 example_key)"
  by (simp add: ed25519_pair_def example_key_def PublicKeySize_def)

lemma example_write:
  assumes "example_Sign version = Inr m"
  shows "\<exists>files'. WriteManifest WriteOK path m files = (None, files')"
proof -
  have "mf_CreatedAt m = time_zero"
    using Sign_Inr [OF assms] by (metis Manifest.select_convs(2) time_utc_zero)
  then show ?thesis by (simp add: WriteManifest_def json_of_manifest_def example_time WriteFile_def)
qed

theorem Sign_Write_Load_witness:
  "\<exists>m files' l digest. example_Sign ''v1'' = Inr m \<and> WriteManifest WriteOK ''m.json'' m (\<lambda>_. Inl ''none'') = (None, files') \<and>
     VerifyingLoader_Load example_sha example_verify OPADecider_Load
       \<lparr>le_files = files', le_bundles = example_disk, le_inner = example_compile 1\<rparr> ''policies''
       (NewVerifyingLoader NewOPADecider ''m.json'' (take 32 example_key)) = (None, l) \<and>
     VerifyingLoader_Active l = \<lparr>pbr_Version = ''v1'', pbr_Digest = digest\<rparr>"
proof -
  obtain m where m: "example_Sign ''v1'' = Inr m" using example_Sign_Inr [of "''v1''"] by auto
  obtain files' where w: "WriteManifest WriteOK ''m.json'' m (\<lambda>_. Inl ''none'') = (None, files')"
    using example_write [OF m] by blast
  have "bundle_ok example_disk ''policies''" by (simp add: bundle_ok_def example_disk_def)
  moreover have "utf8 ''v1''" "list_all (\<lambda>e. utf8 (fst e)) (bundle_contents example_disk ''policies'')"
    by (simp_all add: coerce_ascii byte_in_def example_contents)
  ultimately show ?thesis
    using Sign_Write_Load [where compile = "example_compile 1", OF m _ _ _ example_pair w, of 1] m w by (simp add: example_compile_def) blast
qed

text \<open>C15. As long as only the holder of the key signs with it, only released bundles load: the files on
  disk that were verified are the files of a release, byte for byte, and the loader reports that release's
  version and digest. Edited, added and missing files, and manifests put together from others, are all refused.\<close>

theorem Load_only_released:
  assumes "signs_only sha256 ed_sign ed_public ed_verify key (vl_pub l) sigs releases"
    and "\<forall>m sig. ReadManifest (le_files env) (vl_manifestPath l) = Inr m \<and> b64_decode (mf_Signature m) = Some sig \<longrightarrow> sig \<in> sigs"
    and "VerifyingLoader_Load sha256 ed_verify OPADecider_Load env path l = (None, l')"
    and "inj_on sha256 (snd ` (set (bundle_contents (le_bundles env) path) \<union> (\<Union>r \<in> releases. set (release_contents r))))"
  shows "\<exists>r \<in> releases. \<exists>m. released_as sha256 ed_sign ed_public key r m \<and>
    set (bundle_contents (le_bundles env) path) = set (release_contents r) \<and>
    pbr_Version (VerifyingLoader_Active l') = mf_Version m \<and>
    Manifest_Digest sha256 m = Inr (pbr_Digest (VerifyingLoader_Active l'))"
proof -
  have "VerifyingLoader_verify sha256 ed_verify env l path = Inr (vl_active l')"
    using opa_verified.vload_succeeds [OF assms(3)] by simp
  then obtain m where m: "ReadManifest (le_files env) (vl_manifestPath l) = Inr m"
    "bundle_Verify sha256 ed_verify (le_bundles env) path m (vl_pub l) = None"
    and act: "Manifest_Digest sha256 m = Inr (pbr_Digest (vl_active l'))" "pbr_Version (vl_active l') = mf_Version m"
    by (cases "vl_active l'") (auto simp: VerifyingLoader_verify_def split: sum.splits option.splits)
  have "b64_decode (mf_Signature m) \<in> Some ` sigs"
    using m assms(2) by (auto simp: bundle_Verify_None_iff authentic_def split: option.splits)
  then obtain r n where r: "r \<in> releases" "released_as sha256 ed_sign ed_public key r n" "mf_Version m = mf_Version n"
    "signedPayload m = signedPayload n" "set (bundle_contents (le_bundles env) path) = set (release_contents r)"
    using Verify_only_released [OF assms(1) _ ReadManifest_utf8 [OF m(1)] m(2) assms(4)] by blast
  from r(4) act(1) have "Manifest_Digest sha256 n = Inr (pbr_Digest (vl_active l'))" by (simp add: Manifest_Digest_def)
  with r act(2) show ?thesis by (auto simp: VerifyingLoader_Active_def)
qed

text \<open>The example's one release, loaded.\<close>

theorem Load_only_released_witness:
  "\<exists>env. \<exists>l :: nat OPADecider VerifyingLoader.
     VerifyingLoader_Load example_sha example_verify OPADecider_Load env ''policies''
       (NewVerifyingLoader NewOPADecider ''m.json'' (take 32 example_key)) = (None, l) \<and>
     set (bundle_contents example_disk ''policies'') = set (release_contents (example_disk, ''policies'', ''v1'', time_zero)) \<and>
     pbr_Version (VerifyingLoader_Active l) = ''v1'' \<and> opa_prepared (vl_inner l) = Some (1::nat)"
proof -
  obtain m where m: "example_Sign ''v1'' = Inr m" using example_Sign_Inr [of "''v1''"] by auto
  obtain files' where w: "WriteManifest WriteOK ''m.json'' m (\<lambda>_. Inl ''none'') = (None, files')"
    using example_write [OF m] by blast
  obtain payload where pl: "signedPayload m = Inr payload" "mf_Version m = ''v1''"
    "mf_Signature m = b64_encode (CHR ''s'' # payload)"
    using Sign_Inr [OF m] by (metis Manifest.select_convs(1,5))
  obtain digest where digest: "Manifest_Digest example_sha m = Inr digest" using Sign_digest [OF m] .
  let ?l = "NewVerifyingLoader NewOPADecider ''m.json'' (take 32 example_key)"
  let ?env = "\<lparr>le_files = files', le_bundles = example_disk, le_inner = example_compile 1\<rparr>"
  have ok: "bundle_ok example_disk ''policies''" by (simp add: bundle_ok_def example_disk_def)
  have u: "utf8 ''v1''" "list_all (\<lambda>e. utf8 (fst e)) (bundle_contents example_disk ''policies'')"
    by (simp_all add: coerce_ascii byte_in_def example_contents)
  note mu = Sign_utf8 [OF m u]
  have "VerifyingLoader_verify example_sha example_verify ?env ?l ''policies'' = Inr \<lparr>pbr_Version = ''v1'', pbr_Digest = digest\<rparr>"
    by (rule signed_bundle_verifies [OF m ok u example_pair w _ _ digest]) (simp_all add: NewVerifyingLoader_def)
  from verified_load [OF this, of 1]
  obtain l where l: "VerifyingLoader_Load example_sha example_verify OPADecider_Load ?env ''policies'' ?l = (None, l)"
    "opa_prepared (vl_inner l) = Some 1"
    by (simp add: example_compile_def)
  let ?r = "(example_disk, ''policies'', ''v1'', time_zero) :: release"
  have "released_as example_sha example_sign (take 32) example_key ?r m" using m mu by (simp add: released_as_def)
  then have only: "signs_only example_sha example_sign (take 32) example_verify example_key (vl_pub ?l) {CHR ''s'' # payload} {?r}"
    using pl(1) by (auto simp: signs_only_def)
  have sig: "sig \<in> {CHR ''s'' # payload}"
    if "ReadManifest (le_files ?env) (vl_manifestPath ?l) = Inr n" "b64_decode (mf_Signature n) = Some sig" for n sig
  proof -
    have "n = m" using that(1) ReadManifest_WriteManifest [OF w mu] by (simp add: NewVerifyingLoader_def)
    with that(2) show ?thesis by (simp add: pl(3))
  qed
  have inj: "inj_on example_sha (snd ` (set (bundle_contents (le_bundles ?env) ''policies'') \<union> (\<Union>r \<in> {?r}. set (release_contents r))))"
    by (simp add: example_contents release_contents_def)
  from sig have "\<forall>n sig. ReadManifest (le_files ?env) (vl_manifestPath ?l) = Inr n \<and> b64_decode (mf_Signature n) = Some sig \<longrightarrow> sig \<in> {CHR ''s'' # payload}"
    by blast
  from Load_only_released [OF only this l(1) inj] obtain n where
    n: "released_as example_sha example_sign (take 32) example_key ?r n" "pbr_Version (VerifyingLoader_Active l) = mf_Version n"
      "set (bundle_contents example_disk ''policies'') = set (release_contents ?r)"
    by auto
  have "n = m" using n(1) m by (simp add: released_as_def)
  with n l show ?thesis by (intro exI [of _ ?env] exI [of _ l]) (simp add: pl(2))
qed

text \<open>C19. Over any sequence of loads and reloads, whatever the disk holds at each, the loader never parts the
  policy from its name: either nothing changed, or the policy in force is what the decision
  point compiled in one of the calls, in which the bundle verified, and \<^verbatim>\<open>Active\<close> is the version and digest
  of the manifest of that very call.\<close>

theorem verified_loads_attested:
  "let l' = opa_verified.vl.loads sha256 ed_verify ops l
   in (opa_prepared (vl_inner l') = opa_prepared (vl_inner l) \<and> VerifyingLoader_Active l' = VerifyingLoader_Active l) \<or>
      (\<exists>env op path pq. (env, op) \<in> set ops \<and> le_inner env path = Inr pq \<and> opa_prepared (vl_inner l') = Some pq \<and>
         VerifyingLoader_verify sha256 ed_verify env l path = Inr (VerifyingLoader_Active l'))"
proof -
  have at: "p = opa_at_path c path \<and> p \<noteq> None \<longleftrightarrow> (\<exists>pq. c path = Inr pq \<and> p = Some pq)" for p :: "'a option" and c path
    by (auto simp: opa_at_path_def split: sum.splits)
  show ?thesis
    using opa_verified.loads_attested [of sha256 ed_verify ops l]
    unfolding Let_def VerifyingLoader_Active_def opa_verified.attested_def at by blast
qed

text \<open>C23. However concurrent calls of \<^verbatim>\<open>Load\<close> interleave, verification is not bypassed: at every moment the
  policy in force is the one before them or one compiled by a call whose bundle verified, and
  \<^verbatim>\<open>Active\<close> is the name before them or that of a bundle that verified in one of the calls.\<close>

theorem concurrent_loads_verified:
  assumes "pool_runs sha256 ed_verify OPADecider_Load (map (\<lambda>(env, path). Starting env path) calls, l) (ts, l')"
  shows "(opa_prepared (vl_inner l') = opa_prepared (vl_inner l) \<or>
      (\<exists>env path ref pq. (env, path) \<in> set calls \<and> VerifyingLoader_verify sha256 ed_verify env l path = Inr ref \<and>
         le_inner env path = Inr pq \<and> opa_prepared (vl_inner l') = Some pq)) \<and>
    (VerifyingLoader_Active l' = VerifyingLoader_Active l \<or>
      (\<exists>env path. (env, path) \<in> set calls \<and> VerifyingLoader_verify sha256 ed_verify env l path = Inr (VerifyingLoader_Active l')))"
proof -
  have inv: "opa_verified.policy_verified sha256 ed_verify calls l l'" "opa_verified.active_verified sha256 ed_verify calls l l'"
    using opa_verified.pool_runs_inv [OF assms] by (simp_all add: opa_verified.pool_inv_def)
  have at: "p = opa_at_path c path \<and> opa_at_path c path \<noteq> None \<longleftrightarrow> (\<exists>pq. c path = Inr pq \<and> p = Some pq)" for p :: "'b option" and c path
    by (auto simp: opa_at_path_def split: sum.splits)
  show ?thesis
    using inv unfolding opa_verified.policy_verified_def opa_verified.active_verified_def VerifyingLoader_Active_def at by blast
qed

text \<open>C40. But concurrent loads can part the policy from its name, although the loader's comment has them
  serialized: of two calls whose bundles verify and compile, one schedule lets both return
  success with the policy of the second in force and the name of the first in \<^verbatim>\<open>Active\<close>, which then stamps
  every record.\<close>

theorem concurrent_loads_misname:
  assumes "VerifyingLoader_verify sha256 ed_verify env1 l path1 = Inr ref1" "le_inner env1 path1 = Inr pq1"
    and "VerifyingLoader_verify sha256 ed_verify env2 l path2 = Inr ref2" "le_inner env2 path2 = Inr pq2"
  shows "\<exists>l'. pool_runs sha256 ed_verify OPADecider_Load ([Starting env1 path1, Starting env2 path2], l) ([Returned None, Returned None], l') \<and>
    opa_prepared (vl_inner l') = Some pq2 \<and> VerifyingLoader_Active l' = ref1"
proof -
  let ?l' = "l\<lparr>vl_inner := (vl_inner l)\<lparr>opa_path := path2, opa_prepared := Some pq2\<rparr>, vl_path := path1, vl_active := ref1\<rparr>"
  have "run_schedule sha256 ed_verify OPADecider_Load [0, 1, 0, 1, 1, 0] ([Starting env1 path1, Starting env2 path2], l) =
      ([Returned None, Returned None], ?l')"
    using assms by (simp add: OPADecider_Load_def)
  then have "pool_runs sha256 ed_verify OPADecider_Load ([Starting env1 path1, Starting env2 path2], l) ([Returned None, Returned None], ?l')"
    using run_schedule_runs by metis
  then show ?thesis by (intro exI [of _ ?l']) (simp add: VerifyingLoader_Active_def)
qed

text \<open>Two versions of the example's bundle, each with its own manifest at the moment of its load.\<close>

lemma example_verified:
  fixes compile :: "string \<Rightarrow> error + nat"
  assumes "version \<noteq> []" "utf8 version"
  shows "\<exists>files' digest. VerifyingLoader_verify example_sha example_verify
      \<lparr>le_files = files', le_bundles = example_disk, le_inner = compile\<rparr>
      (NewVerifyingLoader NewOPADecider ''m.json'' (take 32 example_key) :: nat OPADecider VerifyingLoader) ''policies'' =
      Inr \<lparr>pbr_Version = version, pbr_Digest = digest\<rparr>"
proof -
  obtain m where m: "example_Sign version = Inr m" using example_Sign_Inr [OF assms(1)] by auto
  obtain files' where w: "WriteManifest WriteOK ''m.json'' m (\<lambda>_. Inl ''none'') = (None, files')"
    using example_write [OF m] by blast
  obtain digest where digest: "Manifest_Digest example_sha m = Inr digest" using Sign_digest [OF m] .
  have "bundle_ok example_disk ''policies''" "list_all (\<lambda>e. utf8 (fst e)) (bundle_contents example_disk ''policies'')"
    by (simp_all add: bundle_ok_def example_disk_def coerce_ascii byte_in_def example_contents)
  from signed_bundle_verifies [OF m this(1) assms(2) this(2) example_pair w _ _ digest,
      of "NewVerifyingLoader NewOPADecider ''m.json'' (take 32 example_key) :: nat OPADecider VerifyingLoader" compile]
  show ?thesis by (auto simp: NewVerifyingLoader_def)
qed

theorem concurrent_loads_misname_witness:
  "\<exists>env1 env2 digest. \<exists>l' :: nat OPADecider VerifyingLoader.
     pool_runs example_sha example_verify OPADecider_Load
       ([Starting env1 ''policies'', Starting env2 ''policies''], NewVerifyingLoader NewOPADecider ''m.json'' (take 32 example_key))
       ([Returned None, Returned None], l') \<and>
     opa_prepared (vl_inner l') = Some 2 \<and> VerifyingLoader_Active l' = \<lparr>pbr_Version = ''v1'', pbr_Digest = digest\<rparr>"
proof -
  let ?l = "NewVerifyingLoader NewOPADecider ''m.json'' (take 32 example_key) :: nat OPADecider VerifyingLoader"
  obtain f1 d1 where 1: "VerifyingLoader_verify example_sha example_verify
      \<lparr>le_files = f1, le_bundles = example_disk, le_inner = example_compile 1\<rparr> ?l ''policies'' = Inr \<lparr>pbr_Version = ''v1'', pbr_Digest = d1\<rparr>"
    using example_verified [of "''v1''" "example_compile 1"] by (auto simp: coerce_ascii byte_in_def)
  obtain f2 d2 where 2: "VerifyingLoader_verify example_sha example_verify
      \<lparr>le_files = f2, le_bundles = example_disk, le_inner = example_compile 2\<rparr> ?l ''policies'' = Inr \<lparr>pbr_Version = ''v2'', pbr_Digest = d2\<rparr>"
    using example_verified [of "''v2''" "example_compile 2"] by (auto simp: coerce_ascii byte_in_def)
  from concurrent_loads_misname [OF 1 _ 2, of 1 2] show ?thesis by (simp add: example_compile_def) blast
qed

theorem concurrent_loads_verified_witness:
  "\<exists>env. \<exists>l' :: nat OPADecider VerifyingLoader.
     pool_runs example_sha example_verify OPADecider_Load
       ([Starting env ''policies''], NewVerifyingLoader NewOPADecider ''m.json'' (take 32 example_key)) ([Returned None], l') \<and>
     opa_prepared (vl_inner l') = Some 1 \<and>
     VerifyingLoader_verify example_sha example_verify env
       (NewVerifyingLoader NewOPADecider ''m.json'' (take 32 example_key) :: nat OPADecider VerifyingLoader) ''policies'' =
       Inr (VerifyingLoader_Active l')"
proof -
  let ?l = "NewVerifyingLoader NewOPADecider ''m.json'' (take 32 example_key) :: nat OPADecider VerifyingLoader"
  obtain f d where v: "VerifyingLoader_verify example_sha example_verify
      \<lparr>le_files = f, le_bundles = example_disk, le_inner = example_compile 1\<rparr> ?l ''policies'' = Inr \<lparr>pbr_Version = ''v1'', pbr_Digest = d\<rparr>"
    using example_verified [of "''v1''" "example_compile 1"] by (auto simp: coerce_ascii byte_in_def)
  let ?env = "\<lparr>le_files = f, le_bundles = example_disk, le_inner = example_compile 1\<rparr>"
  obtain l' where l': "VerifyingLoader_Load example_sha example_verify OPADecider_Load ?env ''policies'' ?l = (None, l')"
    "vl_active l' = \<lparr>pbr_Version = ''v1'', pbr_Digest = d\<rparr>" "opa_prepared (vl_inner l') = Some 1"
    using verified_load [OF v, of 1] by (simp add: example_compile_def)
  note run = Load_is_a_run [OF l'(1)]
  have "VerifyingLoader_Active l' \<noteq> VerifyingLoader_Active ?l"
    by (simp add: VerifyingLoader_Active_def l'(2) NewVerifyingLoader_def zero_BundleRef_def)
  then have "VerifyingLoader_verify example_sha example_verify ?env ?l ''policies'' = Inr (VerifyingLoader_Active l')"
    using concurrent_loads_verified [of example_sha example_verify "[(?env, ''policies'')]" ?l "[Returned None]" l'] run by auto
  with run l'(3) show ?thesis by (intro exI [of _ ?env] exI [of _ l']) simp
qed

end
