(* ===== verification/Go_Duration.thy ===== *)
theory Go_Duration
  imports Go_Time
begin

text \<open>
  \<^verbatim>\<open>time.ParseDuration\<close> of Go's standard library, on bytes: an optional sign, then numbers with optional fractions, each
  with its unit, with the overflow checks of its 64-bit arithmetic. The nanoseconds of a fraction are computed here as the
  integer part of the exact quotient; Go computes them in \<^verbatim>\<open>float64\<close>, which gives the same whenever the unit is a
  multiple of the fraction's power of ten and may differ by one nanosecond otherwise.
\<close>

definition hex_byte :: "nat \<Rightarrow> string" where
  "hex_byte n = [CHR 0x5C, CHR ''x''] @ hex2 n"

text \<open>The quoting of the \<^verbatim>\<open>time\<close> package.\<close>

definition time_quote :: "string \<Rightarrow> string" where
  "time_quote s =
     [CHR 0x22] @ concat (map (\<lambda>c.
       let n = of_char c :: nat in
       if 128 \<le> n \<or> n < 32 then hex_byte n
       else if n = 34 \<or> n = 92 then [CHR 0x5C, c] else [c]) s) @ [CHR 0x22]"

definition unit_ns :: "string \<Rightarrow> nat option" where
  "unit_ns u = map_of
     [(''ns'', 1), (''us'', 10 ^ 3), ([CHR 0xC2, CHR 0xB5, CHR ''s''], 10 ^ 3), ([CHR 0xCE, CHR 0xBC, CHR ''s''], 10 ^ 3),
      (''ms'', 10 ^ 6), (''s'', 10 ^ 9), (''m'', 60 * 10 ^ 9), (''h'', 3600 * 10 ^ 9)] u"

text \<open>The digits of a fraction: those that would overflow are dropped.\<close>

fun fraction_digits :: "string \<Rightarrow> nat \<Rightarrow> nat \<Rightarrow> nat \<times> nat" where
  "fraction_digits [] x scale = (x, scale)"
| "fraction_digits (c # cs) x scale =
     (if (2 ^ 63 - 1) div 10 < x \<or> 2 ^ 63 < x * 10 + digit_val c then (x, scale)
      else fraction_digits cs (x * 10 + digit_val c) (scale * 10))"

definition unit_char :: "char \<Rightarrow> bool" where
  "unit_char c \<longleftrightarrow> c \<noteq> CHR ''.'' \<and> \<not> is_digit c"

text \<open>One number and its unit: the nanoseconds and what is left of the text; \<open>orig\<close> is quoted in errors.\<close>

definition invalid_duration :: "string \<Rightarrow> error" where
  "invalid_duration orig = ''time: invalid duration '' @ time_quote orig"

definition parse_term :: "string \<Rightarrow> string \<Rightarrow> error + nat \<times> string" where
  "parse_term orig s =
     (let pre = takeWhile is_digit s; s1 = dropWhile is_digit s;
          dot = (s1 \<noteq> [] \<and> hd s1 = CHR ''.'');
          post = (if dot then takeWhile is_digit (tl s1) else []);
          s2 = (if dot then dropWhile is_digit (tl s1) else s1);
          (f, scale) = fraction_digits post 0 1;
          u = takeWhile unit_char s2; rest = dropWhile unit_char s2; v = digits_val pre
      in if s = [] \<or> unit_char (hd s) then Inl (invalid_duration orig)
         else if 2 ^ 63 < v then Inl (invalid_duration orig)
         else if pre = [] \<and> post = [] then Inl (invalid_duration orig)
         else if u = [] then Inl (''time: missing unit in duration '' @ time_quote orig)
         else (case unit_ns u of
            None \<Rightarrow> Inl (''time: unknown unit '' @ time_quote u @ '' in duration '' @ time_quote orig)
          | Some unit \<Rightarrow>
              if 2 ^ 63 div unit < v then Inl (invalid_duration orig)
              else
                (let w = v * unit + f * unit div scale
                 in if 0 < f \<and> 2 ^ 63 < w then Inl (invalid_duration orig) else Inr (w, rest))))"

lemma parse_term_shorter: "parse_term orig s = Inr (w, rest) \<Longrightarrow> length rest < length s"
proof -
  assume a: "parse_term orig s = Inr (w, rest)"
  define s1 where "s1 = dropWhile is_digit s"
  define s2 where "s2 = (if s1 \<noteq> [] \<and> hd s1 = CHR ''.'' then dropWhile is_digit (tl s1) else s1)"
  have l: "length s1 \<le> length s" "length s2 \<le> length s1"
    by (auto simp: s1_def s2_def length_dropWhile_le intro: order_trans [OF length_dropWhile_le])
  have "takeWhile unit_char s2 \<noteq> []" "rest = dropWhile unit_char s2"
    using a by (auto simp: parse_term_def Let_def s1_def s2_def split: prod.splits if_splits option.splits)
  then have "length rest < length s2"
    by (metis takeWhile_dropWhile_id length_append length_greater_0_conv less_add_same_cancel2)
  with l show ?thesis by linarith
qed

function parse_terms :: "string \<Rightarrow> nat \<Rightarrow> string \<Rightarrow> error + nat" where
  "parse_terms orig d s =
     (if s = [] then Inr d
      else case parse_term orig s of
        Inl err \<Rightarrow> Inl err
      | Inr (w, rest) \<Rightarrow> if 2 ^ 63 < d + w then Inl (invalid_duration orig) else parse_terms orig (d + w) rest)"
  by pat_completeness auto
termination
  by (relation "measure (\<lambda>(orig, d, s). length s)") (auto dest: parse_term_shorter)

declare parse_terms.simps [simp del]

definition parseDuration :: "string \<Rightarrow> error + int" where
  "parseDuration orig =
     (let signed = (orig \<noteq> [] \<and> hd orig \<in> {CHR ''-'', CHR ''+''}); neg = (orig \<noteq> [] \<and> hd orig = CHR ''-'');
          s = (if signed then tl orig else orig)
      in if s = ''0'' then Inr 0
         else if s = [] then Inl (invalid_duration orig)
         else (case parse_terms orig 0 s of
            Inl err \<Rightarrow> Inl err
          | Inr d \<Rightarrow>
              if neg then Inr (- int d)
              else if 2 ^ 63 - 1 < d then Inl (invalid_duration orig)
              else Inr (int d)))"

section \<open>Bounds\<close>

lemma parse_terms_bound: "d \<le> 2 ^ 63 \<Longrightarrow> parse_terms orig d s = Inr e \<Longrightarrow> d \<le> e \<and> e \<le> 2 ^ 63"
proof (induction orig d s rule: parse_terms.induct)
  case (1 orig d s)
  show ?case
  proof (cases "s = []")
    case False
    with 1(3) obtain w rest where t: "parse_term orig s = Inr (w, rest)" "\<not> 2 ^ 63 < d + w" "parse_terms orig (d + w) rest = Inr e"
      by (subst (asm) parse_terms.simps) (auto split: sum.splits prod.splits if_splits)
    then have "d + w \<le> e \<and> e \<le> 2 ^ 63" using 1(1) [OF False t(1) refl t(2)] by simp
    then show ?thesis by simp
  next
    case True
    with 1(2,3) show ?thesis by (subst (asm) parse_terms.simps) simp
  qed
qed

text \<open>A parsed duration is in the range of the 64-bit type it is held in.\<close>

lemma parseDuration_range: "parseDuration s = Inr d \<Longrightarrow> - (2 ^ 63) \<le> d \<and> d < 2 ^ 63"
  using parse_terms_bound [of 0 s]
  by (fastforce simp: parseDuration_def Let_def split: if_splits sum.splits)

text \<open>Whole numbers of a unit are read exactly.\<close>

lemma parse_whole:
  assumes "unit_ns u = Some k" "list_all unit_char u" "n * k < 2 ^ 63"
  shows "parseDuration (show_nat n @ u) = Inr (int (n * k))"
proof -
  have k: "0 < k" "u \<noteq> []" using assms(1) by (auto simp: unit_ns_def split: if_splits)
  then have "n \<le> n * k" by simp
  then have n: "n < 2 ^ 63" using assms(3) by linarith
  obtain c cs where ds: "show_nat n = c # cs" by (cases "show_nat n") auto
  have digits: "\<forall>x \<in> set (show_nat n). is_digit x" using show_nat_digits [of n] by (simp add: list_all_iff)
  then have c: "is_digit c" by (simp add: ds)
  have u: "\<not> is_digit (hd u)" "hd u \<noteq> CHR ''.''" "takeWhile unit_char u = u" "dropWhile unit_char u = []"
    using assms(2) k(2) by (cases u; auto simp: unit_char_def list_all_iff takeWhile_eq_all_conv)+
  have split: "takeWhile is_digit (show_nat n @ u) = show_nat n" "dropWhile is_digit (show_nat n @ u) = u"
    using digits u(1) k(2) by (cases u; simp add: takeWhile_append2 dropWhile_append2)+
  have hd: "\<not> unit_char (hd (show_nat n @ u))" "show_nat n @ u \<noteq> []" using c by (simp_all add: ds unit_char_def)
  have "n \<le> 2 ^ 63 div k"
    using assms(3) k(1) by (simp add: less_eq_div_iff_mult_less_eq)
  then have "parse_term (show_nat n @ u) (show_nat n @ u) = Inr (n * k, [])"
    unfolding parse_term_def Let_def split using u(1,2) hd k assms(1,3) n by (simp add: u(3,4))
  then have "parse_terms (show_nat n @ u) 0 (show_nat n @ u) = Inr (n * k)"
    using assms(3) by (subst parse_terms.simps, simp, subst parse_terms.simps, simp)
  moreover have "c \<noteq> CHR ''-''" "c \<noteq> CHR ''+''" using c by (auto simp: is_digit_def)
  ultimately show ?thesis
    using assms(3) k(2) by (simp add: parseDuration_def Let_def ds)
qed

end
