(* ===== verification/Go_Flag.thy ===== *)
theory Go_Flag
  imports Go_Duration
begin

text \<open>
  The part of Go's \<^verbatim>\<open>flag\<close> package the commands use: string, boolean and duration flags, a flag set with \<^verbatim>\<open>ExitOnError\<close>, so that
  a parse either gives every flag a value or ends the process, with status 0 for a request for help and 2 for an
  error. Values are texts; a boolean flag has the text \<^verbatim>\<open>true\<close> or \<^verbatim>\<open>false\<close>, a duration flag one that
  \<^verbatim>\<open>time.ParseDuration\<close> accepts.
\<close>

datatype flag_kind = StringFlag | BoolFlag | DurationFlag

type_synonym flag_set = "(string \<times> flag_kind \<times> string) list"

datatype parsed_flags = Flags "string \<rightharpoonup> string" | FlagExit int

definition flag_defaults :: "flag_set \<Rightarrow> string \<rightharpoonup> string" where
  "flag_defaults fs = map_of (map (\<lambda>(n, k, v). (n, v)) fs)"

definition flag_kind_of :: "flag_set \<Rightarrow> string \<Rightarrow> flag_kind option" where
  "flag_kind_of fs n = map_option fst (map_of fs n)"

definition parse_bool :: "string \<Rightarrow> string option" where
  "parse_bool s =
     (if s \<in> {''1'', ''t'', ''T'', ''TRUE'', ''true'', ''True''} then Some ''true''
      else if s \<in> {''0'', ''f'', ''F'', ''FALSE'', ''false'', ''False''} then Some ''false'' else None)"

text \<open>The name of a flag and the value after an equals sign, which is not looked for at the first place.\<close>

definition split_flag :: "string \<Rightarrow> string \<times> string option" where
  "split_flag s =
     (let n = hd s # takeWhile (\<lambda>c. c \<noteq> CHR ''='') (tl s)
      in (n, if length n < length s then Some (drop (Suc (length n)) s) else None))"

definition strip_dashes :: "string \<Rightarrow> string" where
  "strip_dashes s = (if take 2 s = ''--'' then drop 2 s else drop 1 s)"

text \<open>The texts a flag that takes a value accepts.\<close>

definition accepts_value :: "flag_kind \<Rightarrow> string \<Rightarrow> bool" where
  "accepts_value kind v = (case kind of DurationFlag \<Rightarrow> (case parseDuration v of Inl err \<Rightarrow> False | Inr d \<Rightarrow> True) | _ \<Rightarrow> True)"

fun parse_flags :: "flag_set \<Rightarrow> string list \<Rightarrow> (string \<rightharpoonup> string) \<Rightarrow> parsed_flags" where
  "parse_flags fs [] vals = Flags vals"
| "parse_flags fs (s # args) vals =
     (if length s < 2 \<or> hd s \<noteq> CHR ''-'' \<or> s = ''--'' then Flags vals
      else
        (let body = strip_dashes s
         in if body = [] \<or> hd body = CHR ''-'' \<or> hd body = CHR ''='' then FlagExit 2
            else (case split_flag body of (name, value) \<Rightarrow>
              (case flag_kind_of fs name of
                 None \<Rightarrow> FlagExit (if name = ''help'' \<or> name = ''h'' then 0 else 2)
               | Some BoolFlag \<Rightarrow>
                   (case value of
                      None \<Rightarrow> parse_flags fs args (vals(name \<mapsto> ''true''))
                    | Some v \<Rightarrow>
                        (case parse_bool v of
                           None \<Rightarrow> FlagExit 2
                         | Some b \<Rightarrow> parse_flags fs args (vals(name \<mapsto> b))))
               | Some kind \<Rightarrow>
                   (case value of
                      Some v \<Rightarrow> if accepts_value kind v then parse_flags fs args (vals(name \<mapsto> v)) else FlagExit 2
                    | None \<Rightarrow>
                        (case args of
                           [] \<Rightarrow> FlagExit 2
                         | v # args' \<Rightarrow> if accepts_value kind v then parse_flags fs args' (vals(name \<mapsto> v)) else FlagExit 2))))))"

definition flag_Parse :: "flag_set \<Rightarrow> string list \<Rightarrow> parsed_flags" where
  "flag_Parse fs args = parse_flags fs args (flag_defaults fs)"

definition flag_value :: "(string \<rightharpoonup> string) \<Rightarrow> string \<Rightarrow> string" where
  "flag_value vals n = (case vals n of None \<Rightarrow> [] | Some v \<Rightarrow> v)"

definition flag_duration :: "(string \<rightharpoonup> string) \<Rightarrow> string \<Rightarrow> int" where
  "flag_duration vals n = (case parseDuration (flag_value vals n) of Inl err \<Rightarrow> 0 | Inr d \<Rightarrow> d)"

text \<open>A value given as an argument of its own is taken as it is, whatever it looks like.\<close>

lemma parse_value_flag:
  assumes "flag_kind_of fs n = Some kind" "kind \<noteq> BoolFlag" "n \<noteq> []" "hd n \<noteq> CHR ''-''" "hd n \<noteq> CHR ''=''" "CHR ''='' \<notin> set n"
  shows "parse_flags fs ((CHR ''-'' # n) # v # args) vals =
    (if accepts_value kind v then parse_flags fs args (vals(n \<mapsto> v)) else FlagExit 2)"
proof -
  obtain c m where n: "n = c # m" using assms(3) by (cases n) auto
  have m: "takeWhile (\<lambda>c. c \<noteq> CHR ''='') m = m" using assms(6) by (auto simp: n takeWhile_eq_all_conv)
  have "split_flag n = (n, None)" unfolding split_flag_def n list.sel m Let_def by simp
  moreover have "strip_dashes (CHR ''-'' # n) = n" using assms(4) by (simp add: strip_dashes_def n)
  ultimately show ?thesis using assms by (cases kind) (simp_all add: n)
qed

lemma parse_string_flag:
  assumes "flag_kind_of fs n = Some StringFlag" "n \<noteq> []" "hd n \<noteq> CHR ''-''" "hd n \<noteq> CHR ''=''" "CHR ''='' \<notin> set n"
  shows "parse_flags fs ((CHR ''-'' # n) # v # args) vals = parse_flags fs args (vals(n \<mapsto> v))"
  using parse_value_flag [OF assms(1) _ assms(2-5)] by (simp add: accepts_value_def)

end
