(* ===== verification/HD_PolicyCmd.thy ===== *)
theory HD_PolicyCmd
  imports HD_Bundles Go_Flag
begin

text \<open>
  \<^verbatim>\<open>cmd/helmdeep-gateway/policy_cmd.go\<close>: the commands that generate a key pair, sign a bundle and verify one, from their
  arguments to the files they write and the lines they print. The cryptographic and encoding libraries are fields of the record
  \<open>signing_lib\<close>; what the disk holds and does is in \<open>policy_env\<close>. Usage texts on standard error are not modelled.
\<close>

section \<open>The commands\<close>

record signing_lib =
  sl_join :: "string list \<Rightarrow> string"
  sl_sha256 :: "string \<Rightarrow> string"
  sl_sign :: "string \<Rightarrow> string \<Rightarrow> string"
  sl_public :: "string \<Rightarrow> string"
  sl_verify :: "string \<Rightarrow> string \<Rightarrow> string \<Rightarrow> bool"
  sl_pem_encode :: "string \<Rightarrow> string \<Rightarrow> string"
  sl_pem_decode :: "string \<Rightarrow> (string \<times> string) option"
  sl_marshal_pkcs8 :: "string \<Rightarrow> error + string"
  sl_parse_pkcs8 :: "string \<Rightarrow> error + parsed_key"
  sl_marshal_pkix :: "string \<Rightarrow> error + string"
  sl_parse_pkix :: "string \<Rightarrow> error + parsed_key"

datatype stat = Exists | NotExist | StatFails error

record policy_env =
  pe_stat :: "string \<Rightarrow> stat"
  pe_bundles :: bundles
  pe_now :: gotime
  pe_io :: "string \<Rightarrow> write_io"
  pe_generated :: "error + string \<times> string"

text \<open>A command ends the process or returns; it prints lines and leaves the files.\<close>

datatype exit = Exits int | Returns "error option"

type_synonym command = "files \<Rightarrow> exit \<times> string list \<times> files"

definition fails :: "error \<Rightarrow> command" where
  "fails err files = (Returns (Some err), [], files)"

definition with_flags :: "flag_set \<Rightarrow> string list \<Rightarrow> ((string \<Rightarrow> string) \<Rightarrow> command) \<Rightarrow> command" where
  "with_flags fs args f files =
     (case flag_Parse fs args of
        FlagExit status \<Rightarrow> (Exits status, [], files)
      | Flags vals \<Rightarrow> f (flag_value vals) files)"

definition GenerateKey :: "error + string \<times> string \<Rightarrow> error + string \<times> string" where
  "GenerateKey generated =
     (case generated of
        Inl err \<Rightarrow> Inl (''generate signing key: '' @ err)
      | Inr (pub, priv) \<Rightarrow> Inr (pub, priv))"

definition keygen_flags :: flag_set where
  "keygen_flags = [(''out-dir'', StringFlag, ''.'')]"

text \<open>The first of the paths at which there may be something to overwrite.\<close>

fun clobbers :: "(string \<Rightarrow> stat) \<Rightarrow> string list \<Rightarrow> error option" where
  "clobbers stat [] = None"
| "clobbers stat (path # paths) =
     (case stat path of
        Exists \<Rightarrow> Some (path @ '' already exists; refusing to overwrite an existing signing key'')
      | StatFails err \<Rightarrow> Some (''check '' @ path @ '': '' @ err)
      | NotExist \<Rightarrow> clobbers stat paths)"

definition keygen_to :: "signing_lib \<Rightarrow> policy_env \<Rightarrow> string \<Rightarrow> string \<Rightarrow> command" where
  "keygen_to lib env privPath pubPath files =
     (case clobbers (pe_stat env) [privPath, pubPath] of
        Some err \<Rightarrow> fails err files
      | None \<Rightarrow>
          (case GenerateKey (pe_generated env) of
             Inl err \<Rightarrow> fails err files
           | Inr (pub, priv) \<Rightarrow>
               (case WritePrivateKey (sl_marshal_pkcs8 lib) (sl_pem_encode lib) (pe_io env privPath) privPath priv files of
                  (Some err, files1) \<Rightarrow> fails err files1
                | (None, files1) \<Rightarrow>
                    (case WritePublicKey (sl_marshal_pkix lib) (sl_pem_encode lib) (pe_io env pubPath) pubPath pub files1 of
                       (Some err, files2) \<Rightarrow> fails err files2
                     | (None, files2) \<Rightarrow>
                         (Returns None,
                          [''wrote '' @ privPath @ '' (keep this secret) and '' @ pubPath, ''key id: '' @ KeyID (sl_sha256 lib) pub],
                          files2)))))"

definition runPolicyKeygen :: "signing_lib \<Rightarrow> policy_env \<Rightarrow> string list \<Rightarrow> command" where
  "runPolicyKeygen lib env args =
     with_flags keygen_flags args (\<lambda>v.
       keygen_to lib env (sl_join lib [v ''out-dir'', ''policy.key'']) (sl_join lib [v ''out-dir'', ''policy.pub'']))"

definition manifestPathOrDefault :: "signing_lib \<Rightarrow> string \<Rightarrow> string \<Rightarrow> string" where
  "manifestPathOrDefault lib manifest bundle =
     (if manifest \<noteq> [] then manifest else DefaultManifestPath (sl_join lib) bundle)"

definition report_line :: "string \<Rightarrow> string \<Rightarrow> Manifest \<Rightarrow> string \<Rightarrow> string" where
  "report_line what bundle m digest =
     what @ bundle @ '' version '' @ mf_Version m @ '' ('' @ show_nat (length (files_of m)) @ '' files, '' @ digest @ '')''"

definition sign_flags :: flag_set where
  "sign_flags = [(''bundle'', StringFlag, []), (''key'', StringFlag, []), (''version'', StringFlag, []), (''manifest'', StringFlag, [])]"

definition sign_bundle :: "signing_lib \<Rightarrow> policy_env \<Rightarrow> string \<Rightarrow> string \<Rightarrow> string \<Rightarrow> string \<Rightarrow> command" where
  "sign_bundle lib env bundle keyPath version manifest files =
     (if bundle = [] \<or> keyPath = [] \<or> version = [] then fails ''policy sign: -bundle, -key, and -version are all required'' files
      else (case ReadPrivateKey (sl_pem_decode lib) (sl_parse_pkcs8 lib) files keyPath of
         Inl err \<Rightarrow> fails err files
       | Inr key \<Rightarrow>
           (case Sign (sl_sha256 lib) (sl_sign lib) (sl_public lib) (pe_bundles env) (pe_now env) bundle version key of
              Inl err \<Rightarrow> fails err files
            | Inr m \<Rightarrow>
                (let path = manifestPathOrDefault lib manifest bundle
                 in case WriteManifest (pe_io env path) path m files of
                      (Some err, files1) \<Rightarrow> fails err files1
                    | (None, files1) \<Rightarrow>
                        (case Manifest_Digest (sl_sha256 lib) m of
                           Inl err \<Rightarrow> fails err files1
                         | Inr digest \<Rightarrow> (Returns None, [report_line ''signed bundle '' bundle m digest, ''manifest: '' @ path], files1))))))"

definition runPolicySign :: "signing_lib \<Rightarrow> policy_env \<Rightarrow> string list \<Rightarrow> command" where
  "runPolicySign lib env args =
     with_flags sign_flags args (\<lambda>v. sign_bundle lib env (v ''bundle'') (v ''key'') (v ''version'') (v ''manifest''))"

definition verify_flags :: flag_set where
  "verify_flags = [(''bundle'', StringFlag, []), (''public-key'', StringFlag, []), (''manifest'', StringFlag, [])]"

definition verify_bundle :: "signing_lib \<Rightarrow> policy_env \<Rightarrow> string \<Rightarrow> string \<Rightarrow> string \<Rightarrow> command" where
  "verify_bundle lib env bundle pubPath manifest files =
     (if bundle = [] \<or> pubPath = [] then fails ''policy verify: -bundle and -public-key are both required'' files
      else (case ReadPublicKey (sl_pem_decode lib) (sl_parse_pkix lib) files pubPath of
         Inl err \<Rightarrow> fails err files
       | Inr pub \<Rightarrow>
           (let path = manifestPathOrDefault lib manifest bundle
            in case ReadManifest files path of
                 Inl err \<Rightarrow> fails err files
               | Inr m \<Rightarrow>
                   (case bundle_Verify (sl_sha256 lib) (sl_verify lib) (pe_bundles env) bundle m pub of
                      Some err \<Rightarrow> fails (''bundle '' @ bundle @ '' does not match '' @ path @ '': '' @ err) files
                    | None \<Rightarrow>
                        (case Manifest_Digest (sl_sha256 lib) m of
                           Inl err \<Rightarrow> fails err files
                         | Inr digest \<Rightarrow> (Returns None, [report_line ''bundle intact: '' bundle m digest], files))))))"

definition runPolicyVerify :: "signing_lib \<Rightarrow> policy_env \<Rightarrow> string list \<Rightarrow> command" where
  "runPolicyVerify lib env args =
     with_flags verify_flags args (\<lambda>v. verify_bundle lib env (v ''bundle'') (v ''public-key'') (v ''manifest''))"

definition runPolicy :: "signing_lib \<Rightarrow> policy_env \<Rightarrow> string list \<Rightarrow> command" where
  "runPolicy lib env args =
     (case args of
        [] \<Rightarrow> fails ''policy: a subcommand is required''
      | sub # rest \<Rightarrow>
          if sub = ''keygen'' then runPolicyKeygen lib env rest
          else if sub = ''sign'' then runPolicySign lib env rest
          else if sub = ''verify'' then runPolicyVerify lib env rest
          else fails (''policy: unknown subcommand '' @ quoteq sub))"

section \<open>From a key to a verified bundle\<close>

text \<open>What is relied on of PEM and X.509, for the two halves of one key pair: what was encoded is decoded.\<close>

definition codecs_ok :: "signing_lib \<Rightarrow> string \<Rightarrow> string \<Rightarrow> bool" where
  "codecs_ok lib pub key \<longleftrightarrow>
     (\<forall>d. sl_marshal_pkcs8 lib key = Inr d \<longrightarrow>
        sl_pem_decode lib (sl_pem_encode lib ''PRIVATE KEY'' d) = Some (''PRIVATE KEY'', d) \<and> sl_parse_pkcs8 lib d = Inr (Ed25519Key key)) \<and>
     (\<forall>d. sl_marshal_pkix lib pub = Inr d \<longrightarrow>
        sl_pem_decode lib (sl_pem_encode lib ''PUBLIC KEY'' d) = Some (''PUBLIC KEY'', d) \<and> sl_parse_pkix lib d = Inr (Ed25519Key pub))"

lemma WriteFile_None: "WriteFile io path content files = (None, files') \<Longrightarrow> io = WriteOK \<and> files' = files(path := Inr content)"
  by (cases io) (auto simp: WriteFile_def)

lemma write_key_None:
  assumes "write_key marshal enc t what io path key files = (None, files')"
  obtains der where "marshal key = Inr der" "files' = files(path := Inr (enc t der))"
  using assms by (auto simp: write_key_def dest!: WriteFile_None split: sum.splits prod.splits option.splits)

lemma WriteManifest_None:
  assumes "WriteManifest io path m files = (None, files')"
  shows "io = WriteOK \<and> (\<exists>c. files' = files(path := Inr c))"
  using assms by (auto simp: WriteManifest_def dest!: WriteFile_None split: prod.splits option.splits)

lemma read_key_written:
  assumes "files path = Inr (enc t der)" "dec (enc t der) = Some (t, der)" "parse der = Inr (Ed25519Key k)"
  shows "read_key dec parse t what files path = Inr k"
  using assms by (simp add: read_key_def readPEM_def)

lemma string_flag:
  "flag_kind_of fs n = Some StringFlag \<Longrightarrow> n \<noteq> [] \<and> hd n \<noteq> CHR ''-'' \<and> hd n \<noteq> CHR ''='' \<and> CHR ''='' \<notin> set n \<Longrightarrow>
     parse_flags fs ((CHR ''-'' # n) # v # args) vals = parse_flags fs args (vals(n \<mapsto> v))"
  using parse_string_flag by blast

lemma policy_commands:
  "runPolicy lib env [''keygen'', ''-out-dir'', d] =
     keygen_to lib env (sl_join lib [d, ''policy.key'']) (sl_join lib [d, ''policy.pub''])"
  "runPolicy lib env [''sign'', ''-bundle'', b, ''-key'', k, ''-version'', v] = sign_bundle lib env b k v []"
  "runPolicy lib env [''verify'', ''-bundle'', b, ''-public-key'', k] = verify_bundle lib env b k []"
  by (simp_all add: fun_eq_iff runPolicy_def runPolicyKeygen_def runPolicySign_def runPolicyVerify_def with_flags_def flag_Parse_def
      string_flag flag_kind_of_def keygen_flags_def sign_flags_def verify_flags_def flag_defaults_def flag_value_def
      del: parse_flags.simps(2))

text \<open>Nothing is overwritten by \<^verbatim>\<open>keygen\<close> unless both paths are known to be free.\<close>

lemma keygen_never_overwrites:
  assumes "pe_stat env privPath \<noteq> NotExist \<or> pe_stat env pubPath \<noteq> NotExist"
  shows "\<exists>err. keygen_to lib env privPath pubPath files = (Returns (Some err), [], files)"
  using assms by (auto simp: keygen_to_def fails_def split: stat.split)

lemma keygen_success:
  assumes "codecs_ok lib pub key" "pe_generated env = Inr (pub, key)" "privPath \<noteq> pubPath"
    and "keygen_to lib env privPath pubPath files = (Returns None, out, files')"
  shows "ReadPrivateKey (sl_pem_decode lib) (sl_parse_pkcs8 lib) files' privPath = Inr key \<and>
    (\<exists>der. sl_marshal_pkix lib pub = Inr der \<and> files' pubPath = Inr (sl_pem_encode lib ''PUBLIC KEY'' der))"
proof -
  obtain files1 where w: "write_key (sl_marshal_pkcs8 lib) (sl_pem_encode lib) ''PRIVATE KEY'' ''private key'' (pe_io env privPath)
      privPath key files = (None, files1)"
    "write_key (sl_marshal_pkix lib) (sl_pem_encode lib) ''PUBLIC KEY'' ''public key'' (pe_io env pubPath) pubPath pub files1 = (None, files')"
    using assms(2,4)
    by (auto simp: keygen_to_def fails_def GenerateKey_def WritePrivateKey_def WritePublicKey_def split: option.splits prod.splits stat.splits)
  obtain der1 der2 where d: "sl_marshal_pkcs8 lib key = Inr der1" "files1 = files(privPath := Inr (sl_pem_encode lib ''PRIVATE KEY'' der1))"
    "sl_marshal_pkix lib pub = Inr der2" "files' = files1(pubPath := Inr (sl_pem_encode lib ''PUBLIC KEY'' der2))"
    using write_key_None [OF w(1)] write_key_None [OF w(2)] by metis
  have "files' privPath = Inr (sl_pem_encode lib ''PRIVATE KEY'' der1)" using assms(3) d by simp
  then have "ReadPrivateKey (sl_pem_decode lib) (sl_parse_pkcs8 lib) files' privPath = Inr key"
    unfolding ReadPrivateKey_def by (rule read_key_written) (use assms(1) d(1) in \<open>auto simp: codecs_ok_def\<close>)
  then show ?thesis using d(3,4) by auto
qed

lemma sign_success:
  assumes "sign_bundle lib env b k v [] files = (Returns None, out, files')"
  obtains key m digest where
    "ReadPrivateKey (sl_pem_decode lib) (sl_parse_pkcs8 lib) files k = Inr key"
    "Sign (sl_sha256 lib) (sl_sign lib) (sl_public lib) (pe_bundles env) (pe_now env) b v key = Inr m"
    "WriteManifest WriteOK (DefaultManifestPath (sl_join lib) b) m files = (None, files')"
    "\<exists>c. files' = files(DefaultManifestPath (sl_join lib) b := Inr c)"
    "Manifest_Digest (sl_sha256 lib) m = Inr digest" "b \<noteq> []"
    "out = [report_line ''signed bundle '' b m digest, ''manifest: '' @ DefaultManifestPath (sl_join lib) b]"
  using assms WriteManifest_None
  by (fastforce simp: sign_bundle_def fails_def manifestPathOrDefault_def Let_def split: if_splits sum.splits option.splits prod.splits)

text \<open>C18. The commands fit together: after a successful \<^verbatim>\<open>keygen\<close> and a successful \<^verbatim>\<open>sign\<close> of a bundle with the key it wrote,
  \<^verbatim>\<open>verify\<close> of the unchanged bundle with the public key it wrote succeeds, changes nothing, and reports the version that was
  asked for, the same number of files and the same digest as \<^verbatim>\<open>sign\<close> did.\<close>

theorem policy_workflow:
  assumes lib: "codecs_ok lib (sl_public lib key) key" "ed25519_pair (sl_sign lib) (sl_verify lib) key (sl_public lib key)"
    and keygen: "runPolicy lib env0 [''keygen'', ''-out-dir'', d] files0 = (Returns None, out0, files1)"
      "pe_generated env0 = Inr (sl_public lib key, key)"
    and sign: "runPolicy lib env1 [''sign'', ''-bundle'', b, ''-key'', sl_join lib [d, ''policy.key''], ''-version'', v] files1 =
      (Returns None, out1, files2)"
    and disk: "bundle_ok (pe_bundles env1) b" "utf8 v" "list_all (\<lambda>e. utf8 (fst e)) (bundle_contents (pe_bundles env1) b)"
      "pe_bundles env2 = pe_bundles env1"
    and paths: "distinct [sl_join lib [d, ''policy.key''], sl_join lib [d, ''policy.pub''], DefaultManifestPath (sl_join lib) b]"
      "sl_join lib [d, ''policy.pub''] \<noteq> []"
  shows "\<exists>m digest. mf_Version m = v \<and> hd out1 = report_line ''signed bundle '' b m digest \<and>
    runPolicy lib env2 [''verify'', ''-bundle'', b, ''-public-key'', sl_join lib [d, ''policy.pub'']] files2 =
      (Returns None, [report_line ''bundle intact: '' b m digest], files2)"
proof -
  let ?pub = "sl_join lib [d, ''policy.pub'']" and ?m = "DefaultManifestPath (sl_join lib) b"
  have kg: "ReadPrivateKey (sl_pem_decode lib) (sl_parse_pkcs8 lib) files1 (sl_join lib [d, ''policy.key'']) = Inr key"
    "\<exists>der. sl_marshal_pkix lib (sl_public lib key) = Inr der \<and> files1 ?pub = Inr (sl_pem_encode lib ''PUBLIC KEY'' der)"
    using keygen_success [OF lib(1) keygen(2) _ keygen(1) [unfolded policy_commands]] paths(1) by auto
  obtain m digest where s:
    "Sign (sl_sha256 lib) (sl_sign lib) (sl_public lib) (pe_bundles env1) (pe_now env1) b v key = Inr m"
    "WriteManifest WriteOK ?m m files1 = (None, files2)" "\<exists>c. files2 = files1(?m := Inr c)"
    "Manifest_Digest (sl_sha256 lib) m = Inr digest" "b \<noteq> []" "hd out1 = report_line ''signed bundle '' b m digest"
    using sign_success [OF sign [unfolded policy_commands]] kg(1) by (metis Inr_inject list.sel(1))
  obtain der where der: "sl_marshal_pkix lib (sl_public lib key) = Inr der"
    "files2 ?pub = Inr (sl_pem_encode lib ''PUBLIC KEY'' der)"
    using kg(2) s(3) paths(1) by auto
  have "ReadPublicKey (sl_pem_decode lib) (sl_parse_pkix lib) files2 ?pub = Inr (sl_public lib key)"
    unfolding ReadPublicKey_def by (rule read_key_written [where enc = "sl_pem_encode lib"]) (use lib(1) der in \<open>auto simp: codecs_ok_def\<close>)
  moreover have "ReadManifest files2 ?m = Inr m"
    by (rule ReadManifest_WriteManifest [OF s(2) Sign_utf8 [OF s(1) disk(2,3)]])
  moreover have "bundle_Verify (sl_sha256 lib) (sl_verify lib) (pe_bundles env2) b m (sl_public lib key) = None"
    unfolding disk(4) by (rule Sign_verifies [OF s(1) disk(1) lib(2)])
  moreover have "mf_Version m = v" using Sign_Inr [OF s(1)] by (metis Manifest.select_convs(1))
  ultimately show ?thesis
    using s(4-6) paths(2) by (auto simp: policy_commands verify_bundle_def manifestPathOrDefault_def Let_def)
qed

text \<open>The example of \<open>HD_Bundles\<close> with a PEM encoding that writes the type on a line of its own.\<close>

definition example_lib :: signing_lib where
  "example_lib =
     \<lparr>sl_join = (\<lambda>ps. hd ps @ ''/'' @ last ps), sl_sha256 = example_sha, sl_sign = example_sign, sl_public = take 32, sl_verify = example_verify,
      sl_pem_encode = (\<lambda>t d. t @ CHR 10 # d),
      sl_pem_decode = (\<lambda>s. if s = [] then None else Some (takeWhile (\<lambda>c. c \<noteq> CHR 10) s, tl (dropWhile (\<lambda>c. c \<noteq> CHR 10) s))),
      sl_marshal_pkcs8 = Inr, sl_parse_pkcs8 = (\<lambda>d. Inr (Ed25519Key d)), sl_marshal_pkix = Inr, sl_parse_pkix = (\<lambda>d. Inr (Ed25519Key d))\<rparr>"

definition example_env :: policy_env where
  "example_env = \<lparr>pe_stat = (\<lambda>_. NotExist), pe_bundles = example_disk, pe_now = time_zero, pe_io = (\<lambda>_. WriteOK),
     pe_generated = Inr (take 32 example_key, example_key)\<rparr>"

lemma example_lib_sel:
  "sl_sha256 example_lib = example_sha" "sl_sign example_lib = example_sign" "sl_public example_lib = take 32"
  "sl_join example_lib ps \<noteq> []"
  by (simp_all add: example_lib_def)

lemma example_codecs: "codecs_ok example_lib pub key"
  by (auto simp: codecs_ok_def example_lib_def)

lemma example_keygen:
  "\<exists>files1. runPolicy example_lib example_env [''keygen'', ''-out-dir'', ''keys''] files =
     (Returns None, [''wrote keys/policy.key (keep this secret) and keys/policy.pub'', ''key id: '' @ KeyID example_sha (take 32 example_key)], files1)"
  by (simp add: policy_commands keygen_to_def example_env_def example_lib_def GenerateKey_def WritePrivateKey_def WritePublicKey_def
      write_key_def WriteFile_def)

lemma example_sign_command:
  assumes "runPolicy example_lib example_env [''keygen'', ''-out-dir'', ''keys''] files = (Returns None, out0, files1)"
  shows "\<exists>out1 files2. runPolicy example_lib example_env
    [''sign'', ''-bundle'', ''policies'', ''-key'', sl_join example_lib [''keys'', ''policy.key''], ''-version'', ''v1''] files1 =
      (Returns None, out1, files2)"
proof -
  have "ReadPrivateKey (sl_pem_decode example_lib) (sl_parse_pkcs8 example_lib) files1 (sl_join example_lib [''keys'', ''policy.key'']) =
      Inr example_key"
    using keygen_success [OF example_codecs _ _ assms [unfolded policy_commands], of "take 32 example_key" example_key]
    by (simp add: example_env_def example_lib_def)
  moreover obtain m where "example_Sign ''v1'' = Inr m" using example_Sign_Inr [of "''v1''"] by auto
  moreover obtain files2 where "WriteManifest WriteOK (DefaultManifestPath (sl_join example_lib) ''policies'') m files1 = (None, files2)"
    using example_write [OF calculation(2)] by blast
  moreover obtain digest where "Manifest_Digest example_sha m = Inr digest" using Sign_digest [OF calculation(2)] .
  ultimately show ?thesis
    by (simp add: policy_commands sign_bundle_def example_env_def manifestPathOrDefault_def Let_def example_lib_sel)
qed

theorem policy_workflow_witness:
  "\<exists>m digest files2. mf_Version m = ''v1'' \<and>
    runPolicy example_lib example_env [''verify'', ''-bundle'', ''policies'', ''-public-key'', ''keys/policy.pub''] files2 =
      (Returns None, [report_line ''bundle intact: '' ''policies'' m digest], files2)"
proof -
  obtain out0 files1 where k: "runPolicy example_lib example_env [''keygen'', ''-out-dir'', ''keys''] (\<lambda>_. Inl ''none'') = (Returns None, out0, files1)"
    using example_keygen by blast
  obtain out1 files2 where s: "runPolicy example_lib example_env
    [''sign'', ''-bundle'', ''policies'', ''-key'', sl_join example_lib [''keys'', ''policy.key''], ''-version'', ''v1''] files1 =
      (Returns None, out1, files2)"
    using example_sign_command [OF k] by blast
  have pair: "ed25519_pair (sl_sign example_lib) (sl_verify example_lib) example_key (sl_public example_lib example_key)"
    using example_pair by (simp add: example_lib_def)
  have disk: "bundle_ok (pe_bundles example_env) ''policies''" "utf8 ''v1''"
    "list_all (\<lambda>e. utf8 (fst e)) (bundle_contents (pe_bundles example_env) ''policies'')"
    by (simp_all add: example_env_def example_contents coerce_ascii byte_in_def) (simp add: bundle_ok_def example_disk_def)
  have join: "sl_join example_lib [''keys'', ''policy.pub''] = ''keys/policy.pub''" by (simp add: example_lib_def)
  have "\<exists>m digest. mf_Version m = ''v1'' \<and> hd out1 = report_line ''signed bundle '' ''policies'' m digest \<and>
    runPolicy example_lib example_env [''verify'', ''-bundle'', ''policies'', ''-public-key'', sl_join example_lib [''keys'', ''policy.pub'']] files2 =
      (Returns None, [report_line ''bundle intact: '' ''policies'' m digest], files2)"
    by (rule policy_workflow [OF example_codecs pair k _ s disk refl])
      (simp_all add: example_env_def example_lib_def DefaultManifestPath_def)
  then show ?thesis unfolding join by blast
qed

end
