(* ===== verification/HD_ModelGW.thy ===== *)
theory HD_ModelGW
  imports HD_Client HD_Registries
begin

text \<open>
  \<^verbatim>\<open>pkg/modelgw\<close>: policy-gated, audited calls of model providers (\<^verbatim>\<open>modelgw.go\<close>), and the two providers
  (\<^verbatim>\<open>anthropic.go\<close>, \<^verbatim>\<open>azureopenai.go\<close>) on the bytes they send and receive. The decision point, the audit log, the
  clock and the providers of a \<^verbatim>\<open>Gateway\<close> are operations of the world. Providers reach their backend
  through the argument \<open>send\<close>, as the upstream client does.

  What a call does to the outside is written down by a gateway whose dependencies are wrapped
  (\<open>traced_models\<close>); every trace is one of the scripts of the inductive relation \<open>completion\<close>, from
  which the safety properties are read off.
\<close>

section \<open>Requests and responses\<close>

record Message =
  msg_Role :: string
  msg_Content :: string

text \<open>A float64 by the literal \<^verbatim>\<open>encoding/json\<close> writes for it, or a value it refuses to write.\<close>

datatype float64 = Finite string | NotFinite string

record ModelRequest =
  mr_Purpose :: string
  mr_Messages :: "Message list"
  mr_MaxTokens :: int
  mr_Temperature :: float64

record TokenUsage =
  tu_PromptTokens :: int
  tu_CompletionTokens :: int

record ModelResponse =
  mp_Provider :: string
  mp_Model :: string
  mp_Content :: string
  mp_Usage :: TokenUsage
  mp_FallbackFrom :: string

definition zero_ModelResponse :: ModelResponse where
  "zero_ModelResponse =
     \<lparr>mp_Provider = [], mp_Model = [], mp_Content = [], mp_Usage = \<lparr>tu_PromptTokens = 0, tu_CompletionTokens = 0\<rparr>, mp_FallbackFrom = []\<rparr>"

record 'w Provider =
  pv_Name :: string
  pv_Complete :: "string \<Rightarrow> ModelRequest \<Rightarrow> ('w, error + ModelResponse) state"

record Route =
  rt_Provider :: string
  rt_Model :: string
  rt_FallbackProvider :: string
  rt_FallbackModel :: string

record 'w ModelGateway =
  mg_providers :: "string \<rightharpoonup> 'w Provider"
  mg_routes :: "string \<rightharpoonup> Route"
  mg_pdp :: "DecisionRequest \<Rightarrow> ('w, error + DecisionResponse) state"
  mg_auditLog :: "ActionRecord \<Rightarrow> ('w, error option) state"
  mg_catalog :: ModelCatalog
  mg_now :: "('w, gotime) state"

section \<open>\<^verbatim>\<open>New\<close>\<close>

definition validateModelVersion :: "string \<Rightarrow> string \<Rightarrow> string \<Rightarrow> error option" where
  "validateModelVersion purpose field model =
     (if model = [] then Some (''route '' @ quoteq purpose @ '': '' @ field @ '' is required'')
      else if model = ''latest'' then
        Some (''route '' @ quoteq purpose @ '': '' @ field @ '' is '' @ quoteq model @ '' '' @ [CHR 0xE2, CHR 0x80, CHR 0x94] @
              '' doc 07 '' @ [CHR 0xC2, CHR 0xA7] @ ''3.1 bans provider aliases; pin an explicit version'')
      else None)"

definition route_error :: "(string \<rightharpoonup> 'w Provider) \<Rightarrow> string \<Rightarrow> Route \<Rightarrow> error option" where
  "route_error providers purpose r =
     (if rt_Provider r = [] then Some (''route '' @ quoteq purpose @ '': provider is required'')
      else if providers (rt_Provider r) = None then
        Some (''route '' @ quoteq purpose @ '': provider '' @ quoteq (rt_Provider r) @ '' is not configured'')
      else (case validateModelVersion purpose ''model'' (rt_Model r) of
         Some err \<Rightarrow> Some err
       | None \<Rightarrow>
           if rt_FallbackProvider r = [] then None
           else if providers (rt_FallbackProvider r) = None then
             Some (''route '' @ quoteq purpose @ '': fallback provider '' @ quoteq (rt_FallbackProvider r) @ '' is not configured'')
           else validateModelVersion purpose ''fallback_model'' (rt_FallbackModel r)))"

text \<open>The routes come in the order in which the loop over the map meets them.\<close>

fun routes_error :: "(string \<rightharpoonup> 'w Provider) \<Rightarrow> (string \<times> Route) list \<Rightarrow> error option" where
  "routes_error providers [] = None"
| "routes_error providers ((purpose, r) # routes) =
     (case route_error providers purpose r of
        Some err \<Rightarrow> Some err
      | None \<Rightarrow> routes_error providers routes)"

definition modelgw_New ::
  "(string \<rightharpoonup> 'w Provider) \<Rightarrow> (string \<times> Route) list \<Rightarrow> (DecisionRequest \<Rightarrow> ('w, error + DecisionResponse) state) \<Rightarrow>
     (ActionRecord \<Rightarrow> ('w, error option) state) \<Rightarrow> ModelCatalog \<Rightarrow> ('w, gotime) state \<Rightarrow> error + 'w ModelGateway" where
  "modelgw_New providers routes pdp auditLog cat now =
     (case routes_error providers routes of
        Some err \<Rightarrow> Inl err
      | None \<Rightarrow> Inr \<lparr>mg_providers = providers, mg_routes = map_of routes, mg_pdp = pdp, mg_auditLog = auditLog,
          mg_catalog = cat, mg_now = now\<rparr>)"

section \<open>\<^verbatim>\<open>Complete\<close>\<close>

text \<open>\<^verbatim>\<open>ErrDenied\<close>, or the error of a call that was allowed.\<close>

datatype model_error = ErrDenied string string | CallError error

definition approved :: "'w ModelGateway \<Rightarrow> string \<Rightarrow> string \<Rightarrow> bool" where
  "approved g provider model =
     (case modelcatalog_Lookup (mg_catalog g) provider model of None \<Rightarrow> False | Some entry \<Rightarrow> me_Approved entry)"

definition model_action :: "ModelRequest \<Rightarrow> Action" where
  "model_action req = zero_Action\<lparr>act_Type := ''model_call'', act_Tool := mr_Purpose req\<rparr>"

definition model_record :: "gotime \<Rightarrow> Subject \<Rightarrow> Action \<Rightarrow> DecisionResponse \<Rightarrow> string \<Rightarrow> ActionRecord" where
  "model_record now subject action decision outcome =
     zero_ActionRecord\<lparr>rec_Timestamp := now, rec_Subject := subject, rec_Action := action,
       rec_Decision := decision, rec_Outcome := outcome\<rparr>"

definition model_deny_decision :: "string \<Rightarrow> string \<Rightarrow> DecisionResponse" where
  "model_deny_decision policyID reason =
     zero_DecisionResponse\<lparr>dr_Outcome := OutcomeDeny, dr_PolicyID := policyID, dr_Reason := reason\<rparr>"

definition model_denyf ::
  "'w ModelGateway \<Rightarrow> Subject \<Rightarrow> ModelRequest \<Rightarrow> gotime \<Rightarrow> string \<Rightarrow> string \<Rightarrow> ('w, model_error + ModelResponse) state" where
  "model_denyf g subject req now policyID reason =
     do {
       _ \<leftarrow> mg_auditLog g (model_record now subject (model_action req) (model_deny_decision policyID reason) RecordOutcomeDenied);
       State_Monad.return (Inl (ErrDenied policyID reason))
     }"

definition outcomeAction :: "Action \<Rightarrow> ModelResponse \<Rightarrow> Action" where
  "outcomeAction action resp =
     (if mp_Provider resp = [] then action
      else action\<lparr>act_Resource := mp_Provider resp @ ''/'' @ mp_Model resp @
             (if mp_FallbackFrom resp = [] then [] else '' (fallback from '' @ mp_FallbackFrom resp @ '')'')\<rparr>)"

text \<open>
  \<^verbatim>\<open>Gateway.call\<close>. A provider that is not configured is a nil interface, whose call would panic; \<open>New\<close> has
  checked that every route's providers are there, and the model answers with an error instead.
\<close>

definition provider_call :: "'w ModelGateway \<Rightarrow> string \<Rightarrow> string \<Rightarrow> ModelRequest \<Rightarrow> ('w, error + ModelResponse) state" where
  "provider_call g provider model req =
     (case mg_providers g provider of
        None \<Rightarrow> State_Monad.return (Inl ''nil provider'')
      | Some p \<Rightarrow> pv_Complete p model req)"

definition primary_failed :: "Route \<Rightarrow> error \<Rightarrow> error" where
  "primary_failed route err = ''provider '' @ quoteq (rt_Provider route) @ '' failed and no fallback is configured: '' @ err"

definition fallback_unapproved :: "Route \<Rightarrow> error \<Rightarrow> error" where
  "fallback_unapproved route err =
     ''provider '' @ quoteq (rt_Provider route) @ '' failed ('' @ err @ ''), and fallback provider '' @
     quoteq (rt_FallbackProvider route) @ '' model '' @ quoteq (rt_FallbackModel route) @ '' is not an approved Model Catalog entry''"

definition fallback_failed :: "Route \<Rightarrow> error \<Rightarrow> error \<Rightarrow> error" where
  "fallback_failed route err fbErr =
     ''provider '' @ quoteq (rt_Provider route) @ '' failed ('' @ err @ ''), and fallback provider '' @
     quoteq (rt_FallbackProvider route) @ '' also failed: '' @ fbErr"

definition modelgw_call :: "'w ModelGateway \<Rightarrow> Route \<Rightarrow> ModelRequest \<Rightarrow> ('w, error + ModelResponse) state" where
  "modelgw_call g route req =
     do {
       r \<leftarrow> provider_call g (rt_Provider route) (rt_Model route) req;
       case r of
         Inr resp \<Rightarrow> State_Monad.return (Inr resp)
       | Inl err \<Rightarrow>
           if rt_FallbackProvider route = [] then State_Monad.return (Inl (primary_failed route err))
           else if \<not> approved g (rt_FallbackProvider route) (rt_FallbackModel route) then
             State_Monad.return (Inl (fallback_unapproved route err))
           else do {
             r' \<leftarrow> provider_call g (rt_FallbackProvider route) (rt_FallbackModel route) req;
             State_Monad.return (case r' of
                 Inl fbErr \<Rightarrow> Inl (fallback_failed route err fbErr)
               | Inr resp \<Rightarrow> Inr (resp\<lparr>mp_FallbackFrom := rt_Provider route\<rparr>))
           }
     }"

definition model_decision_request :: "Subject \<Rightarrow> ModelRequest \<Rightarrow> gotime \<Rightarrow> DecisionRequest" where
  "model_decision_request subject req now =
     \<lparr>req_Subject = subject, req_Action = model_action req,
      req_Context = \<lparr>ctx_SessionID = [], ctx_RequestID = [], ctx_Time = now,
        ctx_Usage = \<lparr>us_CallsInWindow = 0, us_WindowSeconds = 0, us_CumulativeCostUSD = ''0'', us_SessionBudgetUSD = ''0''\<rparr>\<rparr>\<rparr>"

definition model_allowed :: "DecisionResponse \<Rightarrow> bool" where
  "model_allowed decision \<longleftrightarrow> dr_Outcome decision = OutcomeAllow \<or> dr_Outcome decision = OutcomeAllowWithObligations"

definition unapproved_reason :: "Route \<Rightarrow> string" where
  "unapproved_reason route =
     ''provider '' @ quoteq (rt_Provider route) @ '' model '' @ quoteq (rt_Model route) @ '' is not an approved Model Catalog entry''"

definition model_denial_reason :: "DecisionResponse \<Rightarrow> string" where
  "model_denial_reason decision = (if dr_Reason decision = [] then ''denied by policy'' else dr_Reason decision)"

definition unrecorded_reason :: "error \<Rightarrow> string" where
  "unrecorded_reason err = ''could not durably record this decision, denying: '' @ err"

definition finish_call ::
  "'w ModelGateway \<Rightarrow> Subject \<Rightarrow> ModelRequest \<Rightarrow> DecisionResponse \<Rightarrow> error + ModelResponse \<Rightarrow> ('w, model_error + ModelResponse) state" where
  "finish_call g subject req decision r =
     do {
       now \<leftarrow> mg_now g;
       _ \<leftarrow> mg_auditLog g (case r of
           Inl e \<Rightarrow> model_record now subject (outcomeAction (model_action req) zero_ModelResponse) decision RecordOutcomeFailed
         | Inr resp \<Rightarrow> model_record now subject (outcomeAction (model_action req) resp) decision RecordOutcomeAllowed);
       State_Monad.return (case r of Inl e \<Rightarrow> Inl (CallError e) | Inr resp \<Rightarrow> Inr resp)
     }"

definition modelgw_Complete :: "'w ModelGateway \<Rightarrow> Subject \<Rightarrow> ModelRequest \<Rightarrow> ('w, model_error + ModelResponse) state" where
  "modelgw_Complete g subject req =
     do {
       now \<leftarrow> mg_now g;
       case mg_routes g (mr_Purpose req) of
         None \<Rightarrow> model_denyf g subject req now ''modelgw.no_route'' (''no route configured for purpose '' @ quoteq (mr_Purpose req))
       | Some route \<Rightarrow>
           if \<not> approved g (rt_Provider route) (rt_Model route) then
             model_denyf g subject req now ''modelcatalog.unapproved'' (unapproved_reason route)
           else do {
             r \<leftarrow> mg_pdp g (model_decision_request subject req now);
             case r of
               Inl err \<Rightarrow> model_denyf g subject req now ''modelgw.pdp_error'' err
             | Inr decision \<Rightarrow>
                 if \<not> model_allowed decision then
                   do {
                     _ \<leftarrow> mg_auditLog g (model_record now subject (model_action req) decision RecordOutcomeDenied);
                     State_Monad.return (Inl (ErrDenied (dr_PolicyID decision) (model_denial_reason decision)))
                   }
                 else do {
                   w \<leftarrow> mg_auditLog g (model_record now subject (model_action req) decision RecordOutcomeAllowed);
                   case w of
                     Some err \<Rightarrow>
                       State_Monad.return (Inl (ErrDenied ''modelgw.audit_unavailable'' (unrecorded_reason err)))
                   | None \<Rightarrow>
                       do {
                         res \<leftarrow> modelgw_call g route req;
                         finish_call g subject req decision res
                       }
                 }
           }
     }"

section \<open>The providers\<close>

definition ensureTrailingSlash :: "string \<Rightarrow> string" where
  "ensureTrailingSlash s = (if s \<noteq> [] \<and> last s \<noteq> CHR ''/'' then s @ ''/'' else s)"

definition json_of_message :: "Message \<Rightarrow> json" where
  "json_of_message m = JObj [(''role'', JStr (msg_Role m)), (''content'', JStr (msg_Content m))]"

text \<open>The member \<^verbatim>\<open>temperature,omitempty\<close>, or the value that cannot be written.\<close>

definition temperature_member :: "float64 \<Rightarrow> error + (string \<times> json) list" where
  "temperature_member t =
     (case t of
        NotFinite v \<Rightarrow> Inl (''json: unsupported value: '' @ v)
      | Finite l \<Rightarrow> Inr (if l = ''0'' \<or> l = ''-0'' then [] else [(''temperature'', JNum l)]))"

record api_error =
  er_Message :: string

definition api_error_fields :: "api_error field list" where
  "api_error_fields = [(''message'', dec_str (\<lambda>x. er_Message_update (\<lambda>_. x)))]"

definition token_fields :: "string \<Rightarrow> string \<Rightarrow> TokenUsage field list" where
  "token_fields prompt completed =
     [(prompt, dec_int (\<lambda>x. tu_PromptTokens_update (\<lambda>_. x))), (completed, dec_int (\<lambda>x. tu_CompletionTokens_update (\<lambda>_. x)))]"

subsection \<open>\<^verbatim>\<open>anthropic.go\<close>\<close>

record AnthropicProvider =
  ap_APIKey :: string
  ap_WorkspaceID :: string
  ap_BaseURL :: string

definition DefaultAnthropicBaseURL :: string where "DefaultAnthropicBaseURL = ''https://api.anthropic.com''"
definition AnthropicAPIVersion :: string where "AnthropicAPIVersion = ''2023-06-01''"

fun anthropic_split :: "Message list \<Rightarrow> string \<Rightarrow> Message list \<Rightarrow> string \<times> Message list" where
  "anthropic_split [] system messages = (system, messages)"
| "anthropic_split (m # ms) system messages =
     (if msg_Role m = ''system'' then
        anthropic_split ms ((if system \<noteq> [] then system @ [CHR 10, CHR 10] else system) @ msg_Content m) messages
      else anthropic_split ms system (messages @ [m]))"

definition anthropic_body :: "string \<Rightarrow> ModelRequest \<Rightarrow> error + json" where
  "anthropic_body model req =
     (case anthropic_split (mr_Messages req) [] [] of
        (system, messages) \<Rightarrow>
          (case temperature_member (mr_Temperature req) of
             Inl err \<Rightarrow> Inl err
           | Inr temperature \<Rightarrow>
               Inr (JObj ([(''model'', JStr model)] @ omit_str ''system'' system @
                          [(''messages'', JArr (map json_of_message messages)),
                           (''max_tokens'', JNum (show_int (if mr_MaxTokens req \<le> 0 then 1024 else mr_MaxTokens req)))] @ temperature))))"

definition anthropic_header :: "AnthropicProvider \<Rightarrow> string \<Rightarrow> string" where
  "anthropic_header p h =
     (if h = ''Content-Type'' then ''application/json''
      else if h = ''x-api-key'' then ap_APIKey p
      else if h = ''anthropic-version'' then AnthropicAPIVersion
      else if h = ''anthropic-workspace-id'' then ap_WorkspaceID p
      else [])"

record anthropic_block =
  ab_Type :: string
  ab_Text :: string

record anthropicResponse =
  ar_Model :: string
  ar_Content :: "anthropic_block list"
  ar_Usage :: TokenUsage
  ar_Error :: "api_error option"

definition block_elem :: "json \<Rightarrow> anthropic_block option" where
  "block_elem v =
     dec_struct [(''type'', dec_str (\<lambda>x. ab_Type_update (\<lambda>_. x))), (''text'', dec_str (\<lambda>x. ab_Text_update (\<lambda>_. x)))]
       v \<lparr>ab_Type = [], ab_Text = []\<rparr>"

definition anthropicResponse_fields :: "anthropicResponse field list" where
  "anthropicResponse_fields =
     [(''model'', dec_str (\<lambda>x. ar_Model_update (\<lambda>_. x))),
      (''content'', dec_slice block_elem (\<lambda>x. ar_Content_update (\<lambda>_. x))),
      (''usage'', \<lambda>v r. map_option (\<lambda>u. r\<lparr>ar_Usage := u\<rparr>) (dec_struct (token_fields ''input_tokens'' ''output_tokens'') v (ar_Usage r))),
      (''error'', dec_ptr api_error_fields \<lparr>er_Message = []\<rparr> ar_Error (\<lambda>x. ar_Error_update (\<lambda>_. x)))]"

definition anthropic_answer :: "transport \<Rightarrow> error + ModelResponse" where
  "anthropic_answer t =
     (case t of
        BuildFailed err \<Rightarrow> Inl (''anthropic: build request: '' @ err)
      | SendFailed err \<Rightarrow> Inl (''anthropic: request failed: '' @ err)
      | ReadFailed _ err \<Rightarrow> Inl (''anthropic: read response: '' @ err)
      | Answered status _ body \<Rightarrow>
          (case unmarshal_raw anthropicResponse_fields (parse_json body)
                  \<lparr>ar_Model = [], ar_Content = [], ar_Usage = \<lparr>tu_PromptTokens = 0, tu_CompletionTokens = 0\<rparr>, ar_Error = None\<rparr> of
             None \<Rightarrow> Inl (''anthropic: malformed response (HTTP '' @ show_int status @ '')'')
           | Some parsed \<Rightarrow>
               (case ar_Error parsed of
                  Some e \<Rightarrow> Inl (''anthropic: '' @ er_Message e @ '' (HTTP '' @ show_int status @ '')'')
                | None \<Rightarrow>
                    if status \<noteq> 200 then Inl (''anthropic: HTTP '' @ show_int status @ '': '' @ body)
                    else Inr \<lparr>mp_Provider = ''anthropic'', mp_Model = ar_Model parsed,
                      mp_Content = concat (map ab_Text (filter (\<lambda>c. ab_Type c = ''text'') (ar_Content parsed))),
                      mp_Usage = ar_Usage parsed, mp_FallbackFrom = []\<rparr>)))"

definition AnthropicProvider_Complete ::
  "'w http_send \<Rightarrow> AnthropicProvider \<Rightarrow> string \<Rightarrow> ModelRequest \<Rightarrow> ('w, error + ModelResponse) state" where
  "AnthropicProvider_Complete send p model req =
     (case anthropic_body model req of
        Inl err \<Rightarrow> State_Monad.return (Inl (''anthropic: marshal request: '' @ err))
      | Inr body \<Rightarrow>
          do {
            t \<leftarrow> send (ensureTrailingSlash (if ap_BaseURL p = [] then DefaultAnthropicBaseURL else ap_BaseURL p) @ ''v1/messages'')
                   \<lparr>hr_Method = ''POST'', hr_Header = anthropic_header p, hr_Body = json_text body\<rparr>;
            State_Monad.return (anthropic_answer t)
          })"

definition anthropic_provider :: "'w http_send \<Rightarrow> AnthropicProvider \<Rightarrow> 'w Provider" where
  "anthropic_provider send p = \<lparr>pv_Name = ''anthropic'', pv_Complete = AnthropicProvider_Complete send p\<rparr>"

subsection \<open>\<^verbatim>\<open>azureopenai.go\<close>\<close>

record AzureOpenAIProvider =
  az_Endpoint :: string
  az_APIKey :: string
  az_APIVersion :: string

definition azure_body :: "ModelRequest \<Rightarrow> error + json" where
  "azure_body req =
     (case temperature_member (mr_Temperature req) of
        Inl err \<Rightarrow> Inl err
      | Inr temperature \<Rightarrow>
          Inr (JObj ([(''messages'', JArr (map json_of_message (mr_Messages req)))] @
                     (if mr_MaxTokens req = 0 then [] else [(''max_tokens'', JNum (show_int (mr_MaxTokens req)))]) @ temperature)))"

definition azure_url :: "AzureOpenAIProvider \<Rightarrow> string \<Rightarrow> string" where
  "azure_url p deployment =
     ensureTrailingSlash (az_Endpoint p) @ ''openai/deployments/'' @ deployment @ ''/chat/completions?api-version='' @ az_APIVersion p"

definition azure_header :: "AzureOpenAIProvider \<Rightarrow> string \<Rightarrow> string" where
  "azure_header p h =
     (if h = ''Content-Type'' then ''application/json'' else if h = ''api-key'' then az_APIKey p else [])"

text \<open>A choice is held as the content of its message.\<close>

record azureChatResponse =
  zr_Model :: string
  zr_Choices :: "string list"
  zr_Usage :: TokenUsage
  zr_Error :: "api_error option"

definition choice_elem :: "json \<Rightarrow> string option" where
  "choice_elem v = dec_struct [(''message'', dec_struct [(''content'', dec_str (\<lambda>x _. x))])] v []"

definition azureChatResponse_fields :: "azureChatResponse field list" where
  "azureChatResponse_fields =
     [(''model'', dec_str (\<lambda>x. zr_Model_update (\<lambda>_. x))),
      (''choices'', dec_slice choice_elem (\<lambda>x. zr_Choices_update (\<lambda>_. x))),
      (''usage'', \<lambda>v r. map_option (\<lambda>u. r\<lparr>zr_Usage := u\<rparr>) (dec_struct (token_fields ''prompt_tokens'' ''completion_tokens'') v (zr_Usage r))),
      (''error'', dec_ptr api_error_fields \<lparr>er_Message = []\<rparr> zr_Error (\<lambda>x. zr_Error_update (\<lambda>_. x)))]"

definition azure_answer :: "transport \<Rightarrow> error + ModelResponse" where
  "azure_answer t =
     (case t of
        BuildFailed err \<Rightarrow> Inl (''azure-openai: build request: '' @ err)
      | SendFailed err \<Rightarrow> Inl (''azure-openai: request failed: '' @ err)
      | ReadFailed _ err \<Rightarrow> Inl (''azure-openai: read response: '' @ err)
      | Answered status _ body \<Rightarrow>
          (case unmarshal_raw azureChatResponse_fields (parse_json body)
                  \<lparr>zr_Model = [], zr_Choices = [], zr_Usage = \<lparr>tu_PromptTokens = 0, tu_CompletionTokens = 0\<rparr>, zr_Error = None\<rparr> of
             None \<Rightarrow> Inl (''azure-openai: malformed response (HTTP '' @ show_int status @ '')'')
           | Some parsed \<Rightarrow>
               (case zr_Error parsed of
                  Some e \<Rightarrow> Inl (''azure-openai: '' @ er_Message e @ '' (HTTP '' @ show_int status @ '')'')
                | None \<Rightarrow>
                    if status \<noteq> 200 then Inl (''azure-openai: HTTP '' @ show_int status @ '': '' @ body)
                    else (case zr_Choices parsed of
                       [] \<Rightarrow> Inl ''azure-openai: response had no choices''
                     | c # _ \<Rightarrow> Inr \<lparr>mp_Provider = ''azure-openai'', mp_Model = zr_Model parsed, mp_Content = c,
                         mp_Usage = zr_Usage parsed, mp_FallbackFrom = []\<rparr>))))"

definition AzureOpenAIProvider_Complete ::
  "'w http_send \<Rightarrow> AzureOpenAIProvider \<Rightarrow> string \<Rightarrow> ModelRequest \<Rightarrow> ('w, error + ModelResponse) state" where
  "AzureOpenAIProvider_Complete send p deployment req =
     (case azure_body req of
        Inl err \<Rightarrow> State_Monad.return (Inl (''azure-openai: marshal request: '' @ err))
      | Inr body \<Rightarrow>
          do {
            t \<leftarrow> send (azure_url p deployment) \<lparr>hr_Method = ''POST'', hr_Header = azure_header p, hr_Body = json_text body\<rparr>;
            State_Monad.return (azure_answer t)
          })"

definition azure_provider :: "'w http_send \<Rightarrow> AzureOpenAIProvider \<Rightarrow> 'w Provider" where
  "azure_provider send p = \<lparr>pv_Name = ''azure-openai'', pv_Complete = AzureOpenAIProvider_Complete send p\<rparr>"

section \<open>The scripts of a call\<close>

datatype model_effect =
    MDecide DecisionRequest "error + DecisionResponse"
  | MAppend ActionRecord "error option"
  | MCall string string ModelRequest "error + ModelResponse"

definition traced_provider :: "string \<Rightarrow> 'w Provider \<Rightarrow> ('w \<times> model_effect list) Provider" where
  "traced_provider name p = \<lparr>pv_Name = pv_Name p, pv_Complete = (\<lambda>model req. traced (MCall name model req) (pv_Complete p model req))\<rparr>"

definition traced_models :: "'w ModelGateway \<Rightarrow> ('w \<times> model_effect list) ModelGateway" where
  "traced_models g =
     \<lparr>mg_providers = (\<lambda>name. map_option (traced_provider name) (mg_providers g name)), mg_routes = mg_routes g,
      mg_pdp = (\<lambda>req. traced (MDecide req) (mg_pdp g req)), mg_auditLog = (\<lambda>rec. traced (MAppend rec) (mg_auditLog g rec)),
      mg_catalog = mg_catalog g, mg_now = silent (mg_now g)\<rparr>"

text \<open>The calls of providers for a route, and what they come to.\<close>

inductive provider_calls :: "'w ModelGateway \<Rightarrow> Route \<Rightarrow> ModelRequest \<Rightarrow> model_effect list \<Rightarrow> error + ModelResponse \<Rightarrow> bool"
  for g :: "'w ModelGateway" and route :: Route and req :: ModelRequest
where
  primary: "provider_calls g route req [MCall (rt_Provider route) (rt_Model route) req (Inr resp)] (Inr resp)"
| no_fallback: "rt_FallbackProvider route = [] \<Longrightarrow>
    provider_calls g route req [MCall (rt_Provider route) (rt_Model route) req (Inl e)] (Inl (primary_failed route e))"
| unapproved_fallback: "rt_FallbackProvider route \<noteq> [] \<Longrightarrow> \<not> approved g (rt_FallbackProvider route) (rt_FallbackModel route) \<Longrightarrow>
    provider_calls g route req [MCall (rt_Provider route) (rt_Model route) req (Inl e)] (Inl (fallback_unapproved route e))"
| both_fail: "rt_FallbackProvider route \<noteq> [] \<Longrightarrow> approved g (rt_FallbackProvider route) (rt_FallbackModel route) \<Longrightarrow>
    provider_calls g route req
      [MCall (rt_Provider route) (rt_Model route) req (Inl e),
       MCall (rt_FallbackProvider route) (rt_FallbackModel route) req (Inl e')] (Inl (fallback_failed route e e'))"
| falls_back: "rt_FallbackProvider route \<noteq> [] \<Longrightarrow> approved g (rt_FallbackProvider route) (rt_FallbackModel route) \<Longrightarrow>
    provider_calls g route req
      [MCall (rt_Provider route) (rt_Model route) req (Inl e),
       MCall (rt_FallbackProvider route) (rt_FallbackModel route) req (Inr resp)] (Inr (resp\<lparr>mp_FallbackFrom := rt_Provider route\<rparr>))"

definition outcome_record :: "gotime \<Rightarrow> Subject \<Rightarrow> ModelRequest \<Rightarrow> DecisionResponse \<Rightarrow> error + ModelResponse \<Rightarrow> ActionRecord" where
  "outcome_record now subject req decision r =
     (case r of
        Inl e \<Rightarrow> model_record now subject (model_action req) decision RecordOutcomeFailed
      | Inr resp \<Rightarrow> model_record now subject (outcomeAction (model_action req) resp) decision RecordOutcomeAllowed)"

inductive completion ::
  "'w ModelGateway \<Rightarrow> Subject \<Rightarrow> ModelRequest \<Rightarrow> model_effect list \<Rightarrow> model_error + ModelResponse \<Rightarrow> bool"
  for g :: "'w ModelGateway" and s :: Subject and req :: ModelRequest
where
  no_route: "mg_routes g (mr_Purpose req) = None \<Longrightarrow> reason = ''no route configured for purpose '' @ quoteq (mr_Purpose req) \<Longrightarrow>
    completion g s req
      [MAppend (model_record now s (model_action req) (model_deny_decision ''modelgw.no_route'' reason) RecordOutcomeDenied) w]
      (Inl (ErrDenied ''modelgw.no_route'' reason))"
| unapproved: "mg_routes g (mr_Purpose req) = Some route \<Longrightarrow> \<not> approved g (rt_Provider route) (rt_Model route) \<Longrightarrow>
    completion g s req
      [MAppend (model_record now s (model_action req) (model_deny_decision ''modelcatalog.unapproved'' (unapproved_reason route)) RecordOutcomeDenied) w]
      (Inl (ErrDenied ''modelcatalog.unapproved'' (unapproved_reason route)))"
| undecided: "mg_routes g (mr_Purpose req) = Some route \<Longrightarrow> approved g (rt_Provider route) (rt_Model route) \<Longrightarrow>
    completion g s req
      [MDecide (model_decision_request s req now) (Inl e),
       MAppend (model_record now s (model_action req) (model_deny_decision ''modelgw.pdp_error'' e) RecordOutcomeDenied) w]
      (Inl (ErrDenied ''modelgw.pdp_error'' e))"
| denied: "mg_routes g (mr_Purpose req) = Some route \<Longrightarrow> approved g (rt_Provider route) (rt_Model route) \<Longrightarrow> \<not> model_allowed d \<Longrightarrow>
    completion g s req
      [MDecide (model_decision_request s req now) (Inr d), MAppend (model_record now s (model_action req) d RecordOutcomeDenied) w]
      (Inl (ErrDenied (dr_PolicyID d) (model_denial_reason d)))"
| unrecorded: "mg_routes g (mr_Purpose req) = Some route \<Longrightarrow> approved g (rt_Provider route) (rt_Model route) \<Longrightarrow> model_allowed d \<Longrightarrow>
    completion g s req
      [MDecide (model_decision_request s req now) (Inr d), MAppend (model_record now s (model_action req) d RecordOutcomeAllowed) (Some e)]
      (Inl (ErrDenied ''modelgw.audit_unavailable'' (unrecorded_reason e)))"
| called: "mg_routes g (mr_Purpose req) = Some route \<Longrightarrow> approved g (rt_Provider route) (rt_Model route) \<Longrightarrow> model_allowed d \<Longrightarrow>
    provider_calls g route req calls r \<Longrightarrow>
    completion g s req
      ([MDecide (model_decision_request s req now) (Inr d), MAppend (model_record now s (model_action req) d RecordOutcomeAllowed) None] @
       calls @ [MAppend (outcome_record now' s req d r) w])
      (case r of Inl e \<Rightarrow> Inl (CallError e) | Inr resp \<Rightarrow> Inr resp)"

text \<open>What \<^verbatim>\<open>New\<close> has checked of the routes.\<close>

definition routes_ok :: "'w ModelGateway \<Rightarrow> bool" where
  "routes_ok g \<longleftrightarrow> (\<forall>p r. mg_routes g p = Some r \<longrightarrow> route_error (mg_providers g) p r = None)"

lemma routes_error_None: "routes_error providers routes = None \<longleftrightarrow> (\<forall>(p, r) \<in> set routes. route_error providers p r = None)"
  by (induction routes) (auto split: option.splits)

lemma New_routes_ok: "modelgw_New providers routes pdp log cat now = Inr g \<Longrightarrow> routes_ok g"
  by (auto simp: modelgw_New_def routes_ok_def routes_error_None dest!: map_of_SomeD split: option.splits)

lemma traced_models_sel [simp]:
  "mg_routes (traced_models g) = mg_routes g" "mg_catalog (traced_models g) = mg_catalog g"
  "approved (traced_models g) = approved g"
  "mg_now (traced_models g) = silent (mg_now g)"
  "mg_pdp (traced_models g) d = traced (MDecide d) (mg_pdp g d)"
  "mg_auditLog (traced_models g) rec = traced (MAppend rec) (mg_auditLog g rec)"
  by (simp_all add: traced_models_def approved_def fun_eq_iff)

lemma traced_provider_call:
  "mg_providers g p = Some x \<Longrightarrow>
     provider_call (traced_models g) p m req = traced (MCall p m req) (pv_Complete x m req)"
  by (simp add: provider_call_def traced_models_def traced_provider_def)

lemma validateModelVersion_None: "validateModelVersion p f m = None \<longleftrightarrow> m \<notin> {[], ''latest''}"
  by (simp add: validateModelVersion_def)

definition route_pinned :: "(string \<rightharpoonup> 'w Provider) \<Rightarrow> Route \<Rightarrow> bool" where
  "route_pinned providers r \<longleftrightarrow>
     rt_Provider r \<noteq> [] \<and> rt_Provider r \<in> dom providers \<and> rt_Model r \<notin> {[], ''latest''} \<and>
     (rt_FallbackProvider r = [] \<or> rt_FallbackProvider r \<in> dom providers \<and> rt_FallbackModel r \<notin> {[], ''latest''})"

lemma route_error_None: "route_error providers p r = None \<longleftrightarrow> route_pinned providers r"
proof (cases "rt_Model r \<in> {[], ''latest''}")
  case True
  then obtain e where "validateModelVersion p ''model'' (rt_Model r) = Some e"
    using validateModelVersion_None by (metis not_None_eq)
  with True show ?thesis by (simp add: route_error_def route_pinned_def del: insert_iff)
next
  case False
  then have "validateModelVersion p ''model'' (rt_Model r) = None" using validateModelVersion_None by blast
  with False show ?thesis
    unfolding route_error_def route_pinned_def
    by (simp add: validateModelVersion_None [of p "''fallback_model''"] domIff del: insert_iff)
qed

lemma route_ok_providers:
  assumes "routes_ok g" "mg_routes g p = Some route"
  obtains x where "mg_providers g (rt_Provider route) = Some x"
    and "rt_FallbackProvider route \<noteq> [] \<Longrightarrow> \<exists>y. mg_providers g (rt_FallbackProvider route) = Some y"
proof -
  have "route_pinned (mg_providers g) route" using assms by (simp add: routes_ok_def route_error_None)
  then show thesis using that unfolding route_pinned_def dom_def by blast
qed

lemma wp_call:
  assumes "routes_ok g" "mg_routes g p = Some route"
  shows "wp (modelgw_call (traced_models g) route req)
    (\<lambda>r t. \<exists>calls. snd t = tr @ calls \<and> provider_calls g route req calls r) (w, tr)"
proof -
  obtain x where x: "mg_providers g (rt_Provider route) = Some x"
    and y: "rt_FallbackProvider route \<noteq> [] \<Longrightarrow> \<exists>y. mg_providers g (rt_FallbackProvider route) = Some y"
    using route_ok_providers [OF assms] by blast
  show ?thesis
  proof (cases "rt_FallbackProvider route \<noteq> [] \<and> approved g (rt_FallbackProvider route) (rt_FallbackModel route)")
    case True
    then obtain z where z: "mg_providers g (rt_FallbackProvider route) = Some z" using y by blast
    show ?thesis
      unfolding modelgw_call_def using True
      by (auto simp: traced_provider_call [OF x] traced_provider_call [OF z] wp_simps split: sum.splits
          intro!: wp_any provider_calls.intros)
  next
    case False
    then show ?thesis
      unfolding modelgw_call_def
      by (auto simp: traced_provider_call [OF x] wp_simps split: sum.splits intro!: wp_any provider_calls.intros)
  qed
qed

lemma wp_finish_call:
  "wp (finish_call (traced_models g) s req d r)
     (\<lambda>a t. (\<exists>now w. snd t = tr @ [MAppend (outcome_record now s req d r) w]) \<and>
        a = (case r of Inl e \<Rightarrow> Inl (CallError e) | Inr resp \<Rightarrow> Inr resp)) (w, tr)"
  by (cases r) (auto simp: finish_call_def wp_simps outcome_record_def outcomeAction_def zero_ModelResponse_def intro!: wp_any)

lemma wp_denyf:
  assumes "\<And>x. completion g s req (tr @ [MAppend (model_record now s (model_action req) (model_deny_decision policyID reason) RecordOutcomeDenied) x])
    (Inl (ErrDenied policyID reason))"
  shows "wp (model_denyf (traced_models g) s req now policyID reason) (\<lambda>a t. completion g s req (snd t) a) (w, tr)"
  using assms by (auto simp: model_denyf_def wp_simps intro!: wp_any)

lemma Complete_script:
  assumes "routes_ok g"
  shows "wp (modelgw_Complete (traced_models g) s req) (\<lambda>a t. completion g s req (snd t) a) (w, [])"
proof (cases "mg_routes g (mr_Purpose req)")
  case None
  then show ?thesis
    unfolding modelgw_Complete_def by (auto simp: wp_simps intro!: wp_any wp_denyf completion.intros)
next
  case (Some route)
  show ?thesis
  proof (cases "approved g (rt_Provider route) (rt_Model route)")
    case False
    with Some show ?thesis
      unfolding modelgw_Complete_def by (auto simp: wp_simps intro!: wp_any wp_denyf completion.intros)
  next
    case True
    note called = completion.called [OF Some True]
    have "wp (finish_call (traced_models g) s req d r) (\<lambda>a t. completion g s req (snd t) a)
        (w', [MDecide (model_decision_request s req now) (Inr d), MAppend (model_record now s (model_action req) d RecordOutcomeAllowed) None] @ calls)"
      if "provider_calls g route req calls r" "model_allowed d" for d now calls r w'
      by (rule wp_mono [OF wp_finish_call]) (use called [OF that(2,1)] in auto)
    then have "wp (modelgw_call (traced_models g) route req) (\<lambda>r. wp (finish_call (traced_models g) s req d r) (\<lambda>a t. completion g s req (snd t) a))
        (w', [MDecide (model_decision_request s req now) (Inr d), MAppend (model_record now s (model_action req) d RecordOutcomeAllowed) None])"
      if "model_allowed d" for d now w'
      by (intro wp_mono [OF wp_call [OF assms Some]]) (use that in force)
    with Some True show ?thesis
      unfolding modelgw_Complete_def
      by (auto simp: wp_simps split: sum.splits option.splits intro!: wp_any wp_denyf completion.intros)
  qed
qed

section \<open>The contract of a provider\<close>

text \<open>A provider reports itself, and never a fallback: that mark is the gateway's.\<close>

locale model_provider =
  fixes complete :: "string \<Rightarrow> ModelRequest \<Rightarrow> ('w, error + ModelResponse) state"
    and name :: string
  assumes named: "name \<noteq> []"
    and reports: "run_state (complete model req) w = (Inr resp, w') \<Longrightarrow> mp_Provider resp = name \<and> mp_FallbackFrom resp = []"
begin

lemma wp_complete: "wp (complete model req) (\<lambda>r _. \<forall>resp. r = Inr resp \<longrightarrow> mp_Provider resp = name \<and> mp_FallbackFrom resp = []) w"
  using reports by (auto intro!: wpI)

lemma resource:
  assumes "run_state (complete model req) w = (Inr resp, w')"
  shows "act_Resource (outcomeAction a resp) = name @ ''/'' @ mp_Model resp"
    and "from \<noteq> [] \<Longrightarrow> act_Resource (outcomeAction a (resp\<lparr>mp_FallbackFrom := from\<rparr>)) =
      name @ ''/'' @ mp_Model resp @ '' (fallback from '' @ from @ '')''"
  using reports [OF assms] named by (simp_all add: outcomeAction_def)

end

interpretation anthropic: model_provider "AnthropicProvider_Complete send p" "''anthropic''" for send p
  by unfold_locales
    (auto simp: AnthropicProvider_Complete_def anthropic_answer_def Let_def split: sum.splits prod.splits transport.splits option.splits if_splits)

interpretation azure: model_provider "AzureOpenAIProvider_Complete send p" "''azure-openai''" for send p
  by unfold_locales
    (auto simp: AzureOpenAIProvider_Complete_def azure_answer_def Let_def
      split: sum.splits prod.splits transport.splits option.splits if_splits list.splits)

text \<open>The providers of a gateway under the names they report.\<close>

definition both_providers :: "'w http_send \<Rightarrow> AnthropicProvider \<Rightarrow> AzureOpenAIProvider \<Rightarrow> string \<rightharpoonup> 'w Provider" where
  "both_providers send p q = [''anthropic'' \<mapsto> anthropic_provider send p, ''azure-openai'' \<mapsto> azure_provider send q]"

definition served_by :: "Route \<Rightarrow> ModelResponse \<Rightarrow> bool" where
  "served_by route resp \<longleftrightarrow>
     (mp_FallbackFrom resp = [] \<and> mp_Provider resp = rt_Provider route) \<or>
     (mp_FallbackFrom resp = rt_Provider route \<and> mp_Provider resp = rt_FallbackProvider route \<and> rt_FallbackProvider route \<noteq> [])"

lemma served_primary: "mp_Provider resp = rt_Provider route \<Longrightarrow> mp_FallbackFrom resp = [] \<Longrightarrow> served_by route resp"
  by (simp add: served_by_def)

lemma wp_both:
  assumes "mg_providers g = both_providers send p q"
  shows "wp (provider_call g name model req) (\<lambda>r _. \<forall>resp. r = Inr resp \<longrightarrow> mp_Provider resp = name \<and> mp_FallbackFrom resp = []) w"
  using anthropic.wp_complete [of send p model req w] azure.wp_complete [of send q model req w]
  by (auto simp: provider_call_def assms both_providers_def anthropic_provider_def azure_provider_def wp_simps)

lemma wp_served_by:
  assumes "mg_providers g = both_providers send p q"
  shows "wp (modelgw_call g route req) (\<lambda>r _. \<forall>resp. r = Inr resp \<longrightarrow> served_by route resp) w"
proof -
  have second: "wp (provider_call g (rt_FallbackProvider route) (rt_FallbackModel route) req)
      (\<lambda>x _. \<forall>resp. (case x of Inl fbErr \<Rightarrow> Inl (fallback_failed route e fbErr)
         | Inr resp \<Rightarrow> Inr (resp\<lparr>mp_FallbackFrom := rt_Provider route\<rparr>)) = Inr resp \<longrightarrow> served_by route resp) w"
    if "rt_FallbackProvider route \<noteq> []" for e w
  proof (rule wp_mono [OF wp_both [OF assms]], intro allI impI)
    fix x :: "error + ModelResponse" and t and resp :: ModelResponse
    assume "\<forall>r. x = Inr r \<longrightarrow> mp_Provider r = rt_FallbackProvider route \<and> mp_FallbackFrom r = []"
      and "(case x of Inl fbErr \<Rightarrow> Inl (fallback_failed route e fbErr)
         | Inr resp \<Rightarrow> Inr (resp\<lparr>mp_FallbackFrom := rt_Provider route\<rparr>)) = Inr resp"
    then show "served_by route resp" using that by (cases x) (auto simp: served_by_def)
  qed
  show ?thesis
    unfolding modelgw_call_def wp_bind
    by (rule wp_mono [OF wp_both [OF assms]]) (auto simp: wp_simps second served_primary split: sum.split)
qed

section \<open>Tracing changes nothing\<close>

definition forgets :: "('w, 'a) state \<Rightarrow> ('w \<times> 'e list, 'a) state \<Rightarrow> bool" where
  "forgets m n \<longleftrightarrow> (\<forall>w tr. run_state m w = (case run_state n (w, tr) of (x, (w', _)) \<Rightarrow> (x, w')))"

named_theorems forgetting \<open>programs that tracing does not change\<close>

lemma forgets_return [forgetting]: "forgets (State_Monad.return x) (State_Monad.return x)"
  by (simp add: forgets_def)

lemma forgets_bind [forgetting]:
  "forgets m m' \<Longrightarrow> (\<And>x. forgets (f x) (f' x)) \<Longrightarrow> forgets (State_Monad.bind m f) (State_Monad.bind m' f')"
  by (force simp: forgets_def split: prod.splits)

lemma forgets_traced [forgetting]: "forgets m (traced ev m)" "forgets m (silent m)"
  by (simp_all add: forgets_def traced_def silent_def split: prod.splits)

lemma forgets_sum [forgetting]:
  "(\<And>e. forgets (f e) (f' e)) \<Longrightarrow> (\<And>y. forgets (h y) (h' y)) \<Longrightarrow>
     forgets (case x of Inl e \<Rightarrow> f e | Inr y \<Rightarrow> h y) (case x of Inl e \<Rightarrow> f' e | Inr y \<Rightarrow> h' y)"
  by (cases x) auto

lemma forgets_option [forgetting]:
  "forgets m m' \<Longrightarrow> (\<And>y. forgets (f y) (f' y)) \<Longrightarrow>
     forgets (case x of None \<Rightarrow> m | Some y \<Rightarrow> f y) (case x of None \<Rightarrow> m' | Some y \<Rightarrow> f' y)"
  by (cases x) auto

lemma forgets_if [forgetting]: "forgets m m' \<Longrightarrow> forgets n n' \<Longrightarrow> forgets (if b then m else n) (if b then m' else n')"
  by simp

lemma forgets_provider_call [forgetting]: "forgets (provider_call g p m req) (provider_call (traced_models g) p m req)"
  by (cases "mg_providers g p") (simp_all add: provider_call_def traced_models_def traced_provider_def forgetting)

lemma forgets_Complete: "forgets (modelgw_Complete g s req) (modelgw_Complete (traced_models g) s req)"
  unfolding modelgw_Complete_def modelgw_call_def finish_call_def model_denyf_def
  by (simp cong: sum.case_cong option.case_cong if_cong) (intro forgetting)

lemma traced_run:
  assumes "run_state (modelgw_Complete (traced_models g) s req) (w, []) = (a, (w', tr))"
  shows "run_state (modelgw_Complete g s req) w = (a, w')"
proof -
  have "run_state (modelgw_Complete g s req) w =
      (case run_state (modelgw_Complete (traced_models g) s req) (w, []) of (x, (w', _)) \<Rightarrow> (x, w'))"
    using forgets_Complete [of g s req] unfolding forgets_def by blast
  then show ?thesis by (simp add: assms)
qed

section \<open>Properties\<close>

text \<open>C25. \<^verbatim>\<open>Complete\<close> refines its protocol: written down, what a call of a gateway that \<^verbatim>\<open>New\<close> built does to the outside
  is one of the scripts, the one that belongs to its answer, and writing it down changes
  neither the answer nor the world. Each call leaves one record of its decision, and if a provider was called
  one more of the outcome, failed or not.\<close>

theorem Complete_refines_script:
  assumes "modelgw_New providers routes pdp auditLog cat clock = Inr g"
    and "run_state (modelgw_Complete (traced_models g) s req) (w, []) = (a, (w', tr))"
  shows "completion g s req tr a \<and> run_state (modelgw_Complete g s req) w = (a, w')"
  using wpD [OF Complete_script [OF New_routes_ok [OF assms(1)]] assms(2)] traced_run [OF assms(2)] by simp

text \<open>C24. A model is called only when everything that governs it says so: before any call of a provider in a trace
  comes the decision of the policy that allows this subject this purpose, and then the record of that
  decision, written durably; the provider and model are those that the purpose's route pins, first the primary and
  only after its failure the fallback; and each is an approved entry of the Model Catalog.\<close>

theorem Complete_mediated:
  assumes "modelgw_New providers routes pdp auditLog cat clock = Inr g"
    and "run_state (modelgw_Complete (traced_models g) s req) (w, []) = (a, (w', tr))"
    and "tr = before @ MCall p m req' r # after"
  shows "\<exists>now d route. mg_routes g (mr_Purpose req) = Some route \<and> model_allowed d \<and> req' = req \<and> approved g p m \<and>
    take 2 before = [MDecide (model_decision_request s req now) (Inr d),
                     MAppend (model_record now s (model_action req) d RecordOutcomeAllowed) None] \<and>
    ((p, m) = (rt_Provider route, rt_Model route) \<and> drop 2 before = [] \<or>
     (p, m) = (rt_FallbackProvider route, rt_FallbackModel route) \<and>
       (\<exists>e. drop 2 before = [MCall (rt_Provider route) (rt_Model route) req (Inl e)]))"
proof -
  have "completion g s req tr a"
    using wpD [OF Complete_script [OF New_routes_ok [OF assms(1)]] assms(2)] by simp
  then show ?thesis
  proof (cases rule: completion.cases)
    case (called route d calls r' now now' x)
    from called(6) show ?thesis
      using called(1-5) assms(3)
      by (cases rule: provider_calls.cases) (auto simp: Cons_eq_append_conv append_eq_Cons_conv)
  qed (use assms(3) in \<open>auto simp: append_eq_Cons_conv\<close>)
qed

text \<open>An example: one route with a fallback, a policy that allows everything, a log and providers that answer.\<close>

definition example_provider :: "string \<Rightarrow> error + ModelResponse \<Rightarrow> 'w Provider" where
  "example_provider name r = \<lparr>pv_Name = name, pv_Complete = (\<lambda>_ _. State_Monad.return r)\<rparr>"

definition example_route :: Route where
  "example_route = \<lparr>rt_Provider = ''a'', rt_Model = ''m1'', rt_FallbackProvider = ''b'', rt_FallbackModel = ''m2''\<rparr>"

definition example_decision :: DecisionResponse where
  "example_decision = zero_DecisionResponse\<lparr>dr_Outcome := OutcomeAllow\<rparr>"

definition example_answer :: ModelResponse where
  "example_answer = zero_ModelResponse\<lparr>mp_Provider := ''b'', mp_Model := ''m2-2026''\<rparr>"

definition example_models :: "nat ModelGateway" where
  "example_models =
     \<lparr>mg_providers = [''a'' \<mapsto> example_provider ''a'' (Inl ''down''), ''b'' \<mapsto> example_provider ''b'' (Inr example_answer)],
      mg_routes = map_of [(''chat'', example_route)], mg_pdp = (\<lambda>_. State_Monad.return (Inr example_decision)),
      mg_auditLog = (\<lambda>_. State_Monad.return None),
      mg_catalog = \<lparr>mc_byKey = (\<lambda>k. Some \<lparr>me_Provider = fst k, me_Model = snd k, me_Approved = True, me_AllowedDataClasses = [], me_Residency = []\<rparr>)\<rparr>,
      mg_now = State_Monad.return time_zero\<rparr>"

definition example_prompt :: ModelRequest where
  "example_prompt = \<lparr>mr_Purpose = ''chat'', mr_Messages = [], mr_MaxTokens = 0, mr_Temperature = Finite ''0''\<rparr>"

lemma example_models_New:
  "modelgw_New (mg_providers example_models) [(''chat'', example_route)] (mg_pdp example_models) (mg_auditLog example_models)
     (mg_catalog example_models) (mg_now example_models) = Inr example_models"
proof -
  have "route_error (mg_providers example_models) ''chat'' example_route = None"
    unfolding route_error_None by (simp add: route_pinned_def example_models_def example_route_def)
  then show ?thesis by (simp add: modelgw_New_def) (simp add: example_models_def)
qed

lemma example_run:
  "run_state (modelgw_Complete (traced_models example_models) zero_Subject example_prompt) (0, []) =
     (Inr (example_answer\<lparr>mp_FallbackFrom := ''a''\<rparr>), (0,
       [MDecide (model_decision_request zero_Subject example_prompt time_zero) (Inr example_decision),
        MAppend (model_record time_zero zero_Subject (model_action example_prompt) example_decision RecordOutcomeAllowed) None,
        MCall ''a'' ''m1'' example_prompt (Inl ''down'')] @
       MCall ''b'' ''m2'' example_prompt (Inr example_answer) #
       [MAppend (outcome_record time_zero zero_Subject example_prompt example_decision (Inr (example_answer\<lparr>mp_FallbackFrom := ''a''\<rparr>))) None]))"
proof -
  have "model_allowed example_decision" by (simp add: model_allowed_def example_decision_def)
  moreover have "mg_routes example_models (mr_Purpose example_prompt) = Some example_route"
    by (simp add: example_models_def example_prompt_def)
  moreover have "approved example_models p m" for p m
    by (simp add: approved_def modelcatalog_Lookup_def example_models_def)
  moreover have "mg_now example_models = State_Monad.return time_zero" "mg_pdp example_models r = State_Monad.return (Inr example_decision)"
    "mg_auditLog example_models rec = State_Monad.return None" for r rec
    by (simp_all add: example_models_def)
  moreover have "provider_call (traced_models example_models) ''a'' m example_prompt = traced (MCall ''a'' m example_prompt) (State_Monad.return (Inl ''down''))"
    "provider_call (traced_models example_models) ''b'' m example_prompt = traced (MCall ''b'' m example_prompt) (State_Monad.return (Inr example_answer))" for m
    by (simp_all add: provider_call_def traced_models_def traced_provider_def example_models_def example_provider_def)
  ultimately show ?thesis
    by (simp add: modelgw_Complete_def modelgw_call_def finish_call_def outcome_record_def traced_def silent_def example_route_def)
qed

theorem Complete_refines_script_witness:
  "\<exists>tr. completion example_models zero_Subject example_prompt tr (Inr (example_answer\<lparr>mp_FallbackFrom := ''a''\<rparr>)) \<and>
     run_state (modelgw_Complete example_models zero_Subject example_prompt) 0 = (Inr (example_answer\<lparr>mp_FallbackFrom := ''a''\<rparr>), 0)"
  using Complete_refines_script [OF example_models_New example_run] by blast

theorem Complete_mediated_witness: "approved example_models ''b'' ''m2'' \<and> mg_routes example_models ''chat'' = Some example_route"
  using Complete_mediated [OF example_models_New example_run refl] by (auto simp: example_models_def)

lemma call_answers:
  "fst (run_state (modelgw_call g route req) w) = Inr resp \<longleftrightarrow>
     fst (run_state (provider_call g (rt_Provider route) (rt_Model route) req) w) = Inr resp \<or>
     (\<exists>e w' answer. run_state (provider_call g (rt_Provider route) (rt_Model route) req) w = (Inl e, w') \<and>
        rt_FallbackProvider route \<noteq> [] \<and> approved g (rt_FallbackProvider route) (rt_FallbackModel route) \<and>
        fst (run_state (provider_call g (rt_FallbackProvider route) (rt_FallbackModel route) req) w') = Inr answer \<and>
        resp = answer\<lparr>mp_FallbackFrom := rt_Provider route\<rparr>)"
  by (cases "run_state (provider_call g (rt_Provider route) (rt_Model route) req) w")
    (auto simp: modelgw_call_def split: sum.splits prod.splits)

lemma finish_answers: "fst (run_state (finish_call g s req d r) w) = Inr resp \<longleftrightarrow> r = Inr resp"
  by (auto simp: finish_call_def split: sum.splits prod.splits)

lemma Complete_answers:
  "fst (run_state (modelgw_Complete g s req) w) = Inr resp \<longleftrightarrow>
    (\<exists>route now w1 d w2 w3. mg_routes g (mr_Purpose req) = Some route \<and> approved g (rt_Provider route) (rt_Model route) \<and>
       run_state (mg_now g) w = (now, w1) \<and> run_state (mg_pdp g (model_decision_request s req now)) w1 = (Inr d, w2) \<and> model_allowed d \<and>
       run_state (mg_auditLog g (model_record now s (model_action req) d RecordOutcomeAllowed)) w2 = (None, w3) \<and>
       fst (run_state (modelgw_call g route req) w3) = Inr resp)"
proof -
  obtain now w1 where c: "run_state (mg_now g) w = (now, w1)" by fastforce
  obtain x w2 where d: "run_state (mg_pdp g (model_decision_request s req now)) w1 = (x, w2)" by fastforce
  have denied: "fst (run_state (model_denyf g s req now p why) v) \<noteq> Inr resp" for p why v
    by (simp add: model_denyf_def case_prod_beta)
  show ?thesis
  proof (cases x)
    case (Inl e)
    with c d denied show ?thesis by (auto simp: modelgw_Complete_def split: option.splits)
  next
    case (Inr y)
    obtain z w3 where a: "run_state (mg_auditLog g (model_record now s (model_action req) y RecordOutcomeAllowed)) w2 = (z, w3)" by fastforce
    from c d a denied Inr show ?thesis
      by (cases z) (auto simp: modelgw_Complete_def finish_answers case_prod_beta split: option.splits)
  qed
qed

text \<open>C26. A completion is served exactly if, in this very run, its purpose has a route with an approved model, the policy, asked once for this
  request at this time, allows it, the log takes the record of that decision, and then the route's provider answers, or it fails and an approved
  fallback answers; whether the outcome could be recorded afterwards does not matter. The answer is the provider's, marked with
  the provider it stands in for if it is the fallback's.\<close>

theorem Complete_serves:
  assumes "modelgw_New providers routes pdp auditLog cat clock = Inr g"
  shows "fst (run_state (modelgw_Complete g s req) w) = Inr resp \<longleftrightarrow>
    (\<exists>route p now w1 d w2 w3. mg_routes g (mr_Purpose req) = Some route \<and> approved g (rt_Provider route) (rt_Model route) \<and>
       run_state clock w = (now, w1) \<and>
       run_state (pdp (model_decision_request s req now)) w1 = (Inr d, w2) \<and> dr_Outcome d \<in> {OutcomeAllow, OutcomeAllowWithObligations} \<and>
       run_state (auditLog (model_record now s (model_action req) d RecordOutcomeAllowed)) w2 = (None, w3) \<and>
       providers (rt_Provider route) = Some p \<and>
       (fst (run_state (pv_Complete p (rt_Model route) req) w3) = Inr resp \<or>
        (\<exists>e w4 q answer. run_state (pv_Complete p (rt_Model route) req) w3 = (Inl e, w4) \<and>
           providers (rt_FallbackProvider route) = Some q \<and> rt_FallbackProvider route \<noteq> [] \<and>
           approved g (rt_FallbackProvider route) (rt_FallbackModel route) \<and>
           fst (run_state (pv_Complete q (rt_FallbackModel route) req) w4) = Inr answer \<and>
           resp = answer\<lparr>mp_FallbackFrom := rt_Provider route\<rparr>)))"
proof -
  have g: "mg_providers g = providers" "mg_pdp g = pdp" "mg_auditLog g = auditLog" "mg_now g = clock"
    using assms by (auto simp: modelgw_New_def split: option.splits)
  have p: "\<exists>p. providers (rt_Provider route) = Some p" "rt_FallbackProvider route \<noteq> [] \<Longrightarrow> \<exists>q. providers (rt_FallbackProvider route) = Some q"
    if "mg_routes g (mr_Purpose req) = Some route" for route
    using New_routes_ok [OF assms] that unfolding routes_ok_def g route_error_None route_pinned_def by blast+
  show ?thesis
    unfolding Complete_answers call_answers g model_allowed_def provider_call_def insert_iff empty_iff
    using p by (fastforce split: option.splits)
qed

theorem Complete_serves_witness:
  "fst (run_state (modelgw_Complete example_models zero_Subject example_prompt) 3) = Inr (example_answer\<lparr>mp_FallbackFrom := ''a''\<rparr>)"
  unfolding Complete_serves [OF example_models_New]
  by (simp add: example_models_def example_prompt_def example_route_def approved_def modelcatalog_Lookup_def
      example_provider_def example_decision_def)

text \<open>A gateway is built exactly when every route names configured providers and pins explicit versions, never
  the alias \<^verbatim>\<open>latest\<close>, for the fallback too if there is one; the order in which the map of routes is
  visited decides only which problem is reported. What was built has the routes and the catalog it was given.\<close>

lemma New_pins_versions:
  "if list_all (\<lambda>(purpose, r). rt_Provider r \<noteq> [] \<and> rt_Provider r \<in> dom providers \<and> rt_Model r \<notin> {[], ''latest''} \<and>
        (rt_FallbackProvider r = [] \<or> rt_FallbackProvider r \<in> dom providers \<and> rt_FallbackModel r \<notin> {[], ''latest''})) routes
   then \<exists>g. modelgw_New providers routes pdp auditLog cat clock = Inr g \<and> mg_routes g = map_of routes \<and> mg_catalog g = cat
   else \<exists>e purpose r. modelgw_New providers routes pdp auditLog cat clock = Inl e \<and> (purpose, r) \<in> set routes \<and>
          route_error providers purpose r = Some e"
proof -
  have "\<exists>(purpose, r) \<in> set routes. route_error providers purpose r = Some e" if "routes_error providers routes = Some e" for e
    using that by (induction routes) (auto split: option.splits)
  moreover have iff: "list_all (\<lambda>(purpose, r). route_pinned providers r) routes \<longleftrightarrow> routes_error providers routes = None"
    by (simp add: routes_error_None route_error_None list_all_iff)
  ultimately show ?thesis
    unfolding route_pinned_def [symmetric] modelgw_New_def iff by (cases "routes_error providers routes") auto
qed

text \<open>The prompt of the Messages API: every system message and no other, in order and apart from leading empty ones
  separated by blank lines, is the system text; every other message is passed on unchanged and in order.\<close>

lemma anthropic_split_prompt:
  "anthropic_split ms [] [] =
     (joinWith [CHR 10, CHR 10] (dropWhile (\<lambda>c. c = []) (map msg_Content (filter (\<lambda>m. msg_Role m = ''system'') ms))),
      filter (\<lambda>m. msg_Role m \<noteq> ''system'') ms)"
proof -
  have later: "anthropic_split ms sys acc =
      (joinWith [CHR 10, CHR 10] (sys # map msg_Content (filter (\<lambda>m. msg_Role m = ''system'') ms)),
       acc @ filter (\<lambda>m. msg_Role m \<noteq> ''system'') ms)" if "sys \<noteq> []" for ms sys acc
    using that
  proof (induction ms arbitrary: sys acc)
    case (Cons m ms)
    then show ?case
      by (cases "map msg_Content (filter (\<lambda>m. msg_Role m = ''system'') ms)") simp_all
  qed simp
  have "anthropic_split ms [] acc =
     (joinWith [CHR 10, CHR 10] (dropWhile (\<lambda>c. c = []) (map msg_Content (filter (\<lambda>m. msg_Role m = ''system'') ms))),
      acc @ filter (\<lambda>m. msg_Role m \<noteq> ''system'') ms)" for acc
    by (induction ms arbitrary: acc) (auto simp: later)
  then show ?thesis by simp
qed

text \<open>Fallback is recorded, never silent: when \<^verbatim>\<open>Complete\<close> answers, the answer says which provider and model gave it,
  that provider is the route's primary or, marked as such, its fallback, and the record of the outcome, the last
  thing written, carries the same in its resource.\<close>

lemma Complete_names_server:
  assumes "modelgw_New (both_providers send p q) routes pdp auditLog cat clock = Inr g"
    and "run_state (modelgw_Complete (traced_models g) s req) (w, []) = (Inr resp, (w', tr))"
  shows "\<exists>route now d x. mg_routes g (mr_Purpose req) = Some route \<and>
    (mp_FallbackFrom resp = [] \<and> mp_Provider resp = rt_Provider route \<or>
     mp_FallbackFrom resp = rt_Provider route \<and> mp_Provider resp = rt_FallbackProvider route) \<and>
    last tr = MAppend (model_record now s ((model_action req)\<lparr>act_Resource := mp_Provider resp @ ''/'' @ mp_Model resp @
      (if mp_FallbackFrom resp = [] then [] else '' (fallback from '' @ mp_FallbackFrom resp @ '')'')\<rparr>) d RecordOutcomeAllowed) x"
proof -
  have g: "mg_providers g = both_providers send p q" "routes_ok g"
    using assms(1) New_routes_ok [OF assms(1)] by (auto simp: modelgw_New_def split: option.splits)
  have "completion g s req tr (Inr resp)"
    using wpD [OF Complete_script [OF g(2)] assms(2)] by simp
  then obtain route now d x where r: "mg_routes g (mr_Purpose req) = Some route"
    and last: "last tr = MAppend (outcome_record now s req d (Inr resp)) x"
    by (cases rule: completion.cases) (auto split: sum.splits)
  have "served_by route resp"
  proof -
    have "wp (modelgw_Complete g s req) (\<lambda>a _. \<forall>resp. a = Inr resp \<longrightarrow> served_by route resp) w"
      unfolding modelgw_Complete_def wp_bind
      by (rule wp_any) (auto simp: wp_simps r model_denyf_def finish_call_def split: sum.splits option.splits
          intro!: wp_any wp_mono [OF wp_served_by [OF g(1)]])
    from wpD [OF this traced_run [OF assms(2)]] show ?thesis by simp
  qed
  moreover have "route_pinned (both_providers send p q) route"
    using g r by (simp add: routes_ok_def route_error_None)
  ultimately have "mp_Provider resp \<noteq> []"
    by (auto simp: served_by_def route_pinned_def both_providers_def split: if_splits)
  with r last \<open>served_by route resp\<close> show ?thesis
    by (auto simp: outcome_record_def outcomeAction_def served_by_def)
qed

text \<open>The Anthropic provider behind a backend that answers every request.\<close>

definition example_backend :: "nat http_send" where
  "example_backend url r =
     State_Monad.return (Answered 200 ''application/json'' (json_text (JObj [(''model'', JStr ''claude-1''), (''content'', JArr [])])))"

definition example_claude :: "nat ModelGateway" where
  "example_claude = example_models\<lparr>
     mg_providers := both_providers example_backend \<lparr>ap_APIKey = [], ap_WorkspaceID = [], ap_BaseURL = []\<rparr>
       \<lparr>az_Endpoint = [], az_APIKey = [], az_APIVersion = []\<rparr>,
     mg_routes := map_of [(''chat'', \<lparr>rt_Provider = ''anthropic'', rt_Model = ''claude-1'', rt_FallbackProvider = [], rt_FallbackModel = []\<rparr>)]\<rparr>"

lemma example_claude_answer:
  "AnthropicProvider_Complete example_backend p model example_prompt =
     State_Monad.return (Inr (zero_ModelResponse\<lparr>mp_Provider := ''anthropic'', mp_Model := ''claude-1''\<rparr>))"
proof -
  let ?j = "JObj [(''model'', JStr ''claude-1''), (''content'', JArr [])]"
  have "parse_json (json_text ?j) = Some ?j"
    using parse_json_text [of ?j] by (simp add: max_depth_def coerce_ascii byte_in_def del: json_text.simps)
  then have "anthropic_answer (Answered 200 ''application/json'' (json_text ?j)) =
      Inr (zero_ModelResponse\<lparr>mp_Provider := ''anthropic'', mp_Model := ''claude-1''\<rparr>)"
    by (simp add: anthropic_answer_def unmarshal_raw_def anthropicResponse_fields_def dec_simps zero_ModelResponse_def del: json_text.simps)
  then show ?thesis
    by (simp add: AnthropicProvider_Complete_def anthropic_body_def temperature_member_def example_prompt_def example_backend_def
        del: json_text.simps)
qed

end
