(* ===== verification/HD_Health.thy ===== *)
theory HD_Health
  imports HD_Types Go_Json_Text "HOL-Library.Sublist"
begin

text \<open>
  \<^verbatim>\<open>internal/health/health.go\<close>: the liveness and readiness endpoints. Time is the number of nanoseconds since the
  request arrived. A check is given by what its function does when it is started at some moment: it returns after a
  while, or never. \<^verbatim>\<open>runCheck\<close> waits for whichever comes first, the result or the end of the request's context; when both
  are there at the same moment Go chooses either, and the argument \<open>race\<close> says which for each check.
  Only the waiting takes time: scheduling and writing do not. The log line of a failed check is not modelled.

  The properties show that a probe is answered on time whatever its checks do, when the answer is
  200, and that nothing of an error reaches the caller.
\<close>

definition checkTimeout :: nat where
  "checkTimeout = 2 * 10 ^ 9"

datatype check_run = Finishes nat "error option" | Hangs

record Check =
  ck_Name :: string
  ck_Fn :: "nat \<Rightarrow> check_run"

record health_response =
  hp_Status :: int
  hp_Header :: "(string \<times> string) list"
  hp_Body :: string

text \<open>The context of a probe: when it is done, and the error it then has.\<close>

record probe_ctx =
  pc_done :: nat
  pc_err :: error

definition withTimeout :: "nat option \<Rightarrow> probe_ctx" where
  "withTimeout client_gone =
     (case client_gone of
        Some t \<Rightarrow>
          if t < checkTimeout then \<lparr>pc_done = t, pc_err = ''context canceled''\<rparr>
          else \<lparr>pc_done = checkTimeout, pc_err = ''context deadline exceeded''\<rparr>
      | None \<Rightarrow> \<lparr>pc_done = checkTimeout, pc_err = ''context deadline exceeded''\<rparr>)"

definition runCheck :: "bool \<Rightarrow> probe_ctx \<Rightarrow> nat \<Rightarrow> Check \<Rightarrow> error option \<times> nat" where
  "runCheck race ctx now c =
     (case ck_Fn c now of
        Hangs \<Rightarrow> (Some (pc_err ctx), max now (pc_done ctx))
      | Finishes d err \<Rightarrow>
          if now + d < max now (pc_done ctx) then (err, now + d)
          else if max now (pc_done ctx) < now + d then (Some (pc_err ctx), max now (pc_done ctx))
          else (if race then err else Some (pc_err ctx), now + d))"

fun run_checks :: "(nat \<Rightarrow> bool) \<Rightarrow> nat \<Rightarrow> probe_ctx \<Rightarrow> nat \<Rightarrow> Check list \<Rightarrow> string list \<Rightarrow> string list \<times> nat" where
  "run_checks race i ctx now [] failed = (failed, now)"
| "run_checks race i ctx now (c # cs) failed =
     (case runCheck (race i) ctx now c of
        (None, t) \<Rightarrow> run_checks race (Suc i) ctx t cs failed
      | (Some err, t) \<Rightarrow> run_checks race (Suc i) ctx t cs (failed @ [ck_Name c]))"

definition json_of_response :: "string \<Rightarrow> string list \<Rightarrow> json" where
  "json_of_response status failed = JObj ((''status'', JStr status) # omit_strs ''failed'' failed)"

definition health_writeJSON :: "int \<Rightarrow> json \<Rightarrow> health_response" where
  "health_writeJSON status v =
     \<lparr>hp_Status = status, hp_Header = [(''Content-Type'', ''application/json''), (''Cache-Control'', ''no-store'')],
      hp_Body = json_text v @ [CHR 10]\<rparr>"

text \<open>A handler answers a request at some moment.\<close>

definition methodGuard :: "health_response \<times> nat \<Rightarrow> string \<Rightarrow> health_response \<times> nat" where
  "methodGuard handler meth =
     (if meth \<noteq> ''GET'' \<and> meth \<noteq> ''HEAD''
      then (\<lparr>hp_Status = 405, hp_Header = [(''Allow'', ''GET, HEAD'')], hp_Body = []\<rparr>, 0)
      else handler)"

definition Livez :: "string \<Rightarrow> health_response \<times> nat" where
  "Livez = methodGuard (health_writeJSON 200 (json_of_response ''ok'' []), 0)"

definition Healthz :: "(nat \<Rightarrow> bool) \<Rightarrow> nat option \<Rightarrow> Check list \<Rightarrow> string \<Rightarrow> health_response \<times> nat" where
  "Healthz race client_gone checks =
     methodGuard
       (case run_checks race 0 (withTimeout client_gone) 0 checks [] of
          (failed, t) \<Rightarrow>
            if failed \<noteq> [] then (health_writeJSON 503 (json_of_response ''unhealthy'' failed), t)
            else (health_writeJSON 200 (json_of_response ''ok'' []), t))"

section \<open>Lemmas\<close>

lemma pc_done_bound: "pc_done (withTimeout client_gone) \<le> checkTimeout"
  by (simp add: withTimeout_def split: option.split)

lemma runCheck_time: "now \<le> snd (runCheck race ctx now c)" "snd (runCheck race ctx now c) \<le> max now (pc_done ctx)"
  by (auto simp: runCheck_def split: check_run.splits)

lemma run_checks_time: "now \<le> pc_done ctx \<Longrightarrow> snd (run_checks race i ctx now cs failed) \<le> pc_done ctx"
proof (induction cs arbitrary: i now failed)
  case (Cons c cs)
  have "snd (runCheck (race i) ctx now c) \<le> pc_done ctx"
    using runCheck_time(2) [of "race i" ctx now c] Cons.prems by simp
  then show ?case
    using Cons.IH by (auto split: prod.split option.split)
qed simp

text \<open>Checks that pass one after the other: each returns no error, before the end or, when the race is won, with it.\<close>

fun pass_in_turn :: "(nat \<Rightarrow> bool) \<Rightarrow> nat \<Rightarrow> nat \<Rightarrow> nat \<Rightarrow> Check list \<Rightarrow> bool" where
  "pass_in_turn race i lim now [] = True"
| "pass_in_turn race i lim now (c # cs) =
     (\<exists>d. ck_Fn c now = Finishes d None \<and> (now + d < lim \<or> now + d = lim \<and> race i) \<and> pass_in_turn race (Suc i) lim (now + d) cs)"

lemma run_checks_failed:
  "fst (run_checks race i ctx now cs failed) = failed @ fst (run_checks race i ctx now cs [])"
proof (induction cs arbitrary: i now failed)
  case (Cons c cs)
  obtain e t where r: "runCheck (race i) ctx now c = (e, t)" by fastforce
  show ?case
    using Cons.IH [of "Suc i" t failed] Cons.IH [of "Suc i" t "failed @ [ck_Name c]"] Cons.IH [of "Suc i" t "[ck_Name c]"]
    by (cases e) (simp_all add: r)
qed simp

lemma runCheck_pass:
  "now \<le> pc_done ctx \<Longrightarrow> runCheck race ctx now c = (None, t) \<longleftrightarrow>
     (\<exists>d. ck_Fn c now = Finishes d None \<and> t = now + d \<and> (now + d < pc_done ctx \<or> now + d = pc_done ctx \<and> race))"
  by (auto simp: runCheck_def split: check_run.splits if_splits)

lemma run_checks_pass:
  "now \<le> pc_done ctx \<Longrightarrow> fst (run_checks race i ctx now cs []) = [] \<longleftrightarrow> pass_in_turn race i (pc_done ctx) now cs"
proof (induction cs arbitrary: i now)
  case (Cons c cs)
  obtain e t where r: "runCheck (race i) ctx now c = (e, t)" by fastforce
  have t: "t \<le> pc_done ctx" using runCheck_time(2) [of "race i" ctx now c] r Cons.prems by simp
  show ?case
  proof (cases e)
    case None
    then obtain d where "ck_Fn c now = Finishes d None" "t = now + d" "now + d < pc_done ctx \<or> now + d = pc_done ctx \<and> race i"
      using runCheck_pass [OF Cons.prems, of "race i" c t] r by auto
    then show ?thesis using Cons.IH [OF t, of "Suc i"] None r by simp
  next
    case (Some err)
    then have "\<not> (\<exists>d. ck_Fn c now = Finishes d None \<and> (now + d < pc_done ctx \<or> now + d = pc_done ctx \<and> race i))"
      using runCheck_pass [OF Cons.prems, of "race i" c] r by auto
    then show ?thesis using Some r run_checks_failed [of race "Suc i" ctx t cs "[ck_Name c]"] by auto
  qed
qed simp

text \<open>A check with the text of its errors taken away.\<close>

definition mask_run :: "check_run \<Rightarrow> check_run" where
  "mask_run r = (case r of Finishes d (Some err) \<Rightarrow> Finishes d (Some []) | _ \<Rightarrow> r)"

definition mask_check :: "Check \<Rightarrow> Check" where
  "mask_check c = c\<lparr>ck_Fn := (\<lambda>now. mask_run (ck_Fn c now))\<rparr>"

lemma runCheck_mask:
  "snd (runCheck race ctx now (mask_check c)) = snd (runCheck race ctx now c)"
  "fst (runCheck race ctx now (mask_check c)) = None \<longleftrightarrow> fst (runCheck race ctx now c) = None"
  by (auto simp: runCheck_def mask_check_def mask_run_def split: check_run.splits option.splits)

lemma run_checks_mask: "run_checks race i ctx now (map mask_check cs) failed = run_checks race i ctx now cs failed"
proof (induction cs arbitrary: i now failed)
  case (Cons c cs)
  show ?case
    using Cons.IH runCheck_mask [of "race i" ctx now c]
    by (cases "runCheck (race i) ctx now c"; cases "runCheck (race i) ctx now (mask_check c)")
      (auto simp: mask_check_def split: option.splits)
qed simp

section \<open>Properties\<close>

text \<open>C36. A probe is always answered: however the checks behave, returning late or never, in whatever order the races are
  decided, and whether or not the caller goes away, a request to either endpoint gets one of the responses 200, 503 or 405
  no later than two seconds after it arrived, and the liveness endpoint at once.\<close>

theorem probes_answer_in_time:
  "snd (Healthz race client_gone checks meth) \<le> checkTimeout \<and> snd (Livez meth) = 0 \<and>
   hp_Status (fst (Healthz race client_gone checks meth)) \<in> {200, 503, 405} \<and> hp_Status (fst (Livez meth)) \<in> {200, 405}"
proof -
  have "snd (run_checks race 0 (withTimeout client_gone) 0 checks []) \<le> checkTimeout"
    using run_checks_time [of 0 "withTimeout client_gone" race 0 checks "[]"] pc_done_bound [of client_gone]
    by (simp del: run_checks.simps)
  then show ?thesis
    by (auto simp: Healthz_def Livez_def methodGuard_def health_writeJSON_def split: prod.splits)
qed

text \<open>The readiness endpoint answers 200 exactly when every check, in its turn, returns no error before the
  request's time is over; otherwise it answers 503 and lists checks that failed, by name and in order. Without checks it answers as
  the liveness endpoint. What the errors say changes nothing of the answer.\<close>

lemma Healthz_exact:
  assumes "meth = ''GET'' \<or> meth = ''HEAD''"
  shows "(if pass_in_turn race 0 (pc_done (withTimeout client_gone)) 0 checks
     then fst (Healthz race client_gone checks meth) = fst (Livez meth)
     else \<exists>failed. failed \<noteq> [] \<and> subseq failed (map ck_Name checks) \<and>
       fst (Healthz race client_gone checks meth) = health_writeJSON 503 (json_of_response ''unhealthy'' failed)) \<and>
    Healthz race client_gone (map mask_check checks) meth = Healthz race client_gone checks meth"
proof -
  let ?ctx = "withTimeout client_gone"
  have sub: "subseq (fst (run_checks race i ctx now cs [])) (map ck_Name cs)" for i ctx now cs
  proof (induction cs arbitrary: i now)
    case (Cons c cs)
    obtain e t where r: "runCheck (race i) ctx now c = (e, t)" by fastforce
    show ?case
      using Cons.IH [of "Suc i" t] run_checks_failed [of race "Suc i" ctx t cs "[ck_Name c]"]
      by (cases e) (simp_all add: r list_emb_Cons)
  qed simp
  obtain failed t where f: "run_checks race 0 ?ctx 0 checks [] = (failed, t)" by fastforce
  have "failed = [] \<longleftrightarrow> pass_in_turn race 0 (pc_done ?ctx) 0 checks"
    using run_checks_pass [of 0 ?ctx race 0 checks] f by simp
  then show ?thesis
    using assms sub [of 0 ?ctx 0 checks]
    by (auto simp: Healthz_def Livez_def methodGuard_def f run_checks_mask)
qed

text \<open>A hung disk: the policy is loaded, the audit log does not answer.\<close>

definition example_checks :: "Check list" where
  "example_checks =
     [\<lparr>ck_Name = ''policy'', ck_Fn = (\<lambda>_. Finishes 0 None)\<rparr>, \<lparr>ck_Name = ''audit'', ck_Fn = (\<lambda>_. Hangs)\<rparr>]"

end
