(* ===== verification/HD_Config.thy ===== *)
theory HD_Config
  imports HD_Registries HD_Identity HD_Server HD_PolicyService Go_Duration
begin

text \<open>
  \<^verbatim>\<open>cmd/helmdeep-gateway/config.go\<close>: the configuration of the gateway, how it is read, what is refused, and what is made of
  it. Reading a file is the argument \<open>read_file\<close>, and \<open>yaml_json\<close> is the conversion of YAML to JSON that
  \<^verbatim>\<open>sigs.k8s.io/yaml\<close> does before it decodes with \<^verbatim>\<open>encoding/json\<close>. The texts of decoding errors are left out.
  \<open>filepath_Join\<close> is \<^verbatim>\<open>filepath.Join\<close>.

  The properties say exactly which configurations are accepted, and that an accepted one always gives the parts a gateway
  is built from.
\<close>

section \<open>The configuration\<close>

record signature_config =
  sg_PublicKey :: string
  sg_Manifest :: string

record policy_config =
  plc_Path :: string
  plc_DecisionTimeout :: string
  plc_Signature :: "signature_config option"

record static_token =
  stk_ID :: string
  stk_Kind :: string
  stk_TrustLevel :: int
  stk_Scopes :: "string list"

record jwt_config =
  jwc_Audience :: string
  jwc_JWKSURL :: string
  jwc_ExchangeURL :: string

record identity_config =
  idc_StaticTokens :: "static_token gomap"
  idc_JWT :: "jwt_config option"

record upstream_config =
  upc_Name :: string
  upc_URL :: string
  upc_BearerTokenEnv :: string
  upc_Provenance :: Provenance

record tool_config =
  tlc_ID :: string
  tlc_Upstream :: string
  tlc_Risk :: string
  tlc_DataClasses :: "string list"
  tlc_Scopes :: "string list"

record agent_config =
  agc_ID :: string
  agc_Version :: string
  agc_Owner :: string
  agc_Risk :: string
  agc_DataClasses :: "string list"

record config =
  cfg_Listen :: string
  cfg_Path :: string
  cfg_Policy :: policy_config
  cfg_AuditPath :: string
  cfg_Identity :: identity_config
  cfg_Upstreams :: "upstream_config list"
  cfg_Tools :: "tool_config list"
  cfg_Agents :: "agent_config list"

definition default_config :: config where
  "default_config =
     \<lparr>cfg_Listen = '':8443'', cfg_Path = ''/mcp'',
      cfg_Policy = \<lparr>plc_Path = [], plc_DecisionTimeout = [], plc_Signature = None\<rparr>,
      cfg_AuditPath = [], cfg_Identity = \<lparr>idc_StaticTokens = [], idc_JWT = None\<rparr>,
      cfg_Upstreams = [], cfg_Tools = [], cfg_Agents = []\<rparr>"

section \<open>Decoding\<close>

text \<open>A field that is a struct, and one that is a map of structs: entries are decoded afresh and replace those of their key.\<close>

definition dec_nested :: "'e field list \<Rightarrow> ('r \<Rightarrow> 'e) \<Rightarrow> ('e \<Rightarrow> 'r \<Rightarrow> 'r) \<Rightarrow> json \<Rightarrow> 'r \<Rightarrow> 'r option" where
  "dec_nested fs get put v r = map_option (\<lambda>x. put x r) (dec_struct fs v (get r))"

fun dec_entries :: "(json \<Rightarrow> 'e option) \<Rightarrow> (string \<times> json) list \<Rightarrow> 'e gomap \<Rightarrow> 'e gomap option" where
  "dec_entries f [] m = Some m"
| "dec_entries f ((k, v) # es) m = (case f v of None \<Rightarrow> None | Some x \<Rightarrow> dec_entries f es (gm_upd k x m))"

definition dec_map :: "(json \<Rightarrow> 'e option) \<Rightarrow> ('r \<Rightarrow> 'e gomap) \<Rightarrow> ('e gomap \<Rightarrow> 'r \<Rightarrow> 'r) \<Rightarrow> json \<Rightarrow> 'r \<Rightarrow> 'r option" where
  "dec_map f get put v r =
     (case v of
        JNull \<Rightarrow> Some (put [] r)
      | JObj es \<Rightarrow> map_option (\<lambda>m. put m r) (dec_entries f es (get r))
      | _ \<Rightarrow> None)"

definition signature_fields :: "signature_config field list" where
  "signature_fields =
     [(''public_key'', dec_str (\<lambda>x. sg_PublicKey_update (\<lambda>_. x))), (''manifest'', dec_str (\<lambda>x. sg_Manifest_update (\<lambda>_. x)))]"

definition policy_fields :: "policy_config field list" where
  "policy_fields =
     [(''path'', dec_str (\<lambda>x. plc_Path_update (\<lambda>_. x))),
      (''decision_timeout'', dec_str (\<lambda>x. plc_DecisionTimeout_update (\<lambda>_. x))),
      (''signature'', dec_ptr signature_fields \<lparr>sg_PublicKey = [], sg_Manifest = []\<rparr> plc_Signature (\<lambda>x. plc_Signature_update (\<lambda>_. x)))]"

definition static_token_elem :: "json \<Rightarrow> static_token option" where
  "static_token_elem v =
     dec_struct
       [(''id'', dec_str (\<lambda>x. stk_ID_update (\<lambda>_. x))), (''kind'', dec_str (\<lambda>x. stk_Kind_update (\<lambda>_. x))),
        (''trust_level'', dec_int (\<lambda>x. stk_TrustLevel_update (\<lambda>_. x))), (''scopes'', dec_strs (\<lambda>x. stk_Scopes_update (\<lambda>_. x)))]
       v \<lparr>stk_ID = [], stk_Kind = [], stk_TrustLevel = 0, stk_Scopes = []\<rparr>"

definition jwt_fields :: "jwt_config field list" where
  "jwt_fields =
     [(''audience'', dec_str (\<lambda>x. jwc_Audience_update (\<lambda>_. x))), (''jwks_url'', dec_str (\<lambda>x. jwc_JWKSURL_update (\<lambda>_. x))),
      (''exchange_url'', dec_str (\<lambda>x. jwc_ExchangeURL_update (\<lambda>_. x)))]"

definition identity_fields :: "identity_config field list" where
  "identity_fields =
     [(''static_tokens'', dec_map static_token_elem idc_StaticTokens (\<lambda>x. idc_StaticTokens_update (\<lambda>_. x))),
      (''jwt'', dec_ptr jwt_fields \<lparr>jwc_Audience = [], jwc_JWKSURL = [], jwc_ExchangeURL = []\<rparr> idc_JWT (\<lambda>x. idc_JWT_update (\<lambda>_. x)))]"

definition upstream_elem :: "json \<Rightarrow> upstream_config option" where
  "upstream_elem v =
     dec_struct
       [(''name'', dec_str (\<lambda>x. upc_Name_update (\<lambda>_. x))), (''url'', dec_str (\<lambda>x. upc_URL_update (\<lambda>_. x))),
        (''bearer_token_env'', dec_str (\<lambda>x. upc_BearerTokenEnv_update (\<lambda>_. x))),
        (''provenance'',
           dec_nested [(''source'', dec_str (\<lambda>x. prov_Source_update (\<lambda>_. x))), (''trusted'', dec_bool (\<lambda>x. prov_Trusted_update (\<lambda>_. x)))]
             upc_Provenance (\<lambda>x. upc_Provenance_update (\<lambda>_. x)))]
       v \<lparr>upc_Name = [], upc_URL = [], upc_BearerTokenEnv = [], upc_Provenance = \<lparr>prov_Source = [], prov_Trusted = False\<rparr>\<rparr>"

definition tool_config_elem :: "json \<Rightarrow> tool_config option" where
  "tool_config_elem v =
     dec_struct
       [(''id'', dec_str (\<lambda>x. tlc_ID_update (\<lambda>_. x))), (''upstream'', dec_str (\<lambda>x. tlc_Upstream_update (\<lambda>_. x))),
        (''risk'', dec_str (\<lambda>x. tlc_Risk_update (\<lambda>_. x))), (''data_classes'', dec_strs (\<lambda>x. tlc_DataClasses_update (\<lambda>_. x))),
        (''scopes'', dec_strs (\<lambda>x. tlc_Scopes_update (\<lambda>_. x)))]
       v \<lparr>tlc_ID = [], tlc_Upstream = [], tlc_Risk = [], tlc_DataClasses = [], tlc_Scopes = []\<rparr>"

definition agent_config_elem :: "json \<Rightarrow> agent_config option" where
  "agent_config_elem v =
     dec_struct
       [(''id'', dec_str (\<lambda>x. agc_ID_update (\<lambda>_. x))), (''version'', dec_str (\<lambda>x. agc_Version_update (\<lambda>_. x))),
        (''owner'', dec_str (\<lambda>x. agc_Owner_update (\<lambda>_. x))), (''risk'', dec_str (\<lambda>x. agc_Risk_update (\<lambda>_. x))),
        (''data_classes'', dec_strs (\<lambda>x. agc_DataClasses_update (\<lambda>_. x)))]
       v \<lparr>agc_ID = [], agc_Version = [], agc_Owner = [], agc_Risk = [], agc_DataClasses = []\<rparr>"

definition config_fields :: "config field list" where
  "config_fields =
     [(''listen'', dec_str (\<lambda>x. cfg_Listen_update (\<lambda>_. x))), (''path'', dec_str (\<lambda>x. cfg_Path_update (\<lambda>_. x))),
      (''policy'', dec_nested policy_fields cfg_Policy (\<lambda>x. cfg_Policy_update (\<lambda>_. x))),
      (''audit'', dec_nested [(''path'', dec_str (\<lambda>x _. x))] cfg_AuditPath (\<lambda>x. cfg_AuditPath_update (\<lambda>_. x))),
      (''identity'', dec_nested identity_fields cfg_Identity (\<lambda>x. cfg_Identity_update (\<lambda>_. x))),
      (''upstreams'', dec_slice upstream_elem (\<lambda>x. cfg_Upstreams_update (\<lambda>_. x))),
      (''tools'', dec_slice tool_config_elem (\<lambda>x. cfg_Tools_update (\<lambda>_. x))),
      (''agents'', dec_slice agent_config_elem (\<lambda>x. cfg_Agents_update (\<lambda>_. x)))]"

section \<open>What is made of it\<close>

definition policyManifestPath :: "(string list \<Rightarrow> string) \<Rightarrow> config \<Rightarrow> string" where
  "policyManifestPath filepath_Join c =
     (case plc_Signature (cfg_Policy c) of
        Some sig \<Rightarrow>
          if sg_Manifest sig \<noteq> [] then sg_Manifest sig else DefaultManifestPath filepath_Join (plc_Path (cfg_Policy c))
      | None \<Rightarrow> DefaultManifestPath filepath_Join (plc_Path (cfg_Policy c)))"

definition decisionTimeout :: "config \<Rightarrow> error + int" where
  "decisionTimeout c =
     (if plc_DecisionTimeout (cfg_Policy c) = [] then Inr 0 else parseDuration (plc_DecisionTimeout (cfg_Policy c)))"

definition staticIdentities :: "config \<Rightarrow> (string \<rightharpoonup> StaticIdentity)" where
  "staticIdentities c token =
     map_option (\<lambda>i. \<lparr>si_ID = stk_ID i, si_Kind = stk_Kind i, si_TrustLevel = stk_TrustLevel i, si_Scopes = stk_Scopes i,
         si_AgentVersion = []\<rparr>)
       (map_of (idc_StaticTokens (cfg_Identity c)) token)"

definition upstreamProvenance :: "config \<Rightarrow> (string \<rightharpoonup> Provenance)" where
  "upstreamProvenance c = fold (\<lambda>u out. out(upc_Name u \<mapsto> upc_Provenance u)) (cfg_Upstreams c) Map.empty"

definition toolRegistry :: "config \<Rightarrow> error + ToolRegistry" where
  "toolRegistry c =
     toolregistry_New (map (\<lambda>t. \<lparr>te_ToolID = tlc_ID t, te_Upstream = tlc_Upstream t, te_Risk = tlc_Risk t,
       te_DataClasses = tlc_DataClasses t, te_Scopes = tlc_Scopes t\<rparr>) (cfg_Tools c))"

definition agentRegistry :: "config \<Rightarrow> error + AgentRegistry" where
  "agentRegistry c =
     agentregistry_New (map (\<lambda>a. \<lparr>ae_AgentID = agc_ID a, ae_Version = agc_Version a, ae_Owner = agc_Owner a,
       ae_Risk = agc_Risk a, ae_DataClasses = agc_DataClasses a\<rparr>) (cfg_Agents c))"

section \<open>Reading\<close>

definition config_error :: "string \<Rightarrow> string \<Rightarrow> error" where
  "config_error path what = ''config '' @ path @ '': '' @ what"

text \<open>The checks of \<^verbatim>\<open>loadConfig\<close> in their order; the first that fails is reported.\<close>

definition first_error :: "(bool \<times> error) list \<Rightarrow> error option" where
  "first_error checks = map_option snd (find fst checks)"

definition err_of :: "error + 'a \<Rightarrow> error" where
  "err_of r = (case r of Inl e \<Rightarrow> e | Inr _ \<Rightarrow> [])"

definition failing :: "error + 'a \<Rightarrow> bool" where
  "failing r = (case r of Inl e \<Rightarrow> True | Inr _ \<Rightarrow> False)"

definition config_checks :: "config \<Rightarrow> (bool \<times> error) list" where
  "config_checks c =
     (let pol = cfg_Policy c; hasStatic = 0 < length (idc_StaticTokens (cfg_Identity c)); jwt = idc_JWT (cfg_Identity c);
          hasJWT = (jwt \<noteq> None)
      in [(cfg_Path c = ''/healthz'' \<or> cfg_Path c = ''/livez'',
             ''path '' @ quoteq (cfg_Path c) @ '' is reserved for the health endpoints''),
          (plc_Path pol = [], ''policy.path is required''),
          (cfg_AuditPath c = [], ''audit.path is required''),
          (case plc_Signature pol of None \<Rightarrow> False | Some sig \<Rightarrow> sg_PublicKey sig = [],
             ''policy.signature.public_key is required when policy.signature is set''),
          (list_ex (\<lambda>u. upc_Name u = [] \<or> upc_URL u = []) (cfg_Upstreams c), ''every upstream needs a name and url''),
          (failing (decisionTimeout c), ''policy.decision_timeout: '' @ err_of (decisionTimeout c)),
          (failing (toolRegistry c), ''tools: '' @ err_of (toolRegistry c)),
          (failing (agentRegistry c), ''agents: '' @ err_of (agentRegistry c)),
          (hasStatic \<and> hasJWT, ''identity.static_tokens and identity.jwt are mutually exclusive''),
          (\<not> hasStatic \<and> \<not> hasJWT, ''identity.static_tokens or identity.jwt is required''),
          (case jwt of None \<Rightarrow> False | Some j \<Rightarrow> jwc_Audience j = [], ''identity.jwt.audience is required''),
          (case jwt of None \<Rightarrow> False | Some j \<Rightarrow> jwc_JWKSURL j = [], ''identity.jwt.jwks_url is required'')])"

definition loadConfig :: "(string \<Rightarrow> error + string) \<Rightarrow> (string \<Rightarrow> error + json) \<Rightarrow> string \<Rightarrow> error + config" where
  "loadConfig read_file yaml_json path =
     (case read_file path of
        Inl err \<Rightarrow> Inl (''read config '' @ path @ '': '' @ err)
      | Inr content \<Rightarrow>
          (case yaml_json content of
             Inl err \<Rightarrow> Inl (''parse config '' @ path @ '': '' @ err)
           | Inr v \<Rightarrow>
               (case dec_struct config_fields v default_config of
                  None \<Rightarrow> Inl (''parse config '' @ path @ '': '')
                | Some cfg \<Rightarrow>
                    (case first_error (config_checks cfg) of
                       Some what \<Rightarrow> Inl (config_error path what)
                     | None \<Rightarrow> Inr cfg))))"

section \<open>Well-formed configurations\<close>

definition tools_ok :: "tool_config list \<Rightarrow> bool" where
  "tools_ok ts \<longleftrightarrow> list_all (\<lambda>t. tlc_ID t \<noteq> [] \<and> risk_valid (tlc_Risk t)) ts \<and> distinct (map tlc_ID ts)"

definition agents_ok :: "agent_config list \<Rightarrow> bool" where
  "agents_ok as \<longleftrightarrow> list_all (\<lambda>a. agc_ID a \<noteq> []) as \<and> distinct (map agc_ID as)"

text \<open>Exactly one source of identities, and a complete one.\<close>

definition identity_ok :: "identity_config \<Rightarrow> bool" where
  "identity_ok i \<longleftrightarrow>
     (case idc_JWT i of
        None \<Rightarrow> idc_StaticTokens i \<noteq> []
      | Some j \<Rightarrow> idc_StaticTokens i = [] \<and> jwc_Audience j \<noteq> [] \<and> jwc_JWKSURL j \<noteq> [])"

definition config_ok :: "config \<Rightarrow> bool" where
  "config_ok c \<longleftrightarrow>
     cfg_Path c \<notin> {''/healthz'', ''/livez''} \<and> plc_Path (cfg_Policy c) \<noteq> [] \<and> cfg_AuditPath c \<noteq> [] \<and>
     (case plc_Signature (cfg_Policy c) of None \<Rightarrow> True | Some sig \<Rightarrow> sg_PublicKey sig \<noteq> []) \<and>
     list_all (\<lambda>u. upc_Name u \<noteq> [] \<and> upc_URL u \<noteq> []) (cfg_Upstreams c) \<and>
     (plc_DecisionTimeout (cfg_Policy c) = [] \<or> (\<exists>d. parseDuration (plc_DecisionTimeout (cfg_Policy c)) = Inr d)) \<and>
     tools_ok (cfg_Tools c) \<and> agents_ok (cfg_Agents c) \<and> identity_ok (cfg_Identity c)"

lemma not_failing: "\<not> failing r \<longleftrightarrow> (\<exists>x. r = Inr x)"
  by (cases r) (auto simp: failing_def)

lemma first_error_None: "first_error checks = None \<longleftrightarrow> list_all (\<lambda>c. \<not> fst c) checks"
  unfolding first_error_def list_all_iff by (simp only: option.map_disc_iff find_None_iff) blast

lemma toolRegistry_iff: "(\<exists>r. toolRegistry c = Inr r) \<longleftrightarrow> tools_ok (cfg_Tools c)"
proof -
  let ?es = "map (\<lambda>t. \<lparr>te_ToolID = tlc_ID t, te_Upstream = tlc_Upstream t, te_Risk = tlc_Risk t,
       te_DataClasses = tlc_DataClasses t, te_Scopes = tlc_Scopes t\<rparr>) (cfg_Tools c)"
  have "(\<exists>r. toolregistry_New ?es = Inr r) \<longleftrightarrow> (\<exists>n. toolregistry_loop ?es Map.empty = Inr n)"
    by (auto simp: toolregistry_New_def split: sum.splits)
  then show ?thesis
    by (auto simp: toolRegistry_def tools.loop_accepts tools_ok_def tool_entry_error_def list_all_iff comp_def)
qed

lemma agentRegistry_iff: "(\<exists>r. agentRegistry c = Inr r) \<longleftrightarrow> agents_ok (cfg_Agents c)"
proof -
  let ?es = "map (\<lambda>a. \<lparr>ae_AgentID = agc_ID a, ae_Version = agc_Version a, ae_Owner = agc_Owner a,
       ae_Risk = agc_Risk a, ae_DataClasses = agc_DataClasses a\<rparr>) (cfg_Agents c)"
  have "(\<exists>r. agentregistry_New ?es = Inr r) \<longleftrightarrow> (\<exists>n. agentregistry_loop ?es Map.empty = Inr n)"
    by (auto simp: agentregistry_New_def split: sum.splits)
  then show ?thesis
    by (auto simp: agentRegistry_def agents.loop_accepts agents_ok_def agent_entry_error_def list_all_iff comp_def)
qed

lemma identity_checks:
  "\<not> (idc_StaticTokens i \<noteq> [] \<and> idc_JWT i \<noteq> None) \<and> \<not> (idc_StaticTokens i = [] \<and> idc_JWT i = None) \<and>
   (case idc_JWT i of None \<Rightarrow> True | Some j \<Rightarrow> jwc_Audience j \<noteq> []) \<and>
   (case idc_JWT i of None \<Rightarrow> True | Some j \<Rightarrow> jwc_JWKSURL j \<noteq> []) \<longleftrightarrow> identity_ok i"
  by (auto simp: identity_ok_def split: option.splits)

lemma decisionTimeout_iff:
  "(\<exists>d. decisionTimeout c = Inr d) \<longleftrightarrow>
     plc_DecisionTimeout (cfg_Policy c) = [] \<or> (\<exists>d. parseDuration (plc_DecisionTimeout (cfg_Policy c)) = Inr d)"
  by (simp add: decisionTimeout_def)

lemma failing_parts:
  "failing (toolRegistry c) \<longleftrightarrow> \<not> tools_ok (cfg_Tools c)" "failing (agentRegistry c) \<longleftrightarrow> \<not> agents_ok (cfg_Agents c)"
  "failing (decisionTimeout c) \<longleftrightarrow>
     \<not> (plc_DecisionTimeout (cfg_Policy c) = [] \<or> (\<exists>d. parseDuration (plc_DecisionTimeout (cfg_Policy c)) = Inr d))"
  using not_failing toolRegistry_iff agentRegistry_iff decisionTimeout_iff by metis+

lemma config_checks_iff: "first_error (config_checks c) = None \<longleftrightarrow> config_ok c"
  unfolding first_error_None config_checks_def config_ok_def Let_def identity_checks [symmetric] failing_parts
  by (auto simp: list_all_iff list_ex_iff split: option.splits)

lemma loadConfig_iff:
  "loadConfig read_file yaml_json path = Inr cfg \<longleftrightarrow>
     (\<exists>content v. read_file path = Inr content \<and> yaml_json content = Inr v \<and>
        dec_struct config_fields v default_config = Some cfg \<and> config_ok cfg)"
  using config_checks_iff by (fastforce simp: loadConfig_def split: sum.splits option.splits)

lemma config_ok_parts:
  assumes "config_ok cfg"
  shows "\<exists>timeout toolReg agentReg. decisionTimeout cfg = Inr timeout \<and> toolRegistry cfg = Inr toolReg \<and>
    agentRegistry cfg = Inr agentReg \<and> - (2 ^ 63) \<le> timeout \<and> timeout < 2 ^ 63"
proof -
  obtain timeout toolReg agentReg where p: "decisionTimeout cfg = Inr timeout" "toolRegistry cfg = Inr toolReg"
      "agentRegistry cfg = Inr agentReg"
    using assms decisionTimeout_iff [of cfg] toolRegistry_iff [of cfg] agentRegistry_iff [of cfg]
    unfolding config_ok_def by blast
  moreover from p(1) have "- (2 ^ 63) \<le> timeout \<and> timeout < 2 ^ 63"
    by (auto simp: decisionTimeout_def dest: parseDuration_range split: if_splits)
  ultimately show ?thesis by blast
qed

section \<open>Properties\<close>

text \<open>C35. A configuration is accepted exactly when its file can be read and decoded over the defaults and it is well formed: the path of the endpoint is
  not one of the health endpoints, the policy, the audit log and, where signatures are required, the key are named,
  upstreams have names and URLs, tools and agents are declared once with the fields they need, and there is
  exactly one source of identities, complete. What is accepted is exactly what was decoded, and it
  gives all the parts a gateway is built from, the decision timeout within the range of its type.\<close>

theorem loadConfig_well_formed:
  "loadConfig read_file yaml_json path = Inr cfg \<longleftrightarrow>
     (\<exists>content v. read_file path = Inr content \<and> yaml_json content = Inr v \<and>
        dec_struct config_fields v default_config = Some cfg \<and> config_ok cfg \<and>
        (\<exists>timeout toolReg agentReg. decisionTimeout cfg = Inr timeout \<and> toolRegistry cfg = Inr toolReg \<and>
           agentRegistry cfg = Inr agentReg \<and> - (2 ^ 63) \<le> timeout \<and> timeout < 2 ^ 63))"
  using loadConfig_iff [of read_file yaml_json path cfg] config_ok_parts [of cfg] by blast

text \<open>An example: a signed policy, one upstream, one tool, one agent, a token issuer; the defaults for the rest.\<close>

definition example_config_json :: json where
  "example_config_json =
     JObj [(''policy'', JObj [(''path'', JStr ''policies''), (''decision_timeout'', JStr ''200ms''),
         (''signature'', JObj [(''public_key'', JStr ''policy.pub''), (''manifest'', JStr ''m.json'')])]), (''audit'', JObj [(''path'', JStr ''a.jsonl'')]),
       (''identity'', JObj [(''jwt'', JObj [(''audience'', JStr ''gw''), (''jwks_url'', JStr ''http://i'')])]),
       (''upstreams'', JArr [JObj [(''name'', JStr ''crm''), (''url'', JStr ''http://c'')]]),
       (''tools'', JArr [JObj [(''id'', JStr ''lookup''), (''risk'', JStr ''low'')]]), (''agents'', JArr [JObj [(''id'', JStr ''bot'')]])]"

definition example_config :: config where
  "example_config = default_config\<lparr>cfg_Policy := \<lparr>plc_Path = ''policies'', plc_DecisionTimeout = ''200ms'',
       plc_Signature = Some \<lparr>sg_PublicKey = ''policy.pub'', sg_Manifest = ''m.json''\<rparr>\<rparr>,
     cfg_AuditPath := ''a.jsonl'',
     cfg_Identity := \<lparr>idc_StaticTokens = [], idc_JWT = Some \<lparr>jwc_Audience = ''gw'', jwc_JWKSURL = ''http://i'', jwc_ExchangeURL = []\<rparr>\<rparr>,
     cfg_Upstreams := [\<lparr>upc_Name = ''crm'', upc_URL = ''http://c'', upc_BearerTokenEnv = [],
       upc_Provenance = \<lparr>prov_Source = [], prov_Trusted = False\<rparr>\<rparr>],
     cfg_Tools := [\<lparr>tlc_ID = ''lookup'', tlc_Upstream = [], tlc_Risk = ''low'', tlc_DataClasses = [], tlc_Scopes = []\<rparr>],
     cfg_Agents := [\<lparr>agc_ID = ''bot'', agc_Version = [], agc_Owner = [], agc_Risk = [], agc_DataClasses = []\<rparr>]\<rparr>"

lemma example_config_decodes: "dec_struct config_fields example_config_json default_config = Some example_config"
  by (simp add: example_config_json_def example_config_def default_config_def config_fields_def policy_fields_def signature_fields_def identity_fields_def
      jwt_fields_def dec_nested_def dec_ptr_def upstream_elem_def tool_config_elem_def agent_config_elem_def dec_simps)

lemma example_config_ok: "config_ok example_config"
proof -
  have "show_nat 200 @ ''ms'' = ''200ms''" by code_simp
  moreover have "parseDuration (show_nat 200 @ ''ms'') = Inr (int (200 * 10 ^ 6))"
    by (rule parse_whole) (simp_all add: unit_ns_def unit_char_def is_digit_def)
  ultimately have "\<exists>d. parseDuration ''200ms'' = Inr d" by auto
  then show ?thesis
    by (simp add: config_ok_def example_config_def default_config_def tools_ok_def agents_ok_def identity_ok_def risk_valid_def RiskLow_def)
qed

lemma example_loadConfig: "read_file path = Inr content \<Longrightarrow> loadConfig read_file (\<lambda>_. Inr example_config_json) path = Inr example_config"
  by (simp add: loadConfig_iff example_config_decodes example_config_ok)

end
