(* ===== verification/HD_Serve.thy ===== *)
theory HD_Serve
  imports HD_Config HD_Health HD_Gateway HD_Client HD_Bundles
begin

text \<open>
  \<^verbatim>\<open>cmd/helmdeep-gateway/main.go\<close>: how \<^verbatim>\<open>serve\<close> puts the components together, and \<^verbatim>\<open>verify-chain\<close>. Everything outside the
  repository that the process touches is a field of the record \<open>platform\<close>: files, the network, the clock, the
  cryptographic and policy libraries. What the network and the disk answer may depend on a state \<open>'x\<close> of the outside. A running
  process keeps the policy loader, the audit store and the outside (\<open>proc\<close>), beside what the gateway keeps itself
  (\<open>gw_state\<close>). Flags are given as parsed; log output is not modelled. How serving ends is in
  \<open>HD_Lifecycle\<close> and \<open>HD_Main\<close>.
\<close>

section \<open>The process\<close>

text \<open>The decision point, loaded plainly or through the verifying loader.\<close>

datatype 'pq policy_state = Unverified "'pq OPADecider" | Verified "'pq OPADecider VerifyingLoader"

definition decider :: "'pq policy_state \<Rightarrow> 'pq OPADecider" where
  "decider p = (case p of Unverified d \<Rightarrow> d | Verified l \<Rightarrow> vl_inner l)"

record ('pq, 'x) proc =
  pr_policy :: "'pq policy_state"
  pr_audit :: FileStore
  pr_outside :: 'x

record ('pq, 'keys, 'x) platform =
  pl_files :: files
  pl_yaml :: "string \<Rightarrow> error + json"
  pl_join :: "string list \<Rightarrow> string"
  pl_getenv :: "string \<Rightarrow> string"
  pl_jwks :: "string \<Rightarrow> error + 'keys"
  pl_jwt_parse :: "'keys jwt_parse"
  pl_pem_decode :: "string \<Rightarrow> (string \<times> string) option"
  pl_parse_pkix :: "string \<Rightarrow> error + parsed_key"
  pl_sha256 :: "string \<Rightarrow> string"
  pl_ed_verify :: "string \<Rightarrow> string \<Rightarrow> string \<Rightarrow> bool"
  pl_bundles :: bundles
  pl_compile :: "string \<Rightarrow> error + 'pq"
  pl_audit_file :: "string \<Rightarrow> string option"
  pl_open_io :: open_io
  pl_eval :: "int option \<Rightarrow> 'x \<Rightarrow> 'pq rego_eval"
  pl_append_io :: "('x, append_io) state"
  pl_send :: "'x http_send"
  pl_post :: "string \<Rightarrow> (string \<times> string) list \<Rightarrow> ('x, http_result) state"
  pl_rand :: "('x, string option) state"
  pl_clock :: "('x, gotime) state"

definition outside :: "('x, 'a) state \<Rightarrow> (('pq, 'x) proc, 'a) state" where
  "outside m = State (\<lambda>p. case run_state m (pr_outside p) of (a, x) \<Rightarrow> (a, p\<lparr>pr_outside := x\<rparr>))"

section \<open>Identity\<close>

datatype 'keys identity_source =
    FromJWT "'keys JWTResolver" "HTTPCredentialBroker option"
  | FromTokens StaticTokenResolver

definition insecure_error :: error where
  "insecure_error = ''identity.static_tokens is configured but -dev-insecure was not passed; static-token identity is unverifiable and must not run without an explicit opt-in''"

definition checkDevInsecureGate :: "config \<Rightarrow> bool \<Rightarrow> error option" where
  "checkDevInsecureGate cfg devInsecure =
     (if 0 < length (idc_StaticTokens (cfg_Identity cfg)) \<and> \<not> devInsecure then Some insecure_error else None)"

definition open_identity :: "('pq, 'keys, 'x) platform \<Rightarrow> config \<Rightarrow> bool \<Rightarrow> error + 'keys identity_source" where
  "open_identity pl cfg devInsecure =
     (case idc_JWT (cfg_Identity cfg) of
        Some j \<Rightarrow>
          (case pl_jwks pl (jwc_JWKSURL j) of
             Inl err \<Rightarrow> Inl (''fetch identity.jwt.jwks_url '' @ jwc_JWKSURL j @ '': '' @ err)
           | Inr keySet \<Rightarrow>
               Inr (FromJWT (NewJWTResolver keySet (jwc_Audience j))
                 (if jwc_ExchangeURL j \<noteq> [] then Some (NewHTTPCredentialBroker (jwc_ExchangeURL j)) else None)))
      | None \<Rightarrow>
          if 0 < length (idc_StaticTokens (cfg_Identity cfg)) then
            (case checkDevInsecureGate cfg devInsecure of
               Some err \<Rightarrow> Inl err
             | None \<Rightarrow> Inr (FromTokens (NewStaticTokenResolver (staticIdentities cfg))))
          else Inl ''no identity source configured'')"

definition source_Resolve ::
  "('pq, 'keys, 'x) platform \<Rightarrow> 'keys identity_source \<Rightarrow> string \<Rightarrow> (('pq, 'x) proc, error + Subject) state" where
  "source_Resolve pl src credential =
     (case src of
        FromJWT r b \<Rightarrow>
          do {
            now \<leftarrow> outside (pl_clock pl);
            State_Monad.return (JWTResolver_Resolve (pl_jwt_parse pl) r now credential)
          }
      | FromTokens r \<Rightarrow> State_Monad.return (StaticTokenResolver_Resolve r credential))"

text \<open>The broker asks its endpoint once.\<close>

definition source_broker ::
  "('pq, 'keys, 'x) platform \<Rightarrow> 'keys identity_source \<Rightarrow> (string \<Rightarrow> string \<Rightarrow> string \<Rightarrow> (('pq, 'x) proc, error + string) state) option" where
  "source_broker pl src =
     (case src of
        FromJWT r (Some b) \<Rightarrow>
          Some (\<lambda>sit upstream tool.
            do {
              resp \<leftarrow> outside (pl_post pl (hb_endpoint b) (exchange_form sit upstream tool));
              State_Monad.return (HTTPCredentialBroker_Exchange (\<lambda>_ _. resp) b sit upstream tool)
            })
      | _ \<Rightarrow> None)"

section \<open>Policy\<close>

definition platform_env :: "('pq, 'keys, 'x) platform \<Rightarrow> (string \<Rightarrow> error + 'pq) load_env" where
  "platform_env pl = \<lparr>le_files = pl_files pl, le_bundles = pl_bundles pl, le_inner = pl_compile pl\<rparr>"

definition policy_Load ::
  "('pq, 'keys, 'x) platform \<Rightarrow> (string \<Rightarrow> error + 'pq) load_env \<Rightarrow> string \<Rightarrow> 'pq policy_state \<Rightarrow> error option \<times> 'pq policy_state" where
  "policy_Load pl env path p =
     (case p of
        Unverified d \<Rightarrow> map_prod id Unverified (OPADecider_Load (le_inner env) path d)
      | Verified l \<Rightarrow> map_prod id Verified (VerifyingLoader_Load (pl_sha256 pl) (pl_ed_verify pl) OPADecider_Load env path l))"

definition policy_Reload ::
  "('pq, 'keys, 'x) platform \<Rightarrow> (string \<Rightarrow> error + 'pq) load_env \<Rightarrow> 'pq policy_state \<Rightarrow> error option \<times> 'pq policy_state" where
  "policy_Reload pl env p =
     (case p of
        Unverified d \<Rightarrow> map_prod id Unverified (OPADecider_Reload (le_inner env) d)
      | Verified l \<Rightarrow> map_prod id Verified (VerifyingLoader_Reload (pl_sha256 pl) (pl_ed_verify pl) OPADecider_Load env l))"

definition open_policy :: "('pq, 'keys, 'x) platform \<Rightarrow> config \<Rightarrow> error + 'pq policy_state" where
  "open_policy pl cfg =
     (case (case plc_Signature (cfg_Policy cfg) of
              None \<Rightarrow> Inr (Unverified NewOPADecider)
            | Some sig \<Rightarrow>
                (case ReadPublicKey (pl_pem_decode pl) (pl_parse_pkix pl) (pl_files pl) (sg_PublicKey sig) of
                   Inl err \<Rightarrow> Inl (''read policy.signature.public_key: '' @ err)
                 | Inr pub \<Rightarrow> Inr (Verified (NewVerifyingLoader NewOPADecider (policyManifestPath (pl_join pl) cfg) pub)))) of
        Inl err \<Rightarrow> Inl err
      | Inr p \<Rightarrow>
          (case policy_Load pl (platform_env pl) (plc_Path (cfg_Policy cfg)) p of
             (Some err, _) \<Rightarrow> Inl (''load policy: '' @ err)
           | (None, p') \<Rightarrow> Inr p'))"

definition serve_Decide ::
  "('pq, 'keys, 'x) platform \<Rightarrow> int option \<Rightarrow> DecisionRequest \<Rightarrow> (('pq, 'x) proc, error + DecisionResponse) state" where
  "serve_Decide pl timeout req =
     gets_state (\<lambda>p. Inr (OPADecider_Decide (pl_eval pl timeout (pr_outside p)) (decider (pr_policy p)) req))"

section \<open>Audit\<close>

definition serve_Append :: "('pq, 'keys, 'x) platform \<Rightarrow> ActionRecord \<Rightarrow> (('pq, 'x) proc, error option) state" where
  "serve_Append pl rec =
     do {
       io \<leftarrow> outside (pl_append_io pl);
       State (\<lambda>p.
         case (case pr_policy p of
                 Verified l \<Rightarrow>
                   StampingStore_Append (FileStore_Append (pl_sha256 pl) io) (VerifyingLoader_Active l) rec (pr_audit p)
               | Unverified d \<Rightarrow> FileStore_Append (pl_sha256 pl) io rec (pr_audit p)) of
           (err, s) \<Rightarrow> (err, p\<lparr>pr_audit := s\<rparr>))
     }"

section \<open>\<^verbatim>\<open>serve\<close>\<close>

definition open_upstreams :: "('pq, 'keys, 'x) platform \<Rightarrow> config \<Rightarrow> ('pq, 'x) proc Upstream list" where
  "open_upstreams pl cfg =
     map (\<lambda>u. http_upstream (\<lambda>url req. outside (pl_send pl url req)) (outside (pl_rand pl))
         (NewHTTPUpstream (upc_Name u) (upc_URL u) (if upc_BearerTokenEnv u \<noteq> [] then pl_getenv pl (upc_BearerTokenEnv u) else [])))
       (cfg_Upstreams cfg)"

record ('pq, 'x) running =
  rn_cfg :: config
  rn_gateway :: "('pq, 'x) proc Gateway"
  rn_server :: "('pq, 'x) proc gw_state Server"

definition gateway_handler :: "map_order \<Rightarrow> 'w Gateway \<Rightarrow> 'w gw_state Handler" where
  "gateway_handler ord g = \<lparr>h_ListTools = ListTools g, h_CallTool = CallTool ord g\<rparr>"

definition serve_version :: string where
  "serve_version = ''dev''"

definition build_gateway ::
  "('pq, 'keys, 'x) platform \<Rightarrow> config \<Rightarrow> 'keys identity_source \<Rightarrow> ('pq, 'x) proc StaticRegistry \<Rightarrow> int \<Rightarrow> ToolRegistry \<Rightarrow> AgentRegistry \<Rightarrow>
     ('pq, 'x) proc \<Rightarrow> ('pq, 'x) proc Gateway \<times> ('pq, 'x) proc gw_state" where
  "build_gateway pl cfg src registry timeout toolReg agentReg p =
     gateway_New (source_Resolve pl src) (serve_Decide pl) (serve_Append pl) registry (upstreamProvenance cfg) timeout
       (source_broker pl src) toolReg agentReg (outside (pl_clock pl)) p"

definition start_gateway ::
  "map_order \<Rightarrow> ('pq, 'keys, 'x) platform \<Rightarrow> config \<Rightarrow> 'keys identity_source \<Rightarrow> ('pq, 'x) proc \<Rightarrow>
     error + ('pq, 'x) running \<times> ('pq, 'x) proc gw_state" where
  "start_gateway ord pl cfg src p =
     (case run_state (NewStaticRegistry (open_upstreams pl cfg)) p of
        (Inl err, _) \<Rightarrow> Inl (''reach configured upstreams: '' @ err)
      | (Inr registry, p') \<Rightarrow>
          (case decisionTimeout cfg of
             Inl err \<Rightarrow> Inl err
           | Inr timeout \<Rightarrow>
               (case toolRegistry cfg of
                  Inl err \<Rightarrow> Inl err
                | Inr toolReg \<Rightarrow>
                    (case agentRegistry cfg of
                       Inl err \<Rightarrow> Inl err
                     | Inr agentReg \<Rightarrow>
                         (case build_gateway pl cfg src registry timeout toolReg agentReg p' of
                            (g, s) \<Rightarrow>
                              Inr (\<lparr>rn_cfg = cfg, rn_gateway = g,
                                    rn_server = \<lparr>sv_AllowedOrigins = [], sv_handler = gateway_handler ord g, sv_version = serve_version\<rparr>\<rparr>,
                                   s))))))"

definition runServe ::
  "map_order \<Rightarrow> ('pq, 'keys, 'x) platform \<Rightarrow> string \<Rightarrow> bool \<Rightarrow> 'x \<Rightarrow> error + ('pq, 'x) running \<times> ('pq, 'x) proc gw_state" where
  "runServe ord pl configPath devInsecure x =
     (case loadConfig (pl_files pl) (pl_yaml pl) configPath of
        Inl err \<Rightarrow> Inl err
      | Inr cfg \<Rightarrow>
          (case open_identity pl cfg devInsecure of
             Inl err \<Rightarrow> Inl err
           | Inr src \<Rightarrow>
               (case open_policy pl cfg of
                  Inl err \<Rightarrow> Inl err
                | Inr pol \<Rightarrow>
                    (case NewFileStore (pl_open_io pl) (cfg_AuditPath cfg) (pl_audit_file pl (cfg_AuditPath cfg)) of
                       Inl err \<Rightarrow> Inl (''open audit log: '' @ err)
                     | Inr fileStore \<Rightarrow>
                         start_gateway ord pl cfg src \<lparr>pr_policy = pol, pr_audit = fileStore, pr_outside = x\<rparr>))))"

section \<open>Routes\<close>

text \<open>
  \<^verbatim>\<open>NewServer\<close> and \<^verbatim>\<open>Mount\<close>: the endpoint at the configured path and the two health endpoints on one mux. A pattern
  that ends in a slash also takes the paths below it, unless a more specific one does; patterns with hosts, methods or
  wildcards are not modelled, nor is the panic of the mux on a pattern it refuses, as the empty path. The health checks see the state of the process; \<open>latency\<close> is how long the disk takes
  to answer, if it does.
\<close>

datatype route = ToMCP | ToLivez | ToHealthz | ToNotFound

definition mux_route :: "config \<Rightarrow> string \<Rightarrow> route" where
  "mux_route cfg path =
     (if path = ''/livez'' then ToLivez
      else if path = ''/healthz'' then ToHealthz
      else if path = cfg_Path cfg \<or> hasSuffix (cfg_Path cfg) ''/'' \<and> hasPrefix path (cfg_Path cfg) then ToMCP
      else ToNotFound)"

definition serve_checks :: "probe_ctx \<Rightarrow> nat option \<Rightarrow> append_io \<Rightarrow> ('pq, 'x) proc \<Rightarrow> Check list" where
  "serve_checks ctx latency io p =
     [\<lparr>ck_Name = ''policy'', ck_Fn = (\<lambda>_. Finishes 0 (OPADecider_Ready (decider (pr_policy p))))\<rparr>,
      \<lparr>ck_Name = ''audit'', ck_Fn = (\<lambda>now.
         case latency of
           None \<Rightarrow> Hangs
         | Some d \<Rightarrow> Finishes d (fst (FileStore_Check (if pc_done ctx \<le> now then Some (pc_err ctx) else None) io (pr_audit p))))\<rparr>]"

section \<open>\<^verbatim>\<open>verify-chain\<close>\<close>

datatype chain_report = ChainError error | ChainBroken verify_error | ChainIntact string

definition runVerifyChain :: "('pq, 'keys, 'x) platform \<Rightarrow> string \<Rightarrow> chain_report" where
  "runVerifyChain pl configPath =
     (case loadConfig (pl_files pl) (pl_yaml pl) configPath of
        Inl err \<Rightarrow> ChainError err
      | Inr cfg \<Rightarrow>
          (case NewFileStore (pl_open_io pl) (cfg_AuditPath cfg) (pl_audit_file pl (cfg_AuditPath cfg)) of
             Inl err \<Rightarrow> ChainError (''open audit log: '' @ err)
           | Inr store \<Rightarrow>
               (case FileStore_Verify (pl_sha256 pl) store of
                  Some err \<Rightarrow> ChainBroken err
                | None \<Rightarrow> ChainIntact (cfg_AuditPath cfg))))"

section \<open>The running system\<close>

text \<open>
  What happens to a running gateway: a request on its endpoint, the reload on a hangup signal, in whatever state the
  disk is then, and the audit check of a readiness probe. A step is a whole request. Steps carry what a reload
  found on the disk, so that a history knows every load the process has made.
\<close>

type_synonym 'pq disk = "(string \<Rightarrow> error + 'pq) load_env"

inductive serve_step ::
  "('pq, 'keys, 'x) platform \<Rightarrow> ('pq, 'x) running \<Rightarrow> ('pq, 'x) proc gw_state \<Rightarrow> 'pq disk list \<Rightarrow> ('pq, 'x) proc gw_state \<Rightarrow> bool"
  for pl :: "('pq, 'keys, 'x) platform" and r :: "('pq, 'x) running"
where
  request: "run_state (serveHTTP rnd (rn_server r) req) s = (resp, s') \<Longrightarrow> serve_step pl r s [] s'"
| reload: "policy_Reload pl env (pr_policy (gs_world s)) = (err, pol) \<Longrightarrow>
    serve_step pl r s [env] (s\<lparr>gs_world := gs_world s\<lparr>pr_policy := pol\<rparr>\<rparr>)"
| probe: "FileStore_Check ctxErr io (pr_audit (gs_world s)) = (err, st) \<Longrightarrow>
    serve_step pl r s [] (s\<lparr>gs_world := gs_world s\<lparr>pr_audit := st\<rparr>\<rparr>)"

inductive served ::
  "('pq, 'keys, 'x) platform \<Rightarrow> ('pq, 'x) running \<Rightarrow> ('pq, 'x) proc gw_state \<Rightarrow> 'pq disk list \<Rightarrow> ('pq, 'x) proc gw_state \<Rightarrow> bool"
  for pl :: "('pq, 'keys, 'x) platform" and r :: "('pq, 'x) running" and s :: "('pq, 'x) proc gw_state"
where
  started: "served pl r s [] s"
| stepped: "served pl r s disks t \<Longrightarrow> serve_step pl r t disks' u \<Longrightarrow> served pl r s (disks @ disks') u"

end
