(* ===== verification/HD_Frame.thy ===== *)
theory HD_Frame
  imports HD_Mediation HD_Server
begin

text \<open>
  What the gateway's operations keep of the outside world. A relation between worlds that is a preorder and that every
  operation the gateway is wired to respects is respected by \<^verbatim>\<open>CallTool\<close>, by \<^verbatim>\<open>ListTools\<close> and by every request on a
  server whose handler is the gateway. The locale states this once; it is interpreted for the process of the
  gateway binary, and for the traced gateway, whose world carries the effects written down so far.
\<close>

definition keeps :: "('w \<Rightarrow> 'w \<Rightarrow> bool) \<Rightarrow> ('w gw_state, 'a) state \<Rightarrow> bool" where
  "keeps R m \<longleftrightarrow> (\<forall>s. R (gs_world s) (gs_world (snd (run_state m s))))"

named_theorems framing \<open>programs that respect the relation\<close>

locale gateway_frame =
  fixes g :: "'w Gateway" and R :: "'w \<Rightarrow> 'w \<Rightarrow> bool"
  assumes R_refl: "R w w"
    and R_trans: "R u v \<Longrightarrow> R v w \<Longrightarrow> R u w"
    and R_identity: "R w (snd (run_state (gw_identity g c) w))"
    and R_pdp: "R w (snd (run_state (gw_pdp g timeout req) w))"
    and R_auditLog: "R w (snd (run_state (gw_auditLog g rec) w))"
    and R_now: "R w (snd (run_state (gw_now g) w))"
    and R_broker: "gw_broker g = Some x \<Longrightarrow> R w (snd (run_state (x sit dest tool) w))"
    and R_upstream: "StaticRegistry_Resolve (gw_registry g) name = Some up \<Longrightarrow> R w (snd (run_state (up_CallTool up tc) w))"
begin

lemma keeps_return [framing]: "keeps R (State_Monad.return x)"
  by (simp add: keeps_def R_refl)

lemma keeps_bind [framing]: "keeps R m \<Longrightarrow> (\<And>x. keeps R (f x)) \<Longrightarrow> keeps R (State_Monad.bind m f)"
proof -
  assume m: "keeps R m" and f: "\<And>x. keeps R (f x)"
  show ?thesis
    unfolding keeps_def
  proof
    fix s
    obtain x t where mt: "run_state m s = (x, t)" by fastforce
    have "R (gs_world s) (gs_world t)" using m mt unfolding keeps_def by (metis snd_conv)
    moreover have "R (gs_world t) (gs_world (snd (run_state (f x) t)))" using f unfolding keeps_def by blast
    ultimately show "R (gs_world s) (gs_world (snd (run_state (State_Monad.bind m f) s)))"
      using R_trans mt by simp
  qed
qed

lemma keeps_world: "(\<And>w. R w (snd (run_state m w))) \<Longrightarrow> keeps R (world m)"
  by (simp add: keeps_def world_def split: prod.splits) (metis snd_conv)

lemma keeps_gets [framing]: "keeps R (gets_state f)"
  by (simp add: keeps_def gets_state_def R_refl)

lemma keeps_modify [framing]: "keeps R (modify_state (gs_prov_update f))"
  by (simp add: keeps_def modify_state_def R_refl)

lemma keeps_count [framing]: "keeps R (count_usage i now)"
  by (simp add: keeps_def count_usage_def R_refl split: prod.splits)

lemma keeps_sum [framing]:
  "(\<And>e. keeps R (f e)) \<Longrightarrow> (\<And>y. keeps R (h y)) \<Longrightarrow> keeps R (case x of Inl e \<Rightarrow> f e | Inr y \<Rightarrow> h y)"
  by (cases x) auto

lemma keeps_option [framing]: "keeps R m \<Longrightarrow> (\<And>y. keeps R (f y)) \<Longrightarrow> keeps R (case x of None \<Rightarrow> m | Some y \<Rightarrow> f y)"
  by (cases x) auto

lemma keeps_if [framing]: "keeps R m \<Longrightarrow> keeps R n \<Longrightarrow> keeps R (if b then m else n)"
  by simp

lemma keeps_ops [framing]:
  "keeps R (world (gw_identity g c))" "keeps R (world (gw_auditLog g rec))" "keeps R (world (gw_now g))"
  "keeps R (world (gateway_decide g req))"
  by (auto intro!: keeps_world simp: R_identity R_auditLog R_now R_pdp gateway_decide_def)

lemma keeps_fail [framing]: "keeps R (fail_call g s a d reason)"
  unfolding fail_call_def by (intro framing)

lemma keeps_refusals [framing]:
  "keeps R (denyWithoutSubject g name p reason now)" "keeps R (denyUndeclaredAgent g s name reason now)"
  "keeps R (denyUndeclaredTool g s name now)" "keeps R (denyUpstreamMismatch g s name d a now)"
  unfolding denyWithoutSubject_def denyUndeclaredAgent_def denyUndeclaredTool_def denyUpstreamMismatch_def Let_def
  by (intro framing)+

lemma keeps_forward:
  assumes "StaticRegistry_Resolve (gw_registry g) name = Some up"
  shows "keeps R (forward_call ord g s up tool a d now c)"
proof -
  have "keeps R (world (up_CallTool up tc))" for tc
    by (rule keeps_world) (rule R_upstream [OF assms])
  then show ?thesis unfolding forward_call_def Let_def by (intro framing)
qed

lemma keeps_act:
  assumes "StaticRegistry_Resolve (gw_registry g) name = Some up"
  shows "keeps R (act_on_decision ord g cc s up tool a d now)"
proof (cases "gw_broker g")
  case (Some x)
  have "keeps R (world (x sit u n))" for sit u n
    by (rule keeps_world) (rule R_broker [OF Some])
  then show ?thesis
    unfolding act_on_decision_def Some option.case by (intro framing keeps_forward [OF assms])
qed (simp add: act_on_decision_def keeps_forward [OF assms])

lemma keeps_declared:
  assumes "StaticRegistry_Resolve (gw_registry g) name = Some up"
  shows "keeps R (call_declared ord g cc s up entry tool args now)"
  unfolding call_declared_def Let_def by (intro framing keeps_act [OF assms])

lemma keeps_CallTool: "keeps R (CallTool ord g cc name args)"
proof (cases "StaticRegistry_Resolve (gw_registry g) name")
  case None
  show ?thesis unfolding CallTool_def None option.case by (intro framing)
next
  case (Some up)
  show ?thesis unfolding CallTool_def Some option.case by (intro framing keeps_declared [OF Some])
qed

lemma keeps_list_loop [framing]: "keeps R (list_loop g cc s now tools visible)"
  by (induction tools arbitrary: visible) (auto intro!: framing split: option.split)

lemma keeps_ListTools: "keeps R (ListTools g cc cursor)"
  unfolding ListTools_def by (intro framing)

text \<open>A server whose handler is the gateway.\<close>

lemma keeps_serveHTTP:
  assumes "h_ListTools (sv_handler srv) = ListTools g" "h_CallTool (sv_handler srv) = CallTool ord g"
  shows "keeps R (serveHTTP rnd srv req)"
proof -
  have "keeps R (dispatch srv rq cc)" for rq cc
    unfolding dispatch_def handleListTools_def handleCallTool_def assms
    by (intro framing keeps_ListTools keeps_CallTool)
  then show ?thesis
    unfolding serveHTTP_def Let_def by (intro framing)
qed

lemma CallTool_world:
  "run_state (CallTool ord g cc name args) s = (r, t) \<Longrightarrow> R (gs_world s) (gs_world t)"
  using keeps_CallTool [of ord cc name args] unfolding keeps_def by (metis snd_conv)

lemma serveHTTP_world:
  "h_ListTools (sv_handler srv) = ListTools g \<Longrightarrow> h_CallTool (sv_handler srv) = CallTool ord g \<Longrightarrow>
     run_state (serveHTTP rnd srv req) s = (resp, t) \<Longrightarrow> R (gs_world s) (gs_world t)"
  using keeps_serveHTTP [of srv ord rnd req] unfolding keeps_def by (metis snd_conv)

end

end
