(* ===== verification/HD_System.thy ===== *)
theory HD_System
  imports HD_Serve HD_Frame "HOL-Library.Sublist"
begin

text \<open>
  Properties of the gateway as \<^verbatim>\<open>serve\<close> puts it together: what a start establishes, what every later step keeps, and what an
  upstream call leaves in the audit log. The operations the gateway is wired to touch the process only through
  the outside or the audit store; the frames of \<open>HD_Frame\<close> are interpreted with this, for the gateway and for its
  traced form.
\<close>

section \<open>Operations that only touch the outside\<close>

definition only_outside :: "(('pq, 'x) proc, 'a) state \<Rightarrow> bool" where
  "only_outside m \<longleftrightarrow> (\<forall>p. \<exists>x. snd (run_state m p) = p\<lparr>pr_outside := x\<rparr>)"

named_theorems outsiding \<open>programs that only touch the outside\<close>

lemma outside_same: "\<exists>x. (p :: ('pq, 'x) proc) = p\<lparr>pr_outside := x\<rparr>"
  by (rule exI [of _ "pr_outside p"]) simp

lemma only_outside_return [outsiding]: "only_outside (State_Monad.return a)"
  by (simp add: only_outside_def outside_same)

lemma only_outside_gets [outsiding]: "only_outside (gets_state f)"
  by (simp add: only_outside_def gets_state_def outside_same)

lemma only_outside_outside [outsiding]: "only_outside (outside m)"
  by (auto simp: only_outside_def outside_def split: prod.splits)

lemma only_outside_bind [outsiding]: "only_outside m \<Longrightarrow> (\<And>a. only_outside (f a)) \<Longrightarrow> only_outside (State_Monad.bind m f)"
proof -
  assume m: "only_outside m" and f: "\<And>a. only_outside (f a)"
  have "\<exists>x. snd (run_state (State_Monad.bind m f) p) = p\<lparr>pr_outside := x\<rparr>" for p
  proof -
    obtain a q where a: "run_state m p = (a, q)" by fastforce
    with m obtain y where "q = p\<lparr>pr_outside := y\<rparr>" unfolding only_outside_def by (metis snd_conv)
    moreover obtain z where "snd (run_state (f a) q) = q\<lparr>pr_outside := z\<rparr>" using f unfolding only_outside_def by blast
    ultimately show ?thesis using a by auto
  qed
  then show ?thesis unfolding only_outside_def by blast
qed

lemma only_outside_sum [outsiding]:
  "(\<And>e. only_outside (f e)) \<Longrightarrow> (\<And>y. only_outside (h y)) \<Longrightarrow> only_outside (case x of Inl e \<Rightarrow> f e | Inr y \<Rightarrow> h y)"
  by (cases x) auto

lemma only_outside_identity [outsiding]: "only_outside (source_Resolve pl src c)"
  unfolding source_Resolve_def by (cases src) (auto intro!: outsiding)

lemma only_outside_broker: "source_broker pl src = Some x \<Longrightarrow> only_outside (x sit upstream tool)"
  by (auto simp: source_broker_def split: identity_source.splits option.splits intro!: outsiding)

lemma only_outside_decide [outsiding]: "only_outside (serve_Decide pl timeout req)"
  unfolding serve_Decide_def by (intro outsiding)

lemma only_outside_call [outsiding]:
  "only_outside (HTTPUpstream_call (\<lambda>url req. outside (send url req)) (outside rnd) u meth name c ps dec)"
  unfolding HTTPUpstream_call_def by (intro outsiding)

lemma only_outside_upstream:
  "up \<in> set (open_upstreams pl cfg) \<Longrightarrow> only_outside (up_CallTool up tc) \<and> only_outside (up_ListTools up)"
  by (auto simp: open_upstreams_def http_upstream_def HTTPUpstream_CallTool_def HTTPUpstream_ListTools_def intro!: outsiding)

lemma only_outside_refresh: "(\<And>u. u \<in> set us \<Longrightarrow> only_outside (up_ListTools u)) \<Longrightarrow> only_outside (refresh_loop us acc)"
proof (induction us arbitrary: acc)
  case (Cons u us)
  then have "only_outside (refresh_loop us a)" "only_outside (up_ListTools u)" for a
    by (metis list.set_intros)+
  then show ?case unfolding refresh_loop.simps by (intro outsiding)
qed (simp add: outsiding)

lemma only_outside_registry: "only_outside (NewStaticRegistry (open_upstreams pl cfg))"
  unfolding NewStaticRegistry_def StaticRegistry_Refresh_def
  by (intro outsiding only_outside_refresh) (use only_outside_upstream in auto)

section \<open>The wired gateway\<close>

text \<open>A registry over given upstreams: each tool goes to the upstream at some position, or to none.\<close>

definition routed :: "'w Upstream list \<Rightarrow> (string \<Rightarrow> nat option) \<Rightarrow> Tool list \<Rightarrow> 'w StaticRegistry" where
  "routed ups pos ts =
     \<lparr>sr_upstreams = ups,
      sr_byTool = (\<lambda>name. case pos name of None \<Rightarrow> None | Some i \<Rightarrow> if i < length ups then Some (ups ! i) else None),
      sr_tools = ts\<rparr>"

lemma NewStaticRegistry_routed:
  assumes "run_state (NewStaticRegistry ups) w = (Inr reg, w')"
  shows "\<exists>pos ts. reg = routed ups pos ts"
proof -
  obtain cs where cs: "run_state (catalogues ups) w = (Inr cs, w')"
    and reg: "reg = \<lparr>sr_upstreams = ups, sr_byTool = catalogue_owner cs, sr_tools = concat (map snd cs)\<rparr>"
    using assms by (auto simp: NewStaticRegistry_def Refresh_catalogues split: prod.splits sum.splits)
  have "\<exists>i < length ups. ups ! i = u" if "catalogue_owner cs name = Some u" for name u
    using that catalogues_upstreams [OF cs] by (auto simp: catalogue_owner_last in_set_conv_nth [symmetric])
  then have "\<exists>i. \<forall>u. catalogue_owner cs name = Some u \<longrightarrow> i < length ups \<and> ups ! i = u" for name
    by (cases "catalogue_owner cs name") auto
  then have "\<exists>f. \<forall>name u. catalogue_owner cs name = Some u \<longrightarrow> f name < length ups \<and> ups ! f name = u"
    by (intro choice allI)
  then obtain f where f: "\<And>name u. catalogue_owner cs name = Some u \<Longrightarrow> f name < length ups \<and> ups ! f name = u" by blast
  have "catalogue_owner cs name = (case (case catalogue_owner cs name of None \<Rightarrow> None | Some _ \<Rightarrow> Some (f name)) of
      None \<Rightarrow> None | Some i \<Rightarrow> if i < length ups then Some (ups ! i) else None)" for name
    using f [of name] by (cases "catalogue_owner cs name") auto
  then show ?thesis
    unfolding reg routed_def
    by (intro exI [of _ "\<lambda>name. case catalogue_owner cs name of None \<Rightarrow> None | Some _ \<Rightarrow> Some (f name)"] exI [of _ "concat (map snd cs)"]) auto
qed

definition wired ::
  "('pq, 'keys, 'x) platform \<Rightarrow> config \<Rightarrow> 'keys identity_source \<Rightarrow> (string \<Rightarrow> nat option) \<Rightarrow> Tool list \<Rightarrow> int \<Rightarrow> ToolRegistry \<Rightarrow> AgentRegistry \<Rightarrow>
     ('pq, 'x) proc \<Rightarrow> ('pq, 'x) proc Gateway" where
  "wired pl cfg src pos ts timeout toolReg agentReg p =
     fst (build_gateway pl cfg src (routed (open_upstreams pl cfg) pos ts) timeout toolReg agentReg p)"

lemma wired_sel [simp]:
  "gw_identity (wired pl cfg src pos ts timeout toolReg agentReg p) = source_Resolve pl src"
  "gw_pdp (wired pl cfg src pos ts timeout toolReg agentReg p) = serve_Decide pl"
  "gw_auditLog (wired pl cfg src pos ts timeout toolReg agentReg p) = serve_Append pl"
  "gw_now (wired pl cfg src pos ts timeout toolReg agentReg p) = outside (pl_clock pl)"
  "gw_broker (wired pl cfg src pos ts timeout toolReg agentReg p) = source_broker pl src"
  by (simp_all add: wired_def build_gateway_def gateway_New_def)

lemma wired_upstream:
  "StaticRegistry_Resolve (gw_registry (wired pl cfg src pos ts timeout toolReg agentReg p)) name = Some up \<Longrightarrow>
     up \<in> set (open_upstreams pl cfg)"
  by (auto simp: wired_def build_gateway_def gateway_New_def routed_def StaticRegistry_Resolve_def split: option.splits if_splits)

text \<open>What a started gateway is.\<close>

lemma runServe_Inr:
  assumes "runServe ord pl path devInsecure x = Inr (r, s)"
  obtains src pol store pos ts timeout toolReg agentReg p y where
    "loadConfig (pl_files pl) (pl_yaml pl) path = Inr (rn_cfg r)" "open_identity pl (rn_cfg r) devInsecure = Inr src"
    "open_policy pl (rn_cfg r) = Inr pol"
    "NewFileStore (pl_open_io pl) (cfg_AuditPath (rn_cfg r)) (pl_audit_file pl (cfg_AuditPath (rn_cfg r))) = Inr store"
    "p = \<lparr>pr_policy = pol, pr_audit = store, pr_outside = y\<rparr>"
    "rn_gateway r = wired pl (rn_cfg r) src pos ts timeout toolReg agentReg p"
    "sv_handler (rn_server r) = gateway_handler ord (rn_gateway r)"
    "s = \<lparr>gs_usage = newUsageTracker, gs_prov = newProvenanceCache, gs_world = p\<rparr>"
proof -
  from assms obtain src pol store where
    a: "loadConfig (pl_files pl) (pl_yaml pl) path = Inr (rn_cfg r)" "open_identity pl (rn_cfg r) devInsecure = Inr src"
      "open_policy pl (rn_cfg r) = Inr pol"
      "NewFileStore (pl_open_io pl) (cfg_AuditPath (rn_cfg r)) (pl_audit_file pl (cfg_AuditPath (rn_cfg r))) = Inr store"
    and st: "start_gateway ord pl (rn_cfg r) src \<lparr>pr_policy = pol, pr_audit = store, pr_outside = x\<rparr> = Inr (r, s)"
    by (auto simp: runServe_def start_gateway_def split: sum.splits prod.splits)
  let ?p = "\<lparr>pr_policy = pol, pr_audit = store, pr_outside = x\<rparr>"
  from st obtain reg p timeout toolReg agentReg g where
    reg: "run_state (NewStaticRegistry (open_upstreams pl (rn_cfg r))) ?p = (Inr reg, p)"
    and g: "build_gateway pl (rn_cfg r) src reg timeout toolReg agentReg p = (g, s)"
    and r: "\<lparr>rn_cfg = rn_cfg r, rn_gateway = g,
      rn_server = \<lparr>sv_AllowedOrigins = [], sv_handler = gateway_handler ord g, sv_version = serve_version\<rparr>\<rparr> = r"
    by (auto simp: start_gateway_def split: sum.splits prod.splits)
  have rg: "rn_gateway r = g" using arg_cong [OF r, of rn_gateway] by simp
  have h: "sv_handler (rn_server r) = gateway_handler ord (rn_gateway r)"
    using arg_cong [OF r, of rn_server] rg by (metis Server.select_convs(2) running.select_convs(3))
  obtain pos ts where "reg = routed (open_upstreams pl (rn_cfg r)) pos ts"
    using NewStaticRegistry_routed [OF reg] by blast
  with g have w: "rn_gateway r = wired pl (rn_cfg r) src pos ts timeout toolReg agentReg p"
    by (simp add: wired_def rg)
  have s: "s = \<lparr>gs_usage = newUsageTracker, gs_prov = newProvenanceCache, gs_world = p\<rparr>"
    using g by (simp add: build_gateway_def gateway_New_def)
  obtain y where "p = ?p\<lparr>pr_outside := y\<rparr>"
    using only_outside_registry [of pl "rn_cfg r"] reg unfolding only_outside_def by (metis snd_conv)
  then have p: "p = \<lparr>pr_policy = pol, pr_audit = store, pr_outside = y\<rparr>" by simp
  show thesis by (rule that [OF a p w h s])
qed

section \<open>The audit log only grows\<close>

text \<open>The record as it reaches the file store: stamped with the bundle in force, if that is verified.\<close>

definition active_bundle :: "'pq policy_state \<Rightarrow> PolicyBundleRef option" where
  "active_bundle pol = (case pol of Unverified d \<Rightarrow> None | Verified l \<Rightarrow> Some (VerifyingLoader_Active l))"

definition stamp_with :: "PolicyBundleRef option \<Rightarrow> ActionRecord \<Rightarrow> ActionRecord" where
  "stamp_with name rec = (case name of None \<Rightarrow> rec | Some ref \<Rightarrow> stamped ref rec)"

definition stamp_for :: "'pq policy_state \<Rightarrow> ActionRecord \<Rightarrow> ActionRecord" where
  "stamp_for pol = stamp_with (active_bundle pol)"

lemma serve_Append_run:
  assumes "run_state (serve_Append pl rec) p = (err, q)"
  shows "\<exists>io y st. FileStore_Append (pl_sha256 pl) io (stamp_for (pr_policy p) rec) (pr_audit p) = (err, st) \<and>
    q = p\<lparr>pr_audit := st, pr_outside := y\<rparr>"
proof -
  obtain io y where "run_state (pl_append_io pl) (pr_outside p) = (io, y)" by fastforce
  with assms show ?thesis
    by (intro exI [of _ io] exI [of _ y])
      (auto simp: serve_Append_def outside_def stamp_for_def stamp_with_def active_bundle_def StampingStore_Append_def split: prod.splits policy_state.splits)
qed

lemma Append_prefix: "FileStore_Append sha256 io rec s = (e, s') \<Longrightarrow> prefix (file_content s) (file_content s')"
  by (auto simp: FileStore_Append_def Let_def split: sum.splits append_io.splits)

definition grows :: "('pq, 'x) proc \<Rightarrow> ('pq, 'x) proc \<Rightarrow> bool" where
  "grows p q \<longleftrightarrow> pr_policy q = pr_policy p \<and> prefix (file_content (pr_audit p)) (file_content (pr_audit q))"

lemma grows_outside: "only_outside m \<Longrightarrow> grows p (snd (run_state m p))"
  unfolding only_outside_def grows_def by (metis prefix_order.refl proc.select_convs(1,2) proc.surjective proc.update_convs(3))

lemma grows_append: "grows p (snd (run_state (serve_Append pl rec) p))"
proof -
  obtain err q where q: "run_state (serve_Append pl rec) p = (err, q)" by fastforce
  from serve_Append_run [OF q] Append_prefix show ?thesis by (fastforce simp: q grows_def)
qed

interpretation growth: gateway_frame "wired pl cfg src pos ts timeout toolReg agentReg p" grows
  for pl :: "('pq, 'keys, 'x) platform" and cfg src pos ts timeout toolReg agentReg p
proof unfold_locales
  fix w u v :: "('pq, 'x) proc"
  show "grows w w" by (simp add: grows_def)
  show "grows u v \<Longrightarrow> grows v w \<Longrightarrow> grows u w" by (auto simp: grows_def intro: prefix_order.trans)
qed (auto simp: grows_append outsiding only_outside_broker dest!: wired_upstream only_outside_upstream intro!: grows_outside)

section \<open>What is in force\<close>

text \<open>
  What the configuration lets a load put in force, given what the disk holds at that moment: without a signature setting the policy compiled
  from the configured path; with one, that policy only if the bundle at the path matches a manifest, at the configured place, that
  is signed with the configured key, and then under the name of that manifest. The key is the one read at the start.
\<close>

definition release :: "('pq, 'keys, 'x) platform \<Rightarrow> config \<Rightarrow> string \<Rightarrow> 'pq disk \<Rightarrow> PolicyBundleRef option" where
  "release pl cfg pub disk =
     (case ReadManifest (le_files disk) (policyManifestPath (pl_join pl) cfg) of
        Inl err \<Rightarrow> None
      | Inr m \<Rightarrow>
          if bundle_Verify (pl_sha256 pl) (pl_ed_verify pl) (le_bundles disk) (plc_Path (cfg_Policy cfg)) m pub = None then
            (case Manifest_Digest (pl_sha256 pl) m of
               Inl err \<Rightarrow> None
             | Inr digest \<Rightarrow> Some \<lparr>pbr_Version = mf_Version m, pbr_Digest = digest\<rparr>)
          else None)"

definition loadable :: "('pq, 'keys, 'x) platform \<Rightarrow> config \<Rightarrow> 'pq disk \<Rightarrow> ('pq \<times> PolicyBundleRef option) option" where
  "loadable pl cfg disk =
     (case le_inner disk (plc_Path (cfg_Policy cfg)) of
        Inl err \<Rightarrow> None
      | Inr pq \<Rightarrow>
          (case plc_Signature (cfg_Policy cfg) of
             None \<Rightarrow> Some (pq, None)
           | Some sig \<Rightarrow>
               (case ReadPublicKey (pl_pem_decode pl) (pl_parse_pkix pl) (pl_files pl) (sg_PublicKey sig) of
                  Inl err \<Rightarrow> None
                | Inr pub \<Rightarrow> (case release pl cfg pub disk of None \<Rightarrow> None | Some ref \<Rightarrow> Some (pq, Some ref)))))"

text \<open>The last of a list of loads that could be made.\<close>

definition latest_load :: "('a \<Rightarrow> 'b option) \<Rightarrow> 'a list \<Rightarrow> 'b option" where
  "latest_load f xs = fold (\<lambda>x acc. case f x of None \<Rightarrow> acc | Some y \<Rightarrow> Some y) xs None"

lemma latest_load_append: "latest_load f (xs @ [x]) = (case f x of None \<Rightarrow> latest_load f xs | Some y \<Rightarrow> Some y)"
  by (cases "f x") (simp_all add: latest_load_def)

text \<open>
  The invariant of a running gateway: of the loads it has made, the start's and those of the reloads, the policy in force
  and the active name are those of the latest that the configuration lets be made.
\<close>

definition governed_by :: "('pq, 'keys, 'x) platform \<Rightarrow> config \<Rightarrow> 'pq disk list \<Rightarrow> 'pq policy_state \<Rightarrow> bool" where
  "governed_by pl cfg disks pol \<longleftrightarrow>
     (\<exists>pq ref. latest_load (loadable pl cfg) disks = Some (pq, ref) \<and> opa_prepared (decider pol) = Some pq \<and> active_bundle pol = ref)"

text \<open>The loader is the configured one, and the path it remembers.\<close>

definition keyed :: "('pq, 'keys, 'x) platform \<Rightarrow> config \<Rightarrow> 'pq policy_state \<Rightarrow> bool" where
  "keyed pl cfg pol \<longleftrightarrow>
     (case plc_Signature (cfg_Policy cfg) of
        None \<Rightarrow> (\<exists>d. pol = Unverified d)
      | Some sig \<Rightarrow>
          (\<exists>l. pol = Verified l \<and> vl_manifestPath l = policyManifestPath (pl_join pl) cfg \<and>
             ReadPublicKey (pl_pem_decode pl) (pl_parse_pkix pl) (pl_files pl) (sg_PublicKey sig) = Inr (vl_pub l)))"

definition loaded_path :: "'pq policy_state \<Rightarrow> string" where
  "loaded_path pol = (case pol of Unverified d \<Rightarrow> opa_path d | Verified l \<Rightarrow> vl_path l)"

lemma verify_release:
  assumes "vl_manifestPath l = policyManifestPath (pl_join pl) cfg"
  shows "VerifyingLoader_verify (pl_sha256 pl) (pl_ed_verify pl) disk l (plc_Path (cfg_Policy cfg)) = Inr ref \<longleftrightarrow>
    release pl cfg (vl_pub l) disk = Some ref"
  by (auto simp: VerifyingLoader_verify_def release_def assms split: sum.splits option.splits)

lemma policy_Load_loadable:
  assumes "keyed pl cfg pol" "policy_Load pl disk (plc_Path (cfg_Policy cfg)) pol = (err, pol')"
  shows "keyed pl cfg pol' \<and>
    (case loadable pl cfg disk of
       None \<Rightarrow> err \<noteq> None \<and> opa_prepared (decider pol') = opa_prepared (decider pol) \<and> active_bundle pol' = active_bundle pol \<and>
         loaded_path pol' = loaded_path pol
     | Some (pq, ref) \<Rightarrow> err = None \<and> opa_prepared (decider pol') = Some pq \<and> active_bundle pol' = ref \<and>
         loaded_path pol' = plc_Path (cfg_Policy cfg))"
proof (cases "plc_Signature (cfg_Policy cfg)")
  case None
  with assms show ?thesis
    by (cases "le_inner disk (plc_Path (cfg_Policy cfg))")
      (auto simp: keyed_def policy_Load_def OPADecider_Load_def loadable_def decider_def active_bundle_def loaded_path_def)
next
  case (Some sig)
  with assms(1) obtain l where l: "pol = Verified l" "vl_manifestPath l = policyManifestPath (pl_join pl) cfg"
    "ReadPublicKey (pl_pem_decode pl) (pl_parse_pkix pl) (pl_files pl) (sg_PublicKey sig) = Inr (vl_pub l)"
    by (auto simp: keyed_def)
  note v = verify_release [OF l(2), of disk]
  show ?thesis
  proof (cases "VerifyingLoader_verify (pl_sha256 pl) (pl_ed_verify pl) disk l (plc_Path (cfg_Policy cfg))")
    case (Inl e)
    then have "release pl cfg (vl_pub l) disk = None" using v by (cases "release pl cfg (vl_pub l) disk") auto
    with Inl assms(2) l Some show ?thesis
      by (auto simp: keyed_def policy_Load_def VerifyingLoader_Load_def loadable_def split: sum.splits)
  next
    case (Inr ref)
    then have "release pl cfg (vl_pub l) disk = Some ref" using v by simp
    with Inr assms(2) l Some show ?thesis
      by (cases "le_inner disk (plc_Path (cfg_Policy cfg))")
        (auto simp: keyed_def policy_Load_def VerifyingLoader_Load_def OPADecider_Load_def loadable_def decider_def active_bundle_def
          loaded_path_def VerifyingLoader_Active_def)
  qed
qed

lemma policy_Reload_Load:
  "loaded_path pol \<noteq> [] \<Longrightarrow> policy_Reload pl disk pol = policy_Load pl disk (loaded_path pol) pol"
  by (cases pol) (simp_all add: policy_Reload_def policy_Load_def loaded_path_def OPADecider_Reload_def VerifyingLoader_Reload_def)

text \<open>What a start establishes and a reload keeps.\<close>

abbreviation in_force :: "('pq, 'keys, 'x) platform \<Rightarrow> config \<Rightarrow> 'pq disk list \<Rightarrow> 'pq policy_state \<Rightarrow> bool" where
  "in_force pl cfg disks pol \<equiv> keyed pl cfg pol \<and> loaded_path pol = plc_Path (cfg_Policy cfg) \<and> governed_by pl cfg disks pol"

lemma open_policy_governed:
  assumes "open_policy pl cfg = Inr pol"
  shows "in_force pl cfg [platform_env pl] pol"
proof -
  obtain p where p: "keyed pl cfg p" "policy_Load pl (platform_env pl) (plc_Path (cfg_Policy cfg)) p = (None, pol)"
    using assms by (fastforce simp: open_policy_def keyed_def NewVerifyingLoader_def split: sum.splits option.splits prod.splits)
  from policy_Load_loadable [OF this] show ?thesis
    by (auto simp: governed_by_def latest_load_def split: option.splits)
qed

lemma reload_governed:
  assumes gov: "in_force pl cfg disks pol" and re: "policy_Reload pl disk pol = (err, pol')" and path: "plc_Path (cfg_Policy cfg) \<noteq> []"
  shows "in_force pl cfg (disks @ [disk]) pol'"
proof -
  have "policy_Load pl disk (plc_Path (cfg_Policy cfg)) pol = (err, pol')"
    using policy_Reload_Load [of pol pl disk] gov re path by simp
  from policy_Load_loadable [OF _ this] gov show ?thesis
    by (auto simp: governed_by_def latest_load_append split: option.splits)
qed

lemma governed_ready: "governed_by pl cfg disks pol \<Longrightarrow> OPADecider_Ready (decider pol) = None"
  by (auto simp: governed_by_def OPADecider_Ready_def)

lemma Check_content: "FileStore_Check ctxErr io s = (e, s') \<Longrightarrow> file_content s' = file_content s"
  by (auto simp: FileStore_Check_def split: option.splits append_io.splits)

lemma handler_sel [simp]: "h_ListTools (gateway_handler ord g) = ListTools g" "h_CallTool (gateway_handler ord g) = CallTool ord g"
  by (simp_all add: gateway_handler_def)

text \<open>Every step of a started gateway keeps the invariant and only extends the log.\<close>

lemma serve_step_keeps:
  assumes "serve_step pl r t ds u" and g: "rn_gateway r = wired pl (rn_cfg r) src pos ts timeout toolReg agentReg p"
    and h: "sv_handler (rn_server r) = gateway_handler ord (rn_gateway r)"
    and path: "plc_Path (cfg_Policy (rn_cfg r)) \<noteq> []" and inv: "in_force pl (rn_cfg r) disks (pr_policy (gs_world t))"
  shows "in_force pl (rn_cfg r) (disks @ ds) (pr_policy (gs_world u)) \<and>
    prefix (file_content (pr_audit (gs_world t))) (file_content (pr_audit (gs_world u)))"
  using assms(1)
proof cases
  case (request rnd req resp)
  have "grows (gs_world t) (gs_world u)"
    by (rule growth.serveHTTP_world [OF _ _ request(2)]) (simp_all add: h g)
  with inv request(1) show ?thesis by (simp add: grows_def)
next
  case (reload env err pol)
  with reload_governed [OF inv reload(3) path] show ?thesis by simp
next
  case (probe ctxErr io err st)
  with inv Check_content [OF probe(3)] show ?thesis by simp
qed

section \<open>What the audit log holds of a trace\<close>

definition unsealed :: "ActionRecord \<Rightarrow> ActionRecord" where
  "unsealed r = r\<lparr>rec_PrevHash := [], rec_Hash := []\<rparr>"

text \<open>The records a trace appended with success, and a trace without a failed append.\<close>

fun appended :: "effect list \<Rightarrow> ActionRecord list" where
  "appended [] = []"
| "appended (EAppend rec None # tr) = rec # appended tr"
| "appended (e # tr) = appended tr"

fun failed_append :: "effect \<Rightarrow> bool" where
  "failed_append (EAppend rec (Some err)) = True"
| "failed_append e = False"

abbreviation clean_trace :: "effect list \<Rightarrow> bool" where
  "clean_trace tr \<equiv> list_all (\<lambda>e. \<not> failed_append e) tr"

abbreviation writable :: "(ActionRecord \<Rightarrow> ActionRecord) \<Rightarrow> effect list \<Rightarrow> bool" where
  "writable stamp tr \<equiv> list_all (\<lambda>rec. recordable (stamp rec)) (appended tr)"

lemma appended_append [simp]: "appended (xs @ ys) = appended xs @ appended ys"
  by (induction xs rule: appended.induct) auto

text \<open>
  \<open>logged\<close>: beginning with the records \<open>rs\<close>, every part of the trace up to a failed append is in the
  file, chained; \<open>extends\<close>: without a failure the store stands for exactly these records.
\<close>

definition seals :: "(ActionRecord \<Rightarrow> ActionRecord) \<Rightarrow> effect list \<Rightarrow> ActionRecord list \<Rightarrow> bool" where
  "seals stamp tr sealed \<longleftrightarrow> map unsealed sealed = map (\<lambda>rec. unsealed (stamp rec)) (appended tr)"

definition logged :: "(string \<Rightarrow> string) \<Rightarrow> (ActionRecord \<Rightarrow> ActionRecord) \<Rightarrow> ActionRecord list \<Rightarrow> effect list \<Rightarrow> string \<Rightarrow> bool" where
  "logged sha256 stamp rs tr c \<longleftrightarrow>
     (\<forall>m m'. tr = m @ m' \<longrightarrow> clean_trace m \<longrightarrow> writable stamp m \<longrightarrow>
        (\<exists>sealed. seals stamp m sealed \<and> chained sha256 [] (rs @ sealed) \<and> prefix (concat (map record_line (rs @ sealed))) c))"

definition extends :: "(string \<Rightarrow> string) \<Rightarrow> (ActionRecord \<Rightarrow> ActionRecord) \<Rightarrow> ActionRecord list \<Rightarrow> effect list \<Rightarrow> FileStore \<Rightarrow> bool" where
  "extends sha256 stamp rs tr st \<longleftrightarrow>
     (clean_trace tr \<longrightarrow> writable stamp tr \<longrightarrow> (\<exists>sealed. seals stamp tr sealed \<and> store_rep sha256 (rs @ sealed) st))"

definition on_record :: "('pq, 'keys, 'x) platform \<Rightarrow> ('pq, 'x) proc \<times> effect list \<Rightarrow> ('pq, 'x) proc \<times> effect list \<Rightarrow> bool" where
  "on_record pl u v \<longleftrightarrow>
     grows (fst u) (fst v) \<and>
     (\<exists>more. snd v = snd u @ more \<and>
        (\<forall>rs. store_rep (pl_sha256 pl) rs (pr_audit (fst u)) \<longrightarrow>
           logged (pl_sha256 pl) (stamp_for (pr_policy (fst u))) rs more (file_content (pr_audit (fst v))) \<and>
           extends (pl_sha256 pl) (stamp_for (pr_policy (fst u))) rs more (pr_audit (fst v))))"

lemma store_rep_content: "store_rep sha256 rs st \<Longrightarrow> file_content st = concat (map record_line rs) \<and> chained sha256 [] rs"
  by (simp add: store_rep_def)

lemma seals_Nil [simp]: "seals stamp [] sealed \<longleftrightarrow> sealed = []"
  by (simp add: seals_def)

lemma seals_append: "seals stamp m a \<Longrightarrow> seals stamp n b \<Longrightarrow> seals stamp (m @ n) (a @ b)"
  by (simp add: seals_def)

lemma logged_trans:
  assumes log: "logged sha256 stamp rs m c" "extends sha256 stamp rs m st" "file_content st = c" and grow: "prefix c d"
    and later: "\<And>rs. store_rep sha256 rs st \<Longrightarrow> logged sha256 stamp rs n d"
  shows "logged sha256 stamp rs (m @ n) d"
  unfolding logged_def
proof (intro allI impI)
  fix a b assume ab: "m @ n = a @ b" and a: "clean_trace a" "writable stamp a"
  from ab consider (inside) us where "m = a @ us" | (beyond) us where "a = m @ us" "n = us @ b"
    by (auto simp: append_eq_append_conv2)
  then show "\<exists>sealed. seals stamp a sealed \<and> chained sha256 [] (rs @ sealed) \<and> prefix (concat (map record_line (rs @ sealed))) d"
  proof cases
    case inside
    with log(1) a obtain sealed where "seals stamp a sealed" "chained sha256 [] (rs @ sealed)"
      "prefix (concat (map record_line (rs @ sealed))) c"
      unfolding logged_def by blast
    then show ?thesis using prefix_order.trans [OF _ grow] by blast
  next
    case beyond
    with a log(2) obtain sealed where s: "seals stamp m sealed" "store_rep sha256 (rs @ sealed) st"
      by (auto simp: extends_def)
    with later [OF s(2)] a beyond obtain more where
      "seals stamp us more" "chained sha256 [] ((rs @ sealed) @ more)" "prefix (concat (map record_line ((rs @ sealed) @ more))) d"
      unfolding logged_def by (auto simp: beyond)
    with s(1) beyond(1) show ?thesis by (intro exI [of _ "sealed @ more"]) (simp add: seals_append)
  qed
qed

lemma extends_trans:
  assumes "extends sha256 stamp rs m st" "\<And>rs. store_rep sha256 rs st \<Longrightarrow> extends sha256 stamp rs n st'"
  shows "extends sha256 stamp rs (m @ n) st'"
  unfolding extends_def
proof (intro impI)
  assume ok: "clean_trace (m @ n)" "writable stamp (m @ n)"
  with assms(1) obtain a where a: "seals stamp m a" "store_rep sha256 (rs @ a) st" by (auto simp: extends_def)
  with assms(2) [OF a(2)] ok obtain b where "seals stamp n b" "store_rep sha256 ((rs @ a) @ b) st'" by (auto simp: extends_def)
  with a(1) show "\<exists>sealed. seals stamp (m @ n) sealed \<and> store_rep sha256 (rs @ sealed) st'"
    by (intro exI [of _ "a @ b"]) (simp add: seals_append)
qed

lemma on_record_trans:
  assumes "on_record pl u v" "on_record pl v w"
  shows "on_record pl u w"
proof -
  from assms obtain m n where g: "grows (fst u) (fst v)" "grows (fst v) (fst w)" "snd v = snd u @ m" "snd w = snd v @ n"
    and m: "\<And>rs. store_rep (pl_sha256 pl) rs (pr_audit (fst u)) \<Longrightarrow>
      logged (pl_sha256 pl) (stamp_for (pr_policy (fst u))) rs m (file_content (pr_audit (fst v))) \<and>
      extends (pl_sha256 pl) (stamp_for (pr_policy (fst u))) rs m (pr_audit (fst v))"
    and n: "\<And>rs. store_rep (pl_sha256 pl) rs (pr_audit (fst v)) \<Longrightarrow>
      logged (pl_sha256 pl) (stamp_for (pr_policy (fst v))) rs n (file_content (pr_audit (fst w))) \<and>
      extends (pl_sha256 pl) (stamp_for (pr_policy (fst v))) rs n (pr_audit (fst w))"
    unfolding on_record_def by blast
  have pol: "pr_policy (fst v) = pr_policy (fst u)" and pre: "prefix (file_content (pr_audit (fst v))) (file_content (pr_audit (fst w)))"
    using g(1,2) by (simp_all add: grows_def)
  have "grows (fst u) (fst w)" using g(1,2) by (auto simp: grows_def intro: prefix_order.trans)
  moreover have "logged (pl_sha256 pl) (stamp_for (pr_policy (fst u))) rs (m @ n) (file_content (pr_audit (fst w))) \<and>
      extends (pl_sha256 pl) (stamp_for (pr_policy (fst u))) rs (m @ n) (pr_audit (fst w))"
    if rep: "store_rep (pl_sha256 pl) rs (pr_audit (fst u))" for rs
  proof
    note n' = n [unfolded pol]
    show "logged (pl_sha256 pl) (stamp_for (pr_policy (fst u))) rs (m @ n) (file_content (pr_audit (fst w)))"
      by (rule logged_trans [OF _ _ refl pre]) (use m [OF rep] n' in blast)+
    show "extends (pl_sha256 pl) (stamp_for (pr_policy (fst u))) rs (m @ n) (pr_audit (fst w))"
      by (rule extends_trans) (use m [OF rep] n' in blast)+
  qed
  moreover have "snd w = snd u @ (m @ n)" using g(3,4) by simp
  ultimately show ?thesis unfolding on_record_def by blast
qed

lemma logged_none: "appended tr = [] \<Longrightarrow> store_rep sha256 rs st \<Longrightarrow> logged sha256 stamp rs tr (file_content st)"
  using store_rep_content by (fastforce simp: logged_def seals_def intro: exI [of _ "[]"])

lemma extends_none: "appended tr = [] \<Longrightarrow> store_rep sha256 rs st \<Longrightarrow> extends sha256 stamp rs tr st"
  by (auto simp: extends_def seals_def intro: exI [of _ "[]"])

lemma on_record_outside:
  assumes "appended tr' = []"
  shows "on_record pl (p, tr) (p\<lparr>pr_outside := x\<rparr>, tr @ tr')"
  unfolding on_record_def using assms logged_none extends_none by (auto simp: grows_def)

lemma on_record_traced:
  assumes "only_outside m" "\<And>a. appended [ev a] = []"
  shows "on_record pl w (snd (run_state (traced ev m) w))"
proof -
  obtain p tr where w: "w = (p, tr)" by (cases w)
  obtain a q where "run_state m p = (a, q)" by fastforce
  moreover with assms(1) obtain x where "q = p\<lparr>pr_outside := x\<rparr>" unfolding only_outside_def by (metis snd_conv)
  ultimately show ?thesis using on_record_outside [OF assms(2)] by (simp add: w traced_def)
qed

lemma on_record_silent:
  assumes "only_outside m"
  shows "on_record pl w (snd (run_state (silent m) w))"
proof -
  obtain p tr where w: "w = (p, tr)" by (cases w)
  obtain a q where "run_state m p = (a, q)" by fastforce
  moreover with assms obtain x where "q = p\<lparr>pr_outside := x\<rparr>" unfolding only_outside_def by (metis snd_conv)
  ultimately show ?thesis using on_record_outside [of "[]"] by (simp add: w silent_def)
qed

text \<open>An append: when it reports success the sealed record is the next of the log.\<close>

lemma Append_rep:
  assumes "FileStore_Append sha256 io rec st = (None, st')" "recordable rec" "store_rep sha256 rs st"
  shows "\<exists>q. unsealed q = unsealed rec \<and> store_rep sha256 (rs @ [q]) st'"
proof -
  have "utf8 (fs_lastHash st)" using assms(3) tail_hash_utf8 by (auto simp: store_rep_def)
  with assms(1,2) have "io = IoOK" by (simp add: Append_seal Let_def split: append_io.splits)
  with assms store_rep_append [OF assms(3,2)] show ?thesis
    by (intro exI [of _ "seal sha256 (tail_hash [] rs) rec"]) (auto simp: seal_def unsealed_def)
qed

lemma on_record_append: "on_record pl w (snd (run_state (traced (EAppend rec) (serve_Append pl rec)) w))"
proof -
  obtain p tr where w: "w = (p, tr)" by (cases w)
  obtain err q where r: "run_state (serve_Append pl rec) p = (err, q)" by fastforce
  let ?sha = "pl_sha256 pl" and ?stamp = "stamp_for (pr_policy p)"
  obtain io y st where a: "FileStore_Append ?sha io (?stamp rec) (pr_audit p) = (err, st)"
    and q: "q = p\<lparr>pr_audit := st, pr_outside := y\<rparr>"
    using serve_Append_run [OF r] by blast
  have pre: "prefix (file_content (pr_audit p)) (file_content st)" by (rule Append_prefix [OF a])
  have "logged ?sha ?stamp rs [EAppend rec err] (file_content st) \<and> extends ?sha ?stamp rs [EAppend rec err] st"
    if rep: "store_rep ?sha rs (pr_audit p)" for rs
  proof (cases "err = None \<and> recordable (?stamp rec)")
    case True
    then obtain z where z: "unsealed z = unsealed (?stamp rec)" "store_rep ?sha (rs @ [z]) st"
      using Append_rep a rep by blast
    have sz: "seals ?stamp [EAppend rec err] [z]" using True z(1) by (simp add: seals_def)
    have "\<exists>sealed. seals ?stamp m sealed \<and> chained ?sha [] (rs @ sealed) \<and> prefix (concat (map record_line (rs @ sealed))) (file_content st)"
      if m: "[EAppend rec err] = m @ m'" for m m'
    proof (cases m)
      case Nil
      then show ?thesis using store_rep_content [OF rep] pre by (intro exI [of _ "[]"]) simp
    next
      case (Cons e m2)
      then have "m = [EAppend rec err]" using m by simp
      then show ?thesis using sz store_rep_content [OF z(2)] by (intro exI [of _ "[z]"]) simp
    qed
    then have "logged ?sha ?stamp rs [EAppend rec err] (file_content st)" unfolding logged_def by blast
    then show ?thesis using sz z(2) unfolding extends_def by blast
  next
    case False
    then have "m = []" if "[EAppend rec err] = m @ m'" "clean_trace m" "writable ?stamp m" for m m'
      using that by (cases m; cases err) auto
    moreover have "\<not> (clean_trace [EAppend rec err] \<and> writable ?stamp [EAppend rec err])"
      using False by (cases err) auto
    ultimately show ?thesis
      using store_rep_content [OF rep] pre
      by (fastforce simp: logged_def extends_def intro: exI [of _ "[]"])
  qed
  moreover have "grows p q" using pre q by (simp add: grows_def)
  ultimately show ?thesis by (simp add: w traced_def r on_record_def q)
qed

interpretation ledger: gateway_frame "traced_gateway (wired pl cfg src pos ts timeout toolReg agentReg p)" "on_record pl"
  for pl :: "('pq, 'keys, 'x) platform" and cfg src pos ts timeout toolReg agentReg p
proof unfold_locales
  fix w :: "('pq, 'x) proc \<times> effect list"
  show "on_record pl w w" using on_record_outside [of "[]" pl "fst w" "snd w" "pr_outside (fst w)"] by simp
  show "on_record pl w (snd (run_state (gw_auditLog (traced_gateway (wired pl cfg src pos ts timeout toolReg agentReg p)) rec) w))" for rec
    by (simp add: on_record_append)
next
  fix name up tc and w :: "('pq, 'x) proc \<times> effect list"
  assume "StaticRegistry_Resolve (gw_registry (traced_gateway (wired pl cfg src pos ts timeout toolReg agentReg p))) name = Some up"
  then obtain u where "u \<in> set (open_upstreams pl cfg)" "up = traced_upstream u" by (auto dest: wired_upstream)
  then show "on_record pl w (snd (run_state (up_CallTool up tc) w))"
    using only_outside_upstream by (auto intro!: on_record_traced)
qed (auto simp: traced_gateway_def outsiding only_outside_broker intro: on_record_trans intro!: on_record_traced on_record_silent)

lemma committed_appended: "committed_trace g cc name args s u a d tr \<Longrightarrow> clean_trace tr \<and> (\<exists>now. appended tr = [action_record now s a d RecordOutcomeAllowed])"
  by (auto simp: committed_trace_def)

lemma armed_appended:
  "armed_trace g cc name args s u a d c tr \<Longrightarrow> clean_trace tr \<and> (\<exists>now. appended tr = [action_record now s a d RecordOutcomeAllowed])"
  by (auto simp: armed_trace_def dest!: committed_appended split: if_splits)

lemma served_governed:
  assumes "runServe ord pl path devInsecure x = Inr (r, s)" "served pl r s disks t"
  shows "in_force pl (rn_cfg r) (platform_env pl # disks) (pr_policy (gs_world t)) \<and>
    prefix (file_content (pr_audit (gs_world s))) (file_content (pr_audit (gs_world t)))"
proof -
  from assms(1) obtain src pol store pos ts timeout toolReg agentReg p y where
    cfg: "loadConfig (pl_files pl) (pl_yaml pl) path = Inr (rn_cfg r)" and
    pol: "open_policy pl (rn_cfg r) = Inr pol" and p: "p = \<lparr>pr_policy = pol, pr_audit = store, pr_outside = y\<rparr>" and
    g: "rn_gateway r = wired pl (rn_cfg r) src pos ts timeout toolReg agentReg p" and
    h: "sv_handler (rn_server r) = gateway_handler ord (rn_gateway r)" and
    s: "s = \<lparr>gs_usage = newUsageTracker, gs_prov = newProvenanceCache, gs_world = p\<rparr>"
    by (rule runServe_Inr)
  have path: "plc_Path (cfg_Policy (rn_cfg r)) \<noteq> []" using cfg by (auto simp: loadConfig_iff config_ok_def)
  from assms(2) show ?thesis
  proof (induction rule: served.induct)
    case started
    show ?case using open_policy_governed [OF pol] by (simp add: s p)
  next
    case (stepped disks t disks' u)
    with serve_step_keeps [OF stepped(2) g h path, of "platform_env pl # disks"] show ?case
      using prefix_order.trans by fastforce
  qed
qed

text \<open>The gate of static tokens.\<close>

lemma serve_gate:
  assumes "runServe ord pl path devInsecure x = Inr (r, s)"
  shows "devInsecure \<or> idc_StaticTokens (cfg_Identity (rn_cfg r)) = []"
proof -
  from assms obtain src where
    cfg: "loadConfig (pl_files pl) (pl_yaml pl) path = Inr (rn_cfg r)" and ident: "open_identity pl (rn_cfg r) devInsecure = Inr src"
    by (rule runServe_Inr)
  then show ?thesis
    by (auto simp: loadConfig_iff open_identity_def checkDevInsecureGate_def config_ok_def identity_ok_def split: option.splits if_splits)
qed

section \<open>Properties\<close>

text \<open>C4. A gateway serves only what it may: \<^verbatim>\<open>serve\<close> starts only from a configuration that was read and is well formed, and
  with static tokens only if the flag is given. Take any sequence of requests, reloads and probes, and let \<open>disks\<close> be what the disk held at each reload. Then
  the policy in force and its active name are exactly those of the latest load, of the start and these reloads, that the configuration lets be
  made: the policy compiled from the configured path at that load and, where signatures are demanded, only if at that same load the bundle there
  matched a manifest signed with the configured key, under the version and digest of that manifest. A reload that fails, for a bundle that does
  not verify or does not compile, changes nothing. And what was in the audit log at the start is still its beginning.\<close>

theorem serve_stays_governed:
  assumes "runServe ord pl path devInsecure x = Inr (r, s)" "served pl r s disks t"
  shows "loadConfig (pl_files pl) (pl_yaml pl) path = Inr (rn_cfg r) \<and> config_ok (rn_cfg r) \<and>
    (devInsecure \<or> idc_StaticTokens (cfg_Identity (rn_cfg r)) = []) \<and>
    governed_by pl (rn_cfg r) (platform_env pl # disks) (pr_policy (gs_world t)) \<and>
    prefix (case pl_audit_file pl (cfg_AuditPath (rn_cfg r)) of None \<Rightarrow> [] | Some c \<Rightarrow> c) (file_content (pr_audit (gs_world t)))"
proof -
  from assms(1) obtain src pol store pos ts timeout toolReg agentReg p y where
    cfg: "loadConfig (pl_files pl) (pl_yaml pl) path = Inr (rn_cfg r)" and
    store: "NewFileStore (pl_open_io pl) (cfg_AuditPath (rn_cfg r)) (pl_audit_file pl (cfg_AuditPath (rn_cfg r))) = Inr store" and
    p: "p = \<lparr>pr_policy = pol, pr_audit = store, pr_outside = y\<rparr>" and
    s: "s = \<lparr>gs_usage = newUsageTracker, gs_prov = newProvenanceCache, gs_world = p\<rparr>"
    by (rule runServe_Inr)
  have ok: "config_ok (rn_cfg r)" using cfg by (auto simp: loadConfig_iff)
  have "devInsecure \<or> idc_StaticTokens (cfg_Identity (rn_cfg r)) = []" by (rule serve_gate [OF assms(1)])
  moreover have "file_content store = (case pl_audit_file pl (cfg_AuditPath (rn_cfg r)) of None \<Rightarrow> [] | Some c \<Rightarrow> c)"
    using store by (auto simp: NewFileStore_def Let_def split: open_io.splits sum.splits)
  ultimately show ?thesis using cfg ok served_governed [OF assms] by (simp add: s p)
qed

text \<open>C3. Nothing reaches an upstream off the record. Let a running gateway, after requests, reloads and probes, have an audit log that is an intact
  chain of records \<open>rs\<close> whose last hash the store remembers, and let a tools/call then reach an upstream, where the record appended before can be read
  back (\<open>recordable\<close>). Then, once the call is over, the audit file begins with these records and, chained to
  them, a line with the record of the decision: the caller, the tool, the arguments the upstream was sent, and the decision that allowed it, stamped with
  the active name where bundles are verified; and that holds even if recording the failure of the call went wrong afterwards. That name and
  the policy in force are those of the latest load, of the start and the reloads so far, that the configuration lets be made.\<close>

theorem calls_on_record:
  assumes "runServe ord pl path devInsecure x = Inr (r, s0)" "served pl r s0 disks s"
    and "store_rep (pl_sha256 pl) rs (pr_audit (gs_world s))"
    and "run_state (CallTool ord (traced_gateway (rn_gateway r)) cc name args) (fresh_trace s) = (res, t)"
    and "trace t = pre @ ECall u tc y # post"
    and "list_all (\<lambda>rec. recordable (stamp_for (pr_policy (gs_world s)) rec)) (appended pre)"
  shows "governed_by pl (rn_cfg r) (platform_env pl # disks) (pr_policy (gs_world s)) \<and>
    (\<exists>subject a d now q. armed_trace (rn_gateway r) cc name args subject u a d (tc_Credential tc) pre \<and>
       tc_Tool tc = name \<and> tc_Arguments tc = act_Arguments a \<and>
       unsealed q = unsealed (stamp_for (pr_policy (gs_world s)) (action_record now subject a d RecordOutcomeAllowed)) \<and>
       chained (pl_sha256 pl) [] (rs @ [q]) \<and>
       prefix (concat (map record_line (rs @ [q]))) (file_content (pr_audit (fst (gs_world t)))))"
proof -
  from assms(1) obtain src pos ts timeout toolReg agentReg p where
    g: "rn_gateway r = wired pl (rn_cfg r) src pos ts timeout toolReg agentReg p"
    by (rule runServe_Inr)
  have "mediated (rn_gateway r) cc name args res (trace t)"
    using wp_CallTool [of "fresh_trace s" ord "rn_gateway r" cc name args] assms(4) by (simp add: wp_def)
  then obtain ph where "mediation_run (rn_gateway r) cc name args (trace t) ph" by (auto simp: mediated_def)
  from run_one_call [OF this] assms(5) obtain subject a d where
    armed: "armed_trace (rn_gateway r) cc name args subject u a d (tc_Credential tc) pre"
      "tc_Tool tc = name" "tc_Arguments tc = act_Arguments a"
    unfolding one_call_def by blast
  then obtain now where pre: "clean_trace pre" "appended pre = [action_record now subject a d RecordOutcomeAllowed]"
    using armed_appended by blast
  have "on_record pl (gs_world (fresh_trace s)) (gs_world t)"
    using ledger.CallTool_world assms(4) unfolding g by blast
  then have "logged (pl_sha256 pl) (stamp_for (pr_policy (gs_world s))) rs (trace t) (file_content (pr_audit (fst (gs_world t))))"
    using assms(3) by (auto simp: on_record_def fresh_trace_def)
  with assms(5,6) pre(1) obtain sealed where
    "seals (stamp_for (pr_policy (gs_world s))) pre sealed" "chained (pl_sha256 pl) [] (rs @ sealed)"
    "prefix (concat (map record_line (rs @ sealed))) (file_content (pr_audit (fst (gs_world t))))"
    unfolding logged_def by blast
  moreover from this(1) pre(2) obtain q where
    "sealed = [q]" "unsealed q = unsealed (stamp_for (pr_policy (gs_world s)) (action_record now subject a d RecordOutcomeAllowed))"
    by (auto simp: seals_def)
  ultimately show ?thesis using armed served_governed [OF assms(1,2)] by blast
qed

end
