(* ===== verification/HD_Interleaving.thy ===== *)
theory HD_Interleaving
  imports HD_Prelude
begin

text \<open>
  Goroutines that share a state. A \<open>thread\<close> is a computation that can be interrupted: it has finished, or its next
  atomic step reads and changes the shared state, emits the events of the step and leaves a thread to go on with.
  A \<open>pool\<close> holds the requests that have arrived, each with what is left of its thread, the shared state and
  the history of events, each with the request it belongs to; between any two steps other requests may move, new
  ones may arrive and the environment may interfere.

  Two ways to reason about a thread that say something about all interleavings: \<open>ensures\<close> looks at one
  thread under arbitrary interference and gives the events and the answer of a request; \<open>guarantees\<close> looks at its steps
  and gives what the whole pool does to the shared state (locale \<open>rely_guarantee\<close>).
\<close>

section \<open>Threads\<close>

datatype ('s, 'e, 'a) thread = Done 'a | Atom "'s \<Rightarrow> ('e list \<times> ('s, 'e, 'a) thread) \<times> 's"

primrec then_do :: "('s, 'e, 'a) thread \<Rightarrow> ('a \<Rightarrow> ('s, 'e, 'b) thread) \<Rightarrow> ('s, 'e, 'b) thread" where
  "then_do (Done x) k = k x"
| "then_do (Atom f) k = Atom (\<lambda>s. map_prod (map_prod id (\<lambda>t. then_do t k)) id (f s))"

text \<open>A step that runs an operation and emits an event with its answer; a step that emits nothing.\<close>

definition emit :: "('a \<Rightarrow> 'e) \<Rightarrow> ('s, 'a) state \<Rightarrow> ('s, 'e, 'a) thread" where
  "emit ev m = Atom (\<lambda>s. case run_state m s of (x, s') \<Rightarrow> (([ev x], Done x), s'))"

definition quiet :: "('s, 'a) state \<Rightarrow> ('s, 'e, 'a) thread" where
  "quiet m = Atom (\<lambda>s. case run_state m s of (x, s') \<Rightarrow> (([], Done x), s'))"

text \<open>A thread that nothing interrupts.\<close>

primrec alone :: "('s, 'e, 'a) thread \<Rightarrow> 's \<Rightarrow> ('e list \<times> 'a) \<times> 's" where
  "alone (Done x) s = (([], x), s)"
| "alone (Atom f) s =
     (case map_prod (map_prod id alone) id (f s) of
        ((es, rest), s') \<Rightarrow> (case rest s' of ((es', x), s'') \<Rightarrow> ((es @ es', x), s'')))"

text \<open>Induction over the steps of a thread, and the recursive equations in terms of what a step gives.\<close>

lemma thread_induct [case_names Done Atom]:
  assumes "\<And>x. P (Done x)" "\<And>f. (\<And>s es t s'. f s = ((es, t), s') \<Longrightarrow> P t) \<Longrightarrow> P (Atom f)"
  shows "P t"
proof (induction t)
  case (Atom f)
  have "P t" if "f s = ((es, t), s')" for s es t s'
    by (rule Atom.IH [of "f s" "(es, t)" t, OF rangeI]) (simp_all add: that)
  then show ?case by (rule assms(2))
qed (rule assms(1))

lemma map_step: "map_prod (map_prod id g) id z = ((es, u), s') \<longleftrightarrow> (\<exists>t. z = ((es, t), s') \<and> u = g t)"
  by (cases z) auto

lemma alone_Atom [simp]:
  "alone (Atom f) s =
     (case f s of ((es, t), s') \<Rightarrow> (case alone t s' of ((es', x), s'') \<Rightarrow> ((es @ es', x), s'')))"
  by (simp add: split: prod.splits)

declare alone.simps(2) [simp del]

lemma alone_then_do:
  "alone (then_do t k) s =
     (case alone t s of ((es, x), s') \<Rightarrow> (case alone (k x) s' of ((es', y), s'') \<Rightarrow> ((es @ es', y), s'')))"
proof (induction t arbitrary: s rule: thread_induct)
  case (Atom f)
  obtain es t s' where f: "f s = ((es, t), s')" by (metis surj_pair)
  with Atom [OF this] show ?case by (simp split: prod.splits)
qed simp

lemma alone_emit [simp]: "alone (emit ev m) s = (case run_state m s of (x, s') \<Rightarrow> (([ev x], x), s'))"
  by (simp add: emit_def split: prod.splits)

lemma alone_quiet [simp]: "alone (quiet m) s = (case run_state m s of (x, s') \<Rightarrow> (([], x), s'))"
  by (simp add: quiet_def split: prod.splits)

section \<open>One thread under interference\<close>

text \<open>The events a thread may have emitted before it is left as another thread, whatever happened in between.\<close>

inductive trail :: "('s, 'e, 'a) thread \<Rightarrow> 'e list \<Rightarrow> ('s, 'e, 'a) thread \<Rightarrow> bool"
  for t :: "('s, 'e, 'a) thread"
where
  trail_start: "trail t [] t"
| trail_step: "trail t es (Atom f) \<Longrightarrow> f s = ((es', t'), s') \<Longrightarrow> trail t (es @ es') t'"

text \<open>Every way to the end of the thread, after the events \<open>tr\<close>, ends well.\<close>

primrec ensures :: "('s, 'e, 'a) thread \<Rightarrow> ('a \<Rightarrow> 'e list \<Rightarrow> bool) \<Rightarrow> 'e list \<Rightarrow> bool" where
  "ensures (Done x) Q tr = Q x tr"
| "ensures (Atom f) Q tr =
     (\<forall>s. case map_prod (map_prod id ensures) id (f s) of ((es, rest), s') \<Rightarrow> rest Q (tr @ es))"

lemma ensures_Atom [simp]:
  "ensures (Atom f) Q tr \<longleftrightarrow> (\<forall>s es t s'. f s = ((es, t), s') \<longrightarrow> ensures t Q (tr @ es))"
  by (simp add: map_step split: prod.splits) blast

declare ensures.simps(2) [simp del]

lemma ensures_Done [simp]: "ensures (Done x) Q = Q x"
  by (simp add: fun_eq_iff)

lemma ensures_then_do: "ensures (then_do t k) Q tr = ensures t (\<lambda>x. ensures (k x) Q) tr"
proof (induction t arbitrary: tr rule: thread_induct)
  case (Atom f)
  then show ?case by (simp add: map_step) blast
qed simp

lemma ensures_emit: "(\<And>x. Q x (tr @ [ev x])) \<Longrightarrow> ensures (emit ev m) Q tr"
  by (auto simp: emit_def split: prod.splits)

lemma ensures_quiet: "(\<And>s. Q (fst (run_state m s)) tr) \<Longrightarrow> ensures (quiet m) Q tr"
  by (auto simp: quiet_def split: prod.splits) (metis fst_conv)

text \<open>What a thread ensures holds at the end of every trail.\<close>

lemma ensures_trail: "trail t es t' \<Longrightarrow> ensures t Q tr \<Longrightarrow> ensures t' Q (tr @ es)"
  by (induction rule: trail.induct) auto

lemma trail_append: "trail t es t' \<Longrightarrow> trail t' es' t'' \<Longrightarrow> trail t (es @ es') t''"
proof (rotate_tac, induction rule: trail.induct)
  case (trail_step es' f s es'' u s')
  then show ?case using trail.trail_step by (metis append.assoc)
qed simp

text \<open>Every thread comes to an end: it can be run to it alone.\<close>

lemma trail_alone: "alone t s = ((es, x), s') \<Longrightarrow> trail t es (Done x)"
proof (induction t arbitrary: s es s' rule: thread_induct)
  case (Atom f)
  obtain es1 t s1 where f: "f s = ((es1, t), s1)" by (metis surj_pair)
  with Atom.prems obtain es2 where "alone t s1 = ((es2, x), s')" "es = es1 @ es2" by (auto split: prod.splits)
  moreover have "trail (Atom f) es1 t" using trail_step [of "Atom f" "[]" f, OF trail_start f] by simp
  ultimately show ?case using Atom.IH [OF f] trail_append by blast
qed (simp add: trail_start)

lemma trail_completes: "trail t es t' \<Longrightarrow> \<exists>es' x. trail t (es @ es') (Done x)"
  by (metis trail_alone trail_append surj_pair)

lemma trail_then_done:
  "trail (then_do t (\<lambda>x. Done (f x))) es u \<Longrightarrow> \<exists>t'. u = then_do t' (\<lambda>x. Done (f x)) \<and> trail t es t'"
proof (induction rule: trail.induct)
  case (trail_step es g s es' u s')
  then obtain t' where t': "Atom g = then_do t' (\<lambda>x. Done (f x))" "trail t es t'" by blast
  then obtain h where h: "t' = Atom h" by (cases t') simp_all
  with t' trail_step(2) obtain t'' where "h s = ((es', t''), s')" "u = then_do t'' (\<lambda>x. Done (f x))"
    by (auto simp: map_step)
  with t'(2) h show ?case using trail.trail_step by metis
qed (auto intro: trail_start)

section \<open>The steps of a thread\<close>

text \<open>From a state in which \<open>I\<close> holds, every step keeps \<open>I\<close> and is one that \<open>G\<close> allows.\<close>

primrec guarantees :: "('s \<Rightarrow> bool) \<Rightarrow> ('s \<Rightarrow> 'e list \<Rightarrow> 's \<Rightarrow> bool) \<Rightarrow> ('s, 'e, 'a) thread \<Rightarrow> bool" where
  "guarantees I G (Done x) = True"
| "guarantees I G (Atom f) =
     (\<forall>s. I s \<longrightarrow> (case map_prod (map_prod id (guarantees I G)) id (f s) of ((es, rest), s') \<Rightarrow> I s' \<and> G s es s' \<and> rest))"

lemma guarantees_Atom [simp]:
  "guarantees I G (Atom f) \<longleftrightarrow>
     (\<forall>s es t s'. I s \<longrightarrow> f s = ((es, t), s') \<longrightarrow> I s' \<and> G s es s' \<and> guarantees I G t)"
  by (simp add: map_step split: prod.splits) blast

declare guarantees.simps(2) [simp del]

named_theorems guaranteeing \<open>threads whose steps are as promised\<close>

lemma guarantees_Done [guaranteeing]: "guarantees I G (Done x)"
  by simp

lemma guarantees_then_do [guaranteeing]:
  "guarantees I G t \<Longrightarrow> (\<And>x. guarantees I G (k x)) \<Longrightarrow> guarantees I G (then_do t k)"
proof (induction t rule: thread_induct)
  case (Atom f)
  then show ?case by (simp add: map_step) blast
qed simp

lemma guarantees_emit:
  "(\<And>s x s'. I s \<Longrightarrow> run_state m s = (x, s') \<Longrightarrow> I s' \<and> G s [ev x] s') \<Longrightarrow> guarantees I G (emit ev m)"
  by (auto simp: emit_def split: prod.splits)

lemma guarantees_quiet:
  "(\<And>s x s'. I s \<Longrightarrow> run_state m s = (x, s') \<Longrightarrow> I s' \<and> G s [] s') \<Longrightarrow> guarantees I G (quiet m)"
  by (auto simp: quiet_def split: prod.splits)

lemma guarantees_read:
  "(\<And>s. I s \<Longrightarrow> G s [] s \<and> guarantees I G (k (f s))) \<Longrightarrow> guarantees I G (then_do (quiet (gets_state f)) k)"
  by (simp add: quiet_def gets_state_def)

lemma guarantees_then_quiet:
  "(\<And>s x s'. I s \<Longrightarrow> run_state m s = (x, s') \<Longrightarrow> I s' \<and> G s [] s' \<and> guarantees I G (k x)) \<Longrightarrow> guarantees I G (then_do (quiet m) k)"
  by (auto simp: quiet_def split: prod.splits)

lemma guarantees_sum [guaranteeing]:
  "(\<And>e. guarantees I G (f e)) \<Longrightarrow> (\<And>y. guarantees I G (h y)) \<Longrightarrow> guarantees I G (case x of Inl e \<Rightarrow> f e | Inr y \<Rightarrow> h y)"
  by (cases x) auto

lemma guarantees_option [guaranteeing]:
  "guarantees I G m \<Longrightarrow> (\<And>y. guarantees I G (f y)) \<Longrightarrow> guarantees I G (case x of None \<Rightarrow> m | Some y \<Rightarrow> f y)"
  by (cases x) auto

lemma guarantees_if [guaranteeing]:
  "guarantees I G m \<Longrightarrow> guarantees I G n \<Longrightarrow> guarantees I G (if b then m else n)"
  by simp

section \<open>Pools\<close>

record ('r, 's, 'e, 'a) pool =
  po_requests :: "('r \<times> ('s, 'e, 'a) thread) list"
  po_shared :: 's
  po_history :: "(nat \<times> 'e) list"

definition idle :: "'s \<Rightarrow> ('r, 's, 'e, 'a) pool" where
  "idle s = \<lparr>po_requests = [], po_shared = s, po_history = []\<rparr>"

text \<open>\<open>prog\<close> is the thread a request starts, \<open>env\<close> what else may happen to the shared state.\<close>

inductive inter_step ::
  "('r \<Rightarrow> ('s, 'e, 'a) thread) \<Rightarrow> ('s \<Rightarrow> 's \<Rightarrow> bool) \<Rightarrow> ('r, 's, 'e, 'a) pool \<Rightarrow> ('r, 's, 'e, 'a) pool \<Rightarrow> bool"
  for prog :: "'r \<Rightarrow> ('s, 'e, 'a) thread" and env :: "'s \<Rightarrow> 's \<Rightarrow> bool"
where
  arrives: "inter_step prog env P (P\<lparr>po_requests := po_requests P @ [(r, prog r)]\<rparr>)"
| moves: "i < length (po_requests P) \<Longrightarrow> po_requests P ! i = (r, Atom f) \<Longrightarrow> f (po_shared P) = ((es, t), s') \<Longrightarrow>
    inter_step prog env P
      \<lparr>po_requests = (po_requests P)[i := (r, t)], po_shared = s', po_history = po_history P @ map (Pair i) es\<rparr>"
| interferes: "env (po_shared P) s' \<Longrightarrow> inter_step prog env P (P\<lparr>po_shared := s'\<rparr>)"

inductive inter_run ::
  "('r \<Rightarrow> ('s, 'e, 'a) thread) \<Rightarrow> ('s \<Rightarrow> 's \<Rightarrow> bool) \<Rightarrow> 's \<Rightarrow> ('r, 's, 'e, 'a) pool \<Rightarrow> bool"
  for prog :: "'r \<Rightarrow> ('s, 'e, 'a) thread" and env :: "'s \<Rightarrow> 's \<Rightarrow> bool" and s :: 's
where
  inter_idle: "inter_run prog env s (idle s)"
| inter_more: "inter_run prog env s P \<Longrightarrow> inter_step prog env P Q \<Longrightarrow> inter_run prog env s Q"

text \<open>The requests that have arrived stay in the pool.\<close>

definition requested :: "('r, 's, 'e, 'a) pool \<Rightarrow> 'r set" where
  "requested P = fst ` set (po_requests P)"

lemma requested_step:
  assumes "inter_step prog env P Q"
  shows "requested P \<subseteq> requested Q"
  using assms
proof cases
  case (moves i r f es t s')
  then have "map fst (po_requests Q) = map fst (po_requests P)" by (simp add: map_update list_update_same_conv)
  then show ?thesis unfolding requested_def by (metis image_set subset_refl)
qed (auto simp: requested_def)

text \<open>The events of one request.\<close>

definition events_of :: "nat \<Rightarrow> (nat \<times> 'e) list \<Rightarrow> 'e list" where
  "events_of i h = map snd (filter (\<lambda>e. fst e = i) h)"

lemma events_of_simps [simp]:
  "events_of i [] = []" "events_of i (h @ h') = events_of i h @ events_of i h'"
  "events_of i (e # h) = (if fst e = i then snd e # events_of i h else events_of i h)"
  "events_of i (map (Pair j) es) = (if j = i then es else [])"
  by (induction es) (auto simp: events_of_def)

text \<open>Every request is somewhere on a trail of its own thread, and the history knows no other.\<close>

lemma pool_trails:
  "inter_run prog env s P \<Longrightarrow>
     list_all (\<lambda>e. fst e < length (po_requests P)) (po_history P) \<and>
     (\<forall>i r t. i < length (po_requests P) \<longrightarrow> po_requests P ! i = (r, t) \<longrightarrow> trail (prog r) (events_of i (po_history P)) t)"
proof (induction rule: inter_run.induct)
  case (inter_more P Q)
  from inter_more(2) show ?case
  proof cases
    case (arrives r)
    have "events_of (length (po_requests P)) (po_history P) = []"
      using inter_more.IH by (auto simp: events_of_def list_all_iff filter_empty_conv)
    with inter_more.IH arrives show ?thesis
      by (auto simp: nth_append less_Suc_eq list_all_iff intro: trail_start)
  next
    case (moves i r f es t s')
    have "trail (prog r) (events_of i (po_history P)) (Atom f)" using inter_more.IH moves(2,3) by blast
    then have "trail (prog r) (events_of i (po_history P) @ es) t" using moves(4) by (rule trail_step)
    moreover have "trail (prog r') (events_of j (po_history P)) t'" if "j < length (po_requests P)" "po_requests P ! j = (r', t')" for j r' t'
      using inter_more.IH that by blast
    moreover have "list_all (\<lambda>e. fst e < length (po_requests P)) (po_history P)" using inter_more.IH by blast
    ultimately show ?thesis using moves(2) by (simp add: moves(1) nth_list_update list_all_iff ball_Un)
  qed (use inter_more.IH in simp)
qed (simp add: idle_def)

text \<open>A request can be served alone from an idle pool.\<close>

lemma pool_alone_steps:
  "inter_run prog env s P \<Longrightarrow> po_requests P = [(r, t)] \<Longrightarrow> alone t (po_shared P) = ((es, x), s') \<Longrightarrow>
     inter_run prog env s \<lparr>po_requests = [(r, Done x)], po_shared = s', po_history = po_history P @ map (Pair 0) es\<rparr>"
proof (induction t arbitrary: P es rule: thread_induct)
  case (Done y)
  then show ?case by (cases P) simp
next
  case (Atom f)
  obtain es1 t s1 where f: "f (po_shared P) = ((es1, t), s1)" by (metis surj_pair)
  with Atom.prems(3) obtain es2 where es: "alone t s1 = ((es2, x), s')" "es = es1 @ es2" by (auto split: prod.splits)
  have "inter_run prog env s \<lparr>po_requests = [(r, t)], po_shared = s1, po_history = po_history P @ map (Pair 0) es1\<rparr>"
    by (rule inter_more [OF Atom.prems(1)]) (use moves [of 0 P r f es1 t s1 prog env] Atom.prems(2) f in simp)
  from Atom.IH [OF f this] es show ?case by simp
qed

lemma pool_alone:
  assumes "alone (prog r) s = ((es, x), s')"
  shows "inter_run prog env s \<lparr>po_requests = [(r, Done x)], po_shared = s', po_history = map (Pair 0) es\<rparr>"
  using pool_alone_steps [OF inter_more [OF inter_idle arrives]] assms by (fastforce simp: idle_def)

text \<open>How the shared state evolves with the history, when every step is one that \<open>G\<close> allows.\<close>

inductive evolves :: "('s \<Rightarrow> 'e list \<Rightarrow> 's \<Rightarrow> bool) \<Rightarrow> 's \<Rightarrow> (nat \<times> 'e) list \<Rightarrow> 's \<Rightarrow> bool"
  for G :: "'s \<Rightarrow> 'e list \<Rightarrow> 's \<Rightarrow> bool" and s :: 's
where
  evolves_start: "evolves G s [] s"
| evolves_step: "evolves G s h t \<Longrightarrow> G t es u \<Longrightarrow> evolves G s (h @ map (Pair i) es) u"

text \<open>The threads of the requests in \<open>A\<close> and the environment keep \<open>I\<close> by steps that \<open>G\<close> allows; so does a pool of such requests.\<close>

locale rely_guarantee =
  fixes I :: "'s \<Rightarrow> bool" and G :: "'s \<Rightarrow> 'e list \<Rightarrow> 's \<Rightarrow> bool" and A :: "'r set"
    and prog :: "'r \<Rightarrow> ('s, 'e, 'a) thread" and env :: "'s \<Rightarrow> 's \<Rightarrow> bool"
  assumes threads_guarantee: "r \<in> A \<Longrightarrow> guarantees I G (prog r)"
    and env_guarantees: "I s \<Longrightarrow> env s s' \<Longrightarrow> I s' \<and> G s [] s'"
begin

lemma pool_evolves:
  "inter_run prog env s P \<Longrightarrow> I s \<Longrightarrow> requested P \<subseteq> A \<Longrightarrow>
     I (po_shared P) \<and> evolves G s (po_history P) (po_shared P) \<and> list_all (\<lambda>x. guarantees I G (snd x)) (po_requests P)"
proof (induction rule: inter_run.induct)
  case (inter_more P Q)
  have "requested P \<subseteq> A" using inter_more.prems(2) requested_step [OF inter_more.hyps(2)] by blast
  with inter_more.IH inter_more.prems(1) have IH: "I (po_shared P)" "evolves G s (po_history P) (po_shared P)"
    "list_all (\<lambda>x. guarantees I G (snd x)) (po_requests P)" by blast+
  from inter_more(2) show ?case
  proof cases
    case (arrives r)
    with inter_more.prems(2) have "r \<in> A" by (auto simp: requested_def)
    with arrives IH threads_guarantee show ?thesis by simp
  next
    case (moves i r f es t s')
    with IH(3) have "guarantees I G (Atom f)" by (metis list_all_length snd_conv)
    with moves IH(1) have "I s' \<and> G (po_shared P) es s' \<and> guarantees I G t" by auto
    with moves IH show ?thesis
      by (auto simp: evolves_step list_all_iff dest: set_update_subset_insert [THEN subsetD])
  next
    case (interferes s')
    with IH(1) env_guarantees have "I s'" "G (po_shared P) [] s'" by auto
    with interferes IH evolves_step [of G s "po_history P" "po_shared P" "[]"] show ?thesis by simp
  qed
qed (simp add: idle_def evolves_start)

end

end
