(* ===== verification/HD_Threads.thy ===== *)
theory HD_Threads
  imports HD_Mediation HD_Interleaving
begin

text \<open>
  The gateway's handlers as goroutines. \<^verbatim>\<open>net/http\<close> runs every request in its own; what they share, the usage tracker, the
  provenance cache and the outside world, they change one critical section at a time. Here each handler of
  \<open>HD_Gateway\<close> is a thread with one atomic step per critical section or call of a dependency: every argument is looked up in the
  provenance cache, and every string of a result recorded there, in a step of its own. The append of the audit store is a
  thread itself (\<open>app\<close>), since what is wired may take more than one step for it. The order in which the runtime
  visits the arguments and the fields of a result comes with the request.

  Two theorems join this to the rest. Run alone, a thread does exactly what the handler of \<open>HD_Gateway\<close> does
  (\<open>CallTool_alone\<close>). In any interleaving with other requests, and whatever else happens to the shared state,
  the effects of each request are a run of the protocol of \<open>HD_Mediation\<close> (\<open>pooled_mediation\<close>).
\<close>

section \<open>The handlers\<close>

type_synonym ('w, 'a) gw_thread = "('w gw_state, effect, 'a) thread"

definition label :: "Provenance \<Rightarrow> json \<Rightarrow> Value" where
  "label p v = \<lparr>val_Data = v, val_Provenance = p\<rparr>"

fun taintArguments_thread :: "string \<Rightarrow> gotime \<Rightarrow> (string \<times> json) list \<Rightarrow> Value gomap \<Rightarrow> ('w, Value gomap) gw_thread" where
  "taintArguments_thread subjectID now [] tainted = Done tainted"
| "taintArguments_thread subjectID now ((k, v) # es) tainted =
     (case v of
        JStr s \<Rightarrow>
          then_do (quiet (gets_state (\<lambda>g. prov_resolve (gs_prov g) subjectID s now)))
            (\<lambda>p. taintArguments_thread subjectID now es (gm_upd k (label p v) tainted))
      | _ \<Rightarrow> taintArguments_thread subjectID now es (gm_upd k (label untrustedProvenance v) tainted))"

fun record_thread :: "string \<Rightarrow> json list \<Rightarrow> Provenance \<Rightarrow> gotime \<Rightarrow> ('w, unit) gw_thread" where
  "record_thread subjectID [] prov now = Done ()"
| "record_thread subjectID (v # vs) prov now =
     (case v of
        JStr s \<Rightarrow>
          then_do (quiet (modify_state (gs_prov_update (\<lambda>c. prov_record c subjectID s prov now))))
            (\<lambda>_. record_thread subjectID vs prov now)
      | _ \<Rightarrow> record_thread subjectID vs prov now)"

definition recordTopLevelStrings_thread ::
  "map_order \<Rightarrow> string \<Rightarrow> json \<Rightarrow> Provenance \<Rightarrow> gotime \<Rightarrow> ('w, unit) gw_thread" where
  "recordTopLevelStrings_thread ord subjectID decoded prov now =
     (case decoded of
        JObj es \<Rightarrow> record_thread subjectID (map snd (ord es)) prov now
      | JArr vs \<Rightarrow> record_thread subjectID vs prov now
      | JStr s \<Rightarrow> record_thread subjectID [JStr s] prov now
      | _ \<Rightarrow> Done ())"

definition recordResultProvenance_thread ::
  "map_order \<Rightarrow> 'w Gateway \<Rightarrow> string \<Rightarrow> string \<Rightarrow> ToolResult \<Rightarrow> gotime \<Rightarrow> ('w, unit) gw_thread" where
  "recordResultProvenance_thread ord g subjectID upstreamName result now =
     (let prov = (case gw_upstreamProvenance g upstreamName of
                    Some p \<Rightarrow> p
                  | None \<Rightarrow> \<lparr>prov_Source = upstreamName, prov_Trusted = False\<rparr>)
      in case tr_StructuredContent result of
           None \<Rightarrow> Done ()
         | Some raw \<Rightarrow>
             (case any_of raw of
                None \<Rightarrow> Done ()
              | Some decoded \<Rightarrow> recordTopLevelStrings_thread ord subjectID decoded prov now))"

text \<open>A refusal before the policy is asked: one record, whose fate does not change the answer.\<close>

definition refuse_thread ::
  "(ActionRecord \<Rightarrow> ('w, error option) gw_thread) \<Rightarrow> ActionRecord \<Rightarrow> string \<Rightarrow> ('w, handler_error + ToolResult) gw_thread" where
  "refuse_thread app rec reason = then_do (app rec) (\<lambda>_. Done (Inr (deniedResult reason)))"

definition fail_thread ::
  "(ActionRecord \<Rightarrow> ('w, error option) gw_thread) \<Rightarrow> 'w Gateway \<Rightarrow> Subject \<Rightarrow> Action \<Rightarrow> DecisionResponse \<Rightarrow> string \<Rightarrow>
     ('w, handler_error + ToolResult) gw_thread" where
  "fail_thread app g subject action decision reason =
     then_do (quiet (world (gw_now g))) (\<lambda>now.
     then_do (app (action_record now subject action decision RecordOutcomeFailed)) (\<lambda>_.
     Done (Inr (failedResult reason))))"

definition forward_thread ::
  "(ActionRecord \<Rightarrow> ('w, error option) gw_thread) \<Rightarrow> map_order \<Rightarrow> 'w Gateway \<Rightarrow> Subject \<Rightarrow> 'w Upstream \<Rightarrow> string \<Rightarrow> Action \<Rightarrow>
     DecisionResponse \<Rightarrow> gotime \<Rightarrow> string \<Rightarrow> ('w, handler_error + ToolResult) gw_thread" where
  "forward_thread app ord g subject upstream name action decision now credential =
     (let tc = \<lparr>tc_Tool = name, tc_Arguments = act_Arguments action, tc_Credential = credential\<rparr>
      in then_do (emit (ECall (up_Name upstream) tc) (world (up_CallTool upstream tc))) (\<lambda>r.
         case r of
           Inl callErr \<Rightarrow> fail_thread app g subject action decision (''upstream call failed: '' @ callErr)
         | Inr result \<Rightarrow>
             (let result = (if dr_Outcome decision = OutcomeAllowWithObligations
                            then applyObligations result (dr_Obligations decision) else result)
              in then_do (recordResultProvenance_thread ord g (sub_ID subject) (up_Name upstream) result now) (\<lambda>_.
                 Done (Inr result)))))"

definition act_thread ::
  "(ActionRecord \<Rightarrow> ('w, error option) gw_thread) \<Rightarrow> map_order \<Rightarrow> 'w Gateway \<Rightarrow> CallContext \<Rightarrow> Subject \<Rightarrow> 'w Upstream \<Rightarrow> string \<Rightarrow>
     Action \<Rightarrow> DecisionResponse \<Rightarrow> gotime \<Rightarrow> ('w, handler_error + ToolResult) gw_thread" where
  "act_thread app ord g cc subject upstream name action decision now =
     (case gw_broker g of
        None \<Rightarrow> forward_thread app ord g subject upstream name action decision now []
      | Some exchange \<Rightarrow>
          then_do (emit (EExchange (cc_Credential cc) (up_Name upstream) name)
              (world (exchange (cc_Credential cc) (up_Name upstream) name))) (\<lambda>r.
          case r of
            Inl err \<Rightarrow> fail_thread app g subject action decision (''could not obtain a scoped upstream credential: '' @ err)
          | Inr minted \<Rightarrow> forward_thread app ord g subject upstream name action decision now minted))"

definition labelled_action :: "Value gomap \<Rightarrow> string \<Rightarrow> ToolEntry \<Rightarrow> Action" where
  "labelled_action tainted name entry =
     zero_Action\<lparr>act_Type := ''tool_call'', act_Tool := name, act_Arguments := Some tainted, act_Risk := te_Risk entry,
       act_DataClasses := te_DataClasses entry, act_RequiredScopes := te_Scopes entry\<rparr>"

definition decided_thread ::
  "(ActionRecord \<Rightarrow> ('w, error option) gw_thread) \<Rightarrow> map_order \<Rightarrow> 'w Gateway \<Rightarrow> CallContext \<Rightarrow> Subject \<Rightarrow> 'w Upstream \<Rightarrow> string \<Rightarrow>
     Action \<Rightarrow> DecisionResponse \<Rightarrow> gotime \<Rightarrow> ('w, handler_error + ToolResult) gw_thread" where
  "decided_thread app ord g cc subject upstream name action decision now =
     (let allowed = allow_outcome (dr_Outcome decision)
      in then_do (app (action_record now subject action decision
             (if allowed then RecordOutcomeAllowed else RecordOutcomeDenied))) (\<lambda>err.
         case err of
           Some e \<Rightarrow> Done (Inr (deniedResult (''could not durably record this decision, denying: '' @ e)))
         | None \<Rightarrow>
             if \<not> allowed then Done (Inr (deniedResult (denial_reason decision)))
             else act_thread app ord g cc subject upstream name action decision now))"

definition declared_thread ::
  "(ActionRecord \<Rightarrow> ('w, error option) gw_thread) \<Rightarrow> map_order \<Rightarrow> map_order \<Rightarrow> 'w Gateway \<Rightarrow> CallContext \<Rightarrow> Subject \<Rightarrow> 'w Upstream \<Rightarrow>
     ToolEntry \<Rightarrow> string \<Rightarrow> json gomap \<Rightarrow> gotime \<Rightarrow> ('w, handler_error + ToolResult) gw_thread" where
  "declared_thread app argOrd ord g cc subject upstream entry name arguments now =
     then_do (taintArguments_thread (sub_ID subject) now (argOrd arguments) []) (\<lambda>tainted.
     then_do (quiet (count_usage (sub_ID subject) now)) (\<lambda>usage.
     let action = labelled_action tainted name entry;
         req = call_request cc subject action now usage
     in then_do (emit (EDecide req) (world (gateway_decide g req))) (\<lambda>r.
        decided_thread app ord g cc subject upstream name action (effective_decision r) now)))"

definition CallTool_thread ::
  "(ActionRecord \<Rightarrow> ('w, error option) gw_thread) \<Rightarrow> map_order \<Rightarrow> map_order \<Rightarrow> 'w Gateway \<Rightarrow> CallContext \<Rightarrow> string \<Rightarrow> json gomap \<Rightarrow>
     ('w, handler_error + ToolResult) gw_thread" where
  "CallTool_thread app argOrd ord g cc name arguments =
     then_do (quiet (world (gw_now g))) (\<lambda>now.
     then_do (emit (EResolve (cc_Credential cc)) (world (gw_identity g (cc_Credential cc)))) (\<lambda>r.
     case r of
       Inl err \<Rightarrow>
         refuse_thread app (refusal_record (zero_Subject\<lparr>sub_ID := ''unknown'', sub_Kind := SubjectKindAgent\<rparr>)
           name ''identity.unresolved'' err now) ''credential not recognized''
     | Inr subject \<Rightarrow>
         (case agentDenyReason g subject of
            Some reason \<Rightarrow> refuse_thread app (refusal_record subject name ''agentregistry.undeclared'' reason now) reason
          | None \<Rightarrow>
              (case StaticRegistry_Resolve (gw_registry g) name of
                 None \<Rightarrow> Done (Inl (Protocol \<lparr>pe_Code = -32602, pe_Message = ''unknown tool: '' @ name\<rparr>))
               | Some upstream \<Rightarrow>
                   (case toolregistry_Lookup (gw_toolReg g) name of
                      None \<Rightarrow>
                        refuse_thread app (refusal_record subject name ''toolregistry.undeclared'' ''tool is not registered'' now)
                          ''tool is not registered''
                    | Some entry \<Rightarrow>
                        if te_Upstream entry \<noteq> [] \<and> te_Upstream entry \<noteq> up_Name upstream then
                          (let reason = mismatch_reason name (te_Upstream entry) (up_Name upstream)
                           in refuse_thread app (refusal_record subject name ''toolregistry.upstream_mismatch'' reason now) reason)
                        else declared_thread app argOrd ord g cc subject upstream entry name arguments now)))))"

fun list_loop_thread :: "'w Gateway \<Rightarrow> CallContext \<Rightarrow> Subject \<Rightarrow> gotime \<Rightarrow> Tool list \<Rightarrow> Tool list \<Rightarrow> ('w, Tool list) gw_thread" where
  "list_loop_thread g cc subject now [] visible = Done visible"
| "list_loop_thread g cc subject now (tool # tools) visible =
     (case toolregistry_Lookup (gw_toolReg g) (tool_Name tool) of
        None \<Rightarrow> list_loop_thread g cc subject now tools visible
      | Some entry \<Rightarrow>
          then_do (quiet (gets_state gs_usage)) (\<lambda>usage.
          then_do (emit (EDecide (list_request cc subject entry tool now usage))
              (world (gateway_decide g (list_request cc subject entry tool now usage)))) (\<lambda>r.
          case r of
            Inl err \<Rightarrow> list_loop_thread g cc subject now tools visible
          | Inr decision \<Rightarrow>
              if allow_outcome (dr_Outcome decision) then list_loop_thread g cc subject now tools (visible @ [tool])
              else list_loop_thread g cc subject now tools visible)))"

definition ListTools_thread :: "'w Gateway \<Rightarrow> CallContext \<Rightarrow> string \<Rightarrow> ('w, handler_error + ListToolsResult) gw_thread" where
  "ListTools_thread g cc cursor =
     then_do (emit (EResolve (cc_Credential cc)) (world (gw_identity g (cc_Credential cc)))) (\<lambda>r.
     case r of
       Inl err \<Rightarrow> Done (Inr \<lparr>lt_Tools = [], lt_NextCursor = []\<rparr>)
     | Inr subject \<Rightarrow>
         if agentDenyReason g subject \<noteq> None then Done (Inr \<lparr>lt_Tools = [], lt_NextCursor = []\<rparr>)
         else
           then_do (quiet (world (gw_now g))) (\<lambda>now.
           then_do (list_loop_thread g cc subject now (StaticRegistry_Tools (gw_registry g)) []) (\<lambda>visible.
           Done (Inr \<lparr>lt_Tools = visible, lt_NextCursor = []\<rparr>))))"

text \<open>What a client asks of the gateway, with the orders the runtime picks for it.\<close>

datatype gw_request =
    CallRequest map_order map_order CallContext string "json gomap"
  | ListRequest CallContext string

datatype gw_answer = Called "handler_error + ToolResult" | Listed "handler_error + ListToolsResult"

definition gateway_thread :: "(ActionRecord \<Rightarrow> ('w, error option) gw_thread) \<Rightarrow> 'w Gateway \<Rightarrow> gw_request \<Rightarrow> ('w, gw_answer) gw_thread" where
  "gateway_thread app g req =
     (case req of
        CallRequest argOrd ord cc name arguments \<Rightarrow> then_do (CallTool_thread app argOrd ord g cc name arguments) (\<lambda>x. Done (Called x))
      | ListRequest cc cursor \<Rightarrow> then_do (ListTools_thread g cc cursor) (\<lambda>x. Done (Listed x)))"

text \<open>An audit store whose append is one step.\<close>

definition atomic_append :: "'w Gateway \<Rightarrow> ActionRecord \<Rightarrow> ('w, error option) gw_thread" where
  "atomic_append g rec = emit (EAppend rec) (world (gw_auditLog g rec))"

text \<open>What is required of an append: it emits the event of the append, and alone it is the append of the gateway's store.\<close>

locale audit_thread =
  fixes g :: "'w Gateway" and app :: "ActionRecord \<Rightarrow> ('w, error option) gw_thread"
  assumes append_ensures: "(\<And>x. Q x (tr @ [EAppend rec x])) \<Longrightarrow> ensures (app rec) Q tr"
    and append_alone: "alone (app rec) s = (case run_state (world (gw_auditLog g rec)) s of (x, t) \<Rightarrow> (([EAppend rec x], x), t))"

interpretation atomic: audit_thread g "atomic_append g"
  for g :: "'w Gateway"
  by unfold_locales (auto simp: atomic_append_def intro!: ensures_emit split: prod.splits)

section \<open>A thread alone is the handler\<close>

definition with_trace :: "'w gw_state \<Rightarrow> effect list \<Rightarrow> ('w \<times> effect list) gw_state" where
  "with_trace s tr = \<lparr>gs_usage = gs_usage s, gs_prov = gs_prov s, gs_world = (gs_world s, tr)\<rparr>"

text \<open>\<open>executes t m\<close>: run alone, the thread has the answer, the effects and the final state of the traced handler \<open>m\<close>.\<close>

definition executes :: "('w, 'a) gw_thread \<Rightarrow> (('w \<times> effect list) gw_state, 'a) state \<Rightarrow> bool" where
  "executes t m \<longleftrightarrow>
     (\<forall>s tr. run_state m (with_trace s tr) = (case alone t s of ((es, x), s') \<Rightarrow> (x, with_trace s' (tr @ es))))"

named_theorems executing \<open>threads that execute a handler\<close>

lemma executes_Done [executing]: "executes (Done x) (State_Monad.return x)"
  by (simp add: executes_def)

lemma executes_then_do [executing]:
  "executes t m \<Longrightarrow> (\<And>x. executes (k x) (f x)) \<Longrightarrow> executes (then_do t k) (State_Monad.bind m f)"
  by (simp add: executes_def alone_then_do split: prod.splits)

lemma executes_world [executing]:
  "executes (emit ev (world m)) (world (traced ev m))" "executes (quiet (world m)) (world (silent m))"
  by (simp_all add: executes_def with_trace_def world_def traced_def silent_def split: prod.splits)

lemma executes_count [executing]: "executes (quiet (count_usage i now)) (count_usage i now)"
  by (simp add: executes_def with_trace_def count_usage_def split: prod.splits)

lemma executes_gets:
  "(\<And>s tr. f (with_trace s tr) = h s) \<Longrightarrow> executes (quiet (gets_state h)) (gets_state f)"
  by (simp add: executes_def gets_state_def)

lemma executes_sum [executing]:
  "(\<And>e. executes (f e) (f' e)) \<Longrightarrow> (\<And>y. executes (h y) (h' y)) \<Longrightarrow>
     executes (case x of Inl e \<Rightarrow> f e | Inr y \<Rightarrow> h y) (case x of Inl e \<Rightarrow> f' e | Inr y \<Rightarrow> h' y)"
  by (cases x) auto

lemma executes_option [executing]:
  "executes m m' \<Longrightarrow> (\<And>y. executes (f y) (f' y)) \<Longrightarrow>
     executes (case x of None \<Rightarrow> m | Some y \<Rightarrow> f y) (case x of None \<Rightarrow> m' | Some y \<Rightarrow> f' y)"
  by (cases x) auto

lemma executes_map_option [executing]:
  "executes m m' \<Longrightarrow> (\<And>y. executes (f y) (f' (h y))) \<Longrightarrow>
     executes (case x of None \<Rightarrow> m | Some y \<Rightarrow> f y) (case map_option h x of None \<Rightarrow> m' | Some y \<Rightarrow> f' y)"
  by (cases x) auto

lemma executes_if [executing]:
  "executes m m' \<Longrightarrow> executes n n' \<Longrightarrow> executes (if b then m else n) (if b then m' else n')"
  by simp

text \<open>Labelling the arguments one by one, in whatever order, from a cache that stays the same.\<close>

definition argument_label :: "provenanceCache \<Rightarrow> string \<Rightarrow> gotime \<Rightarrow> json \<Rightarrow> Value" where
  "argument_label c subjectID now v =
     label (case v of JStr s \<Rightarrow> prov_resolve c subjectID s now | _ \<Rightarrow> untrustedProvenance) v"

abbreviation tainting :: "(string \<Rightarrow> provenanceCache) \<Rightarrow> string \<Rightarrow> gotime \<Rightarrow> (string \<times> json) list \<Rightarrow> Value gomap \<Rightarrow> Value gomap" where
  "tainting cs subjectID now \<equiv> fold (\<lambda>(k, v). gm_upd k (argument_label (cs k) subjectID now v))"

lemma tainting_ok: "gm_ok m \<Longrightarrow> gm_ok (tainting cs subjectID now es m)"
  by (induction es arbitrary: m) auto

lemma map_of_tainting:
  "distinct (map fst es) \<Longrightarrow> map_of (tainting cs subjectID now es m) k =
     (case map_of es k of None \<Rightarrow> map_of m k | Some v \<Rightarrow> Some (argument_label (cs k) subjectID now v))"
  by (induction es arbitrary: m) (auto simp: gomap_simps split: option.splits dest!: map_of_SomeD intro: rev_image_eqI)

lemma ordered_map_of:
  assumes "order_ok ord" "gm_ok m"
  shows "distinct (map fst (ord m))" "map_of (ord m) = map_of m"
proof -
  have d: "distinct m" "distinct (map fst m)" using gm_ok_distinct [OF assms(2)] by (auto simp: distinct_map)
  then have o: "distinct (ord m)" "set (ord m) = set m" using assms(1) by (auto simp: order_ok_def)
  then show "distinct (map fst (ord m))" using d(2) by (simp add: distinct_map)
  with d(2) o(2) show "map_of (ord m) = map_of m" by (metis map_of_inject_set)
qed

lemma tainting_ordered:
  assumes "order_ok ord" "gm_ok m"
  shows "tainting cs subjectID now (ord m) [] = gm_map (\<lambda>k. argument_label (cs k) subjectID now) m"
  by (rule gm_ok_ext)
    (use assms in \<open>auto simp: tainting_ok fun_eq_iff map_of_tainting ordered_map_of map_of_gm_map split: option.splits\<close>)

lemma labelled_tainted:
  assumes "order_ok ord" "gm_ok arguments"
  shows "labelled_action (tainting cs (sub_ID subject) now (ord arguments) []) name entry =
    tainted_call cs subject name entry arguments now"
  unfolding tainting_ordered [OF assms] by (simp add: labelled_action_def tainted_call_def argument_label_def [abs_def] label_def)

lemma taint_alone:
  "alone (taintArguments_thread subjectID now es m) s = (([], tainting (\<lambda>_. gs_prov s) subjectID now es m), s)"
proof (induction subjectID now es m rule: taintArguments_thread.induct)
  case (2 subjectID now k v es m)
  then show ?case by (cases v) (simp_all add: alone_then_do gets_state_def argument_label_def)
qed simp

lemma executes_taint:
  "executes (taintArguments_thread subjectID now es [])
     (gets_state (\<lambda>s. tainting (\<lambda>_. gs_prov s) subjectID now es []))"
  by (simp add: executes_def taint_alone gets_state_def with_trace_def)

lemma record_alone:
  "alone (record_thread subjectID vs prov now) s = (([], ()), s\<lparr>gs_prov := record_strings (gs_prov s) subjectID vs prov now\<rparr>)"
proof (induction vs arbitrary: s)
  case (Cons v vs)
  then show ?case by (cases v) (simp_all add: alone_then_do modify_state_def)
qed simp

lemma executes_recordResult [executing]:
  "executes (recordResultProvenance_thread ord g subjectID upstreamName result now)
     (modify_state (gs_prov_update (recordResultProvenance ord g subjectID upstreamName result now)))"
  by (auto simp: executes_def recordResultProvenance_thread_def recordResultProvenance_def recordTopLevelStrings_thread_def
      recordTopLevelStrings_def record_alone alone_then_do modify_state_def with_trace_def Let_def split: option.splits json.splits)

context audit_thread
begin

lemma executes_append [executing]: "executes (app rec) (world (traced (EAppend rec) (gw_auditLog g rec)))"
  by (simp add: executes_def append_alone with_trace_def world_def traced_def split: prod.splits)

lemma executes_fail [executing]:
  "executes (fail_thread app g s a d reason) (fail_call (traced_gateway g) s a d reason)"
  by (simp add: fail_thread_def fail_call_def) (intro executing)

lemma executes_forward [executing]:
  "executes (forward_thread app ord g s u name a d now c) (forward_call ord (traced_gateway g) s (traced_upstream u) name a d now c)"
  by (simp add: forward_thread_def forward_call_def Let_def cong: branch_congs) (intro executing)

lemma executes_act [executing]:
  "executes (act_thread app ord g cc s u name a d now) (act_on_decision ord (traced_gateway g) cc s (traced_upstream u) name a d now)"
  by (cases "gw_broker g") (simp_all add: act_thread_def act_on_decision_def, (intro executing)+)

lemma executes_declared [executing]:
  assumes "order_ok argOrd" "gm_ok arguments"
  shows "executes (declared_thread app argOrd ord g cc s u entry name arguments now)
    (call_declared ord (traced_gateway g) cc s (traced_upstream u) entry name arguments now)"
proof -
  have action: "call_action c s name entry arguments now =
      labelled_action (tainting (\<lambda>_. c) (sub_ID s) now (argOrd arguments) []) name entry" for c
    by (simp add: labelled_tainted [OF assms] call_action_tainted)
  have gets: "State_Monad.bind (gets_state gs_prov) (\<lambda>c. f (h c)) = State_Monad.bind (gets_state (\<lambda>s. h (gs_prov s))) f"
    for h :: "provenanceCache \<Rightarrow> Value gomap" and f :: "Value gomap \<Rightarrow> (('w \<times> effect list) gw_state, handler_error + ToolResult) state"
    by (simp add: gets_state_def State_Monad.bind_def)
  show ?thesis
    unfolding declared_thread_def decided_thread_def call_declared_def Let_def action
    by (subst gets) (simp cong: branch_congs, intro executing executes_taint)
qed

lemma executes_CallTool:
  assumes "order_ok argOrd" "gm_ok arguments"
  shows "executes (CallTool_thread app argOrd ord g cc name arguments) (CallTool ord (traced_gateway g) cc name arguments)"
  by (simp add: CallTool_thread_def CallTool_def refuse_thread_def deny_defs cong: branch_congs) (intro executing assms)

end

lemma executes_list_loop [executing]:
  "executes (list_loop_thread g cc subject now tools visible) (list_loop (traced_gateway g) cc subject now tools visible)"
proof (induction tools arbitrary: visible)
  case (Cons t ts)
  then show ?case
    by (simp cong: branch_congs) (intro executing executes_gets, auto simp: with_trace_def)
qed (simp add: executing)

lemma executes_ListTools: "executes (ListTools_thread g cc cursor) (ListTools (traced_gateway g) cc cursor)"
  by (simp add: ListTools_thread_def ListTools_def cong: branch_congs) (intro executing)

lemma executes_fresh:
  "executes t m \<Longrightarrow> alone t s = (case run_state m (fresh_trace s) of (r, t) \<Rightarrow> ((trace t, r), untraced t))"
  unfolding executes_def fresh_trace_def with_trace_def untraced_def
  by (drule spec [of _ s], drule spec [of _ "[]"]) (simp split: prod.splits)

section \<open>A thread among others follows the protocol\<close>

lemma tainting_other: "k \<notin> set (map fst es) \<Longrightarrow> tainting (cs(k := c)) subjectID now es m = tainting cs subjectID now es m"
  by (induction es arbitrary: m) auto

lemma ensures_taint:
  "distinct (map fst es) \<Longrightarrow> (\<And>cs. Q (tainting cs subjectID now es m) tr) \<Longrightarrow>
     ensures (taintArguments_thread subjectID now es m) Q tr"
proof (induction subjectID now es m rule: taintArguments_thread.induct)
  case (2 subjectID now k v es m)
  have "Q (tainting cs subjectID now es (gm_upd k (argument_label c subjectID now v) m)) tr" for cs c
    using "2.prems"(2) [of "cs(k := c)"] "2.prems"(1) tainting_other [of k es cs c] by (simp del: fun_upd_apply add: fun_upd_same)
  with "2.IH" "2.prems"(1) show ?case
    by (cases v) (auto simp: ensures_then_do gets_state_def argument_label_def intro!: ensures_quiet)
qed simp

lemma ensures_record: "Q () tr \<Longrightarrow> ensures (record_thread subjectID vs prov now) Q tr"
proof (induction vs)
  case (Cons v vs)
  then show ?case by (cases v) (auto simp: ensures_then_do intro!: ensures_quiet)
qed simp

lemma ensures_recordResult: "Q () tr \<Longrightarrow> ensures (recordResultProvenance_thread ord g subjectID upstreamName result now) Q tr"
  by (auto simp: recordResultProvenance_thread_def recordTopLevelStrings_thread_def Let_def ensures_then_do
      simp del: record_thread.simps split: option.splits json.splits intro!: ensures_record)

lemmas thread_ensures = ensures_then_do ensures_emit ensures_quiet

context audit_thread
begin

lemma ensures_refuses:
  assumes "mediation_run g cc name args tr p" "\<And>x. mediation g cc name args p (EAppend rec x) (DeniedWith reason)"
  shows "ensures (refuse_thread app rec reason) (mediated g cc name args) tr"
  unfolding refuse_thread_def ensures_then_do
  by (rule append_ensures) (use assms in \<open>auto simp: answer_of_def intro!: mediatedI\<close>)

lemma ensures_fail:
  assumes "mediation_run g cc name args tr (Failing sub a d reason)"
  shows "ensures (fail_thread app g sub a d reason) (mediated g cc name args) tr"
  unfolding fail_thread_def ensures_then_do
  by (intro ensures_quiet append_ensures)
    (use assms fails [of g cc name args sub a d reason] in \<open>auto simp: answer_of_def intro!: mediatedI\<close>)

lemma ensures_forward:
  assumes run: "mediation_run g cc name args tr p"
    and step: "\<And>r. mediation g cc name args p
      (ECall (up_Name u) \<lparr>tc_Tool = name, tc_Arguments = act_Arguments a, tc_Credential = c\<rparr> r) (called_phase sub a d r)"
  shows "ensures (forward_thread app ord g sub u name a d now c) (mediated g cc name args) tr"
proof -
  let ?call = "ECall (up_Name u) \<lparr>tc_Tool = name, tc_Arguments = act_Arguments a, tc_Credential = c\<rparr>"
  have after: "mediation_run g cc name args (tr @ [?call r]) (called_phase sub a d r)" for r
    by (rule run_step [OF run step])
  have "ensures (fail_thread app g sub a d (''upstream call failed: '' @ e)) (mediated g cc name args) (tr @ [?call (Inl e)])" for e
    by (rule ensures_fail) (use after [of "Inl e"] in \<open>simp add: called_phase_def\<close>)
  moreover have "mediated g cc name args (Inr (enforced d res)) (tr @ [?call (Inr res)])" for res
    using after [of "Inr res"] by (auto simp: mediated_def answer_of_def called_phase_def)
  ultimately show ?thesis
    unfolding forward_thread_def Let_def ensures_then_do enforced_def
    by (intro ensures_emit) (auto split: sum.split simp: ensures_then_do intro!: ensures_recordResult)
qed

lemma ensures_act:
  assumes run: "mediation_run g cc name args tr (Committed sub (up_Name u) a d)"
  shows "ensures (act_thread app ord g cc sub u name a d now) (mediated g cc name args) tr"
proof (cases "gw_broker g")
  case None
  with ensures_forward [OF run calls_static] show ?thesis by (simp add: act_thread_def)
next
  case (Some exchange)
  let ?ex = "EExchange (cc_Credential cc) (up_Name u) name"
  have "ensures (fail_thread app g sub a d (''could not obtain a scoped upstream credential: '' @ e))
      (mediated g cc name args) (tr @ [?ex (Inl e)])" for e
    by (rule ensures_fail) (use run_step [OF run no_credential] Some in simp)
  moreover have "ensures (forward_thread app ord g sub u name a d now c) (mediated g cc name args) (tr @ [?ex (Inr c)])" for c
    by (rule ensures_forward [OF _ calls_armed]) (use run_step [OF run arms] Some in simp)
  ultimately show ?thesis
    unfolding act_thread_def Some option.case ensures_then_do by (intro ensures_emit) (simp split: sum.split)
qed

lemma ensures_decided:
  assumes run: "mediation_run g cc name args tr (Decided sub (up_Name u) now a d)"
  shows "ensures (decided_thread app ord g cc sub u name a d now) (mediated g cc name args) tr"
proof -
  let ?app = "EAppend (action_record now sub a d (if allow_outcome (dr_Outcome d) then RecordOutcomeAllowed else RecordOutcomeDenied))"
  have denied: "mediated g cc name args (Inr (deniedResult reason)) (tr @ [?app x])"
    if "mediation g cc name args (Decided sub (up_Name u) now a d) (?app x) (DeniedWith reason)" for x reason
    using mediatedI [OF run that] by (simp add: answer_of_def)
  have "mediated g cc name args (Inr (deniedResult (''could not durably record this decision, denying: '' @ e))) (tr @ [?app (Some e)])" for e
    by (rule denied) (rule unrecorded [OF refl])
  moreover have "mediated g cc name args (Inr (deniedResult (denial_reason d))) (tr @ [?app None])" if "\<not> allow_outcome (dr_Outcome d)"
    by (rule denied) (use that in \<open>simp add: denies\<close>)
  moreover have "ensures (act_thread app ord g cc sub u name a d now) (mediated g cc name args) (tr @ [?app None])"
    if "allow_outcome (dr_Outcome d)"
    by (rule ensures_act) (use run_step [OF run commits [OF that]] that in simp)
  ultimately show ?thesis
    unfolding decided_thread_def Let_def ensures_then_do
    by (intro append_ensures) (cases "allow_outcome (dr_Outcome d)"; simp split: option.split)
qed

lemma ensures_declared:
  assumes run: "mediation_run g cc name args tr (Identified sub)" and gov: "governed g name sub u entry"
    and ord: "order_ok argOrd" "gm_ok args"
  shows "ensures (declared_thread app argOrd ord g cc sub u entry name args now) (mediated g cc name args) tr"
proof -
  have "ensures (decided_thread app ord g cc sub u name (tainted_call cs sub name entry args now) (effective_decision r) now)
      (mediated g cc name args)
      (tr @ [EDecide (call_request cc sub (tainted_call cs sub name entry args now) now usage) r])" for cs usage r
    by (rule ensures_decided [OF run_step [OF run decides [OF gov refl]]])
  then show ?thesis
    unfolding declared_thread_def Let_def ensures_then_do
    by (intro ensures_taint ensures_quiet ensures_emit) (simp_all add: ordered_map_of [OF ord] labelled_tainted [OF ord])
qed

lemma ensures_CallTool:
  assumes "order_ok argOrd" "gm_ok args"
  shows "ensures (CallTool_thread app argOrd ord g cc name args) (mediated g cc name args) []"
proof -
  let ?M = "mediated g cc name args" and ?tr = "\<lambda>x. [EResolve (cc_Credential cc) x]"
  have id: "mediation_run g cc name args (?tr (Inr sub)) (Identified sub)" for sub
    using run_step [OF run_start resolves] by simp
  have un: "mediation_run g cc name args (?tr (Inl err)) (Unresolved err)" for err
    using run_step [OF run_start resolve_fails] by simp
  note refused = ensures_refuses [OF un unresolved] ensures_refuses [OF id undeclared_agent]
    ensures_refuses [OF id undeclared_tool] ensures_refuses [OF id misrouted]
  have "?M (Inl (Protocol \<lparr>pe_Code = -32602, pe_Message = ''unknown tool: '' @ name\<rparr>)) (?tr (Inr sub))"
    if "agentDenyReason g sub = None" "StaticRegistry_Resolve (gw_registry g) name = None" for sub
    using id [of sub] that by (auto simp: mediated_def answer_of_def intro!: exI [of _ "Identified sub"])
  moreover have "ensures (declared_thread app argOrd ord g cc sub u entry name args now) ?M (?tr (Inr sub))"
    if "governed g name sub u entry" for sub u entry now
    by (rule ensures_declared [OF id that assms])
  ultimately show ?thesis
    unfolding CallTool_thread_def ensures_then_do Let_def
    by (intro ensures_quiet ensures_emit) (auto simp: governed_def split: sum.split option.split intro: refused)
qed

text \<open>The answer and the effects of a finished request, and the effects so far of any other.\<close>

lemma finished_mediated:
  assumes "order_ok argOrd" "gm_ok args" "trail (gateway_thread app g (CallRequest argOrd ord cc name args)) tr (Done x)"
  shows "\<exists>r. x = Called r \<and> mediated g cc name args r tr"
proof -
  have "ensures (gateway_thread app g (CallRequest argOrd ord cc name args)) (\<lambda>x tr. \<exists>r. x = Called r \<and> mediated g cc name args r tr) []"
    using ensures_CallTool [OF assms(1,2), of ord cc name] by (simp add: gateway_thread_def ensures_then_do)
  from ensures_trail [OF assms(3) this] show ?thesis by simp
qed

end

lemma mediation_run_prefix: "mediation_run g cc name args (tr @ tr') p \<Longrightarrow> \<exists>q. mediation_run g cc name args tr q"
proof (induction "tr @ tr'" p arbitrary: tr' rule: mediation_run.induct)
  case (run_step es p e q)
  then show ?case by (cases tr' rule: rev_cases) (auto intro: mediation_run.run_step)
qed (auto intro: run_start)

context audit_thread
begin

lemma trail_mediated:
  assumes "order_ok argOrd" "gm_ok args" "trail (gateway_thread app g (CallRequest argOrd ord cc name args)) tr t"
  shows "\<exists>p. mediation_run g cc name args tr p"
proof -
  from trail_completes [OF assms(3)] obtain tr' x where
    "trail (gateway_thread app g (CallRequest argOrd ord cc name args)) (tr @ tr') (Done x)" by blast
  from finished_mediated [OF assms(1,2) this] show ?thesis by (auto simp: mediated_def dest: mediation_run_prefix)
qed

text \<open>A request in a pool: the effects of its calls are armed by its own effects before.\<close>

lemma pooled_call:
  assumes "inter_run (gateway_thread app g) env s P" "i < length (po_requests P)"
    and "po_requests P ! i = (CallRequest argOrd ord cc name args, t)" "order_ok argOrd" "gm_ok args"
    and "po_history P = pre @ (i, ECall u tc x) # post"
  shows "\<exists>subject a d. armed_trace g cc name args subject u a d (tc_Credential tc) (events_of i pre) \<and>
    tc_Tool tc = name \<and> tc_Arguments tc = act_Arguments a"
proof -
  have "trail (gateway_thread app g (CallRequest argOrd ord cc name args)) (events_of i (po_history P)) t"
    using pool_trails [OF assms(1)] assms(2,3) by blast
  from trail_mediated [OF assms(4,5) this] obtain p where
    "mediation_run g cc name args (events_of i pre @ ECall u tc x # events_of i post) p" using assms(6) by auto
  from run_one_call [OF this] show ?thesis unfolding one_call_def by blast
qed

end

section \<open>Properties\<close>

text \<open>C8. A request that nothing interrupts is served as the handler serves it: the thread of a \<^verbatim>\<open>tools/call\<close>, with one step per critical
  section, run alone, gives the answer, the effects and the final usage counts, provenance cache and outside of \<^verbatim>\<open>CallTool\<close>, in whatever
  order the runtime visits the arguments; so does the thread of a \<^verbatim>\<open>tools/list\<close> with \<^verbatim>\<open>ListTools\<close>.\<close>

theorem CallTool_alone:
  assumes "order_ok argOrd" "gm_ok arguments"
  shows "alone (CallTool_thread (atomic_append g) argOrd ord g cc name arguments) s =
      (case run_state (CallTool ord (traced_gateway g) cc name arguments) (fresh_trace s) of (r, t) \<Rightarrow> ((trace t, r), untraced t)) \<and>
    alone (ListTools_thread g cc cursor) s =
      (case run_state (ListTools (traced_gateway g) cc cursor) (fresh_trace s) of (r, t) \<Rightarrow> ((trace t, r), untraced t))"
  using executes_fresh [OF atomic.executes_CallTool [OF assms]] executes_fresh [OF executes_ListTools] by blast

theorem CallTool_alone_witness:
  "snd (fst (alone (CallTool_thread (atomic_append example_gateway) rev id example_gateway example_cc ''lookup'' []) example_state)) =
     fst (run_state (CallTool id (traced_gateway example_gateway) example_cc ''lookup'' []) (fresh_trace example_state))"
  using CallTool_alone [of rev "[]" example_gateway id example_cc "''lookup''" example_state "[]"]
  by (simp add: order_ok_def split_beta)

text \<open>C6. Complete mediation under concurrency: let any number of requests be served at the same time, each step of one
  interleaved with the steps of the others, and let anything else happen to what they share in between. Then the effects of every
  \<^verbatim>\<open>tools/call\<close> so far, taken out of the common history, are a run of the protocol of a mediated call; if it reached an
  upstream, its own credential was resolved, its own decision was an allowance and its own record was appended before, in this
  order; and if it is finished, its answer is the one that belongs to how its run ended.\<close>

theorem pooled_mediation:
  assumes "inter_run (gateway_thread (atomic_append g) g) env s P" "i < length (po_requests P)"
    and "po_requests P ! i = (CallRequest argOrd ord cc name args, t)" "order_ok argOrd" "gm_ok args"
  shows "(\<exists>p. mediation_run g cc name args (events_of i (po_history P)) p) \<and>
    (\<forall>x. t = Done x \<longrightarrow> (\<exists>r. x = Called r \<and> mediated g cc name args r (events_of i (po_history P)))) \<and>
    (\<forall>pre u tc x post. po_history P = pre @ (i, ECall u tc x) # post \<longrightarrow>
       (\<exists>subject a d. armed_trace g cc name args subject u a d (tc_Credential tc) (events_of i pre) \<and>
          tc_Tool tc = name \<and> tc_Arguments tc = act_Arguments a))"
proof -
  have trail: "trail (gateway_thread (atomic_append g) g (CallRequest argOrd ord cc name args)) (events_of i (po_history P)) t"
    using pool_trails [OF assms(1)] assms(2,3) by blast
  have "\<exists>p. mediation_run g cc name args (events_of i (po_history P)) p"
    by (rule atomic.trail_mediated [OF assms(4,5) trail])
  moreover have "\<exists>r. x = Called r \<and> mediated g cc name args r (events_of i (po_history P))" if "t = Done x" for x
    using atomic.finished_mediated [OF assms(4,5)] trail that by blast
  moreover note atomic.pooled_call [OF assms]
  ultimately show ?thesis by blast
qed

text \<open>A pool in which one call was served: it reached the upstream.\<close>

abbreviation example_call :: gw_request where
  "example_call \<equiv> CallRequest id id example_cc ''lookup'' []"

lemma example_pool:
  "\<exists>P pre x. inter_run (gateway_thread (atomic_append example_gateway) example_gateway) env example_state P \<and>
     po_requests P = [(example_call, Done x)] \<and>
     po_history P = pre @ [(0, ECall ''crm'' \<lparr>tc_Tool = ''lookup'', tc_Arguments = Some [], tc_Credential = []\<rparr> (Inr zero_ToolResult))]"
proof -
  let ?t = "CallTool_thread (atomic_append example_gateway) id id example_gateway example_cc ''lookup'' []"
  obtain r t where run: "run_state (CallTool id (traced_gateway example_gateway) example_cc ''lookup'' []) (fresh_trace example_state) = (r, t)"
    by fastforce
  then have tr: "trace t = butlast (trace t) @
      [ECall ''crm'' \<lparr>tc_Tool = ''lookup'', tc_Arguments = Some [], tc_Credential = []\<rparr> (Inr zero_ToolResult)]"
    using example_trace by simp
  have "executes ?t (CallTool id (traced_gateway example_gateway) example_cc ''lookup'' [])"
    by (rule atomic.executes_CallTool) (simp_all add: order_ok_def)
  from executes_fresh [OF this, of example_state] run
  have "alone (gateway_thread (atomic_append example_gateway) example_gateway example_call) example_state = ((trace t, Called r), untraced t)"
    by (simp add: gateway_thread_def alone_then_do)
  then have "inter_run (gateway_thread (atomic_append example_gateway) example_gateway) env example_state
      \<lparr>po_requests = [(example_call, Done (Called r))], po_shared = untraced t, po_history = map (Pair 0) (trace t)\<rparr>"
    by (rule pool_alone)
  moreover have "map (Pair 0) (trace t) = map (Pair 0) (butlast (trace t)) @
      [(0, ECall ''crm'' \<lparr>tc_Tool = ''lookup'', tc_Arguments = Some [], tc_Credential = []\<rparr> (Inr zero_ToolResult))]"
    by (subst tr) simp
  ultimately show ?thesis by (metis pool.select_convs(1,3))
qed

theorem pooled_mediation_witness:
  "\<exists>P pre u tc x subject a d. inter_run (gateway_thread (atomic_append example_gateway) example_gateway) (\<lambda>_ _. True) example_state P \<and>
     po_history P = pre @ [(0, ECall u tc x)] \<and>
     armed_trace example_gateway example_cc ''lookup'' [] subject u a d (tc_Credential tc) (events_of 0 pre)"
proof -
  obtain P pre y where P: "inter_run (gateway_thread (atomic_append example_gateway) example_gateway) (\<lambda>_ _. True) example_state P"
    "po_requests P = [(example_call, Done y)]"
    "po_history P = pre @ [(0, ECall ''crm'' \<lparr>tc_Tool = ''lookup'', tc_Arguments = Some [], tc_Credential = []\<rparr> (Inr zero_ToolResult))]"
    using example_pool by blast
  then have "0 < length (po_requests P)" "po_requests P ! 0 = (example_call, Done y)" by simp_all
  from pooled_mediation [OF P(1) this] P(1,3) show ?thesis by (fastforce simp: order_ok_def)
qed

end
