(* ===== verification/HD_Concurrent.thy ===== *)
theory HD_Concurrent
  imports HD_System HD_Threads
begin

text \<open>
  The process of the gateway binary with its goroutines: the requests of \<open>HD_Threads\<close>, the reload on a hangup
  signal, which verifies, compiles and publishes a bundle in separate steps, and the stamping store, which reads the active
  bundle in one critical section and appends in another. Readiness probes and the outside may intervene at any time.

  A record can therefore carry the name of a bundle that is not the one its decision was made with, but never one that this
  process did not load as the configuration demands; this is the invariant \<open>attested_by\<close>. What the goroutines do to the audit store is an instance of the
  rely/guarantee interface of \<open>HD_Interleaving\<close>.
\<close>

section \<open>Goroutines of the process\<close>

definition file_append :: "('pq, 'keys, 'x) platform \<Rightarrow> ActionRecord \<Rightarrow> (('pq, 'x) proc, error option) state" where
  "file_append pl rec =
     do {
       io \<leftarrow> outside (pl_append_io pl);
       State (\<lambda>p. case FileStore_Append (pl_sha256 pl) io rec (pr_audit p) of (err, st) \<Rightarrow> (err, p\<lparr>pr_audit := st\<rparr>))
     }"

text \<open>The append of the stamping store. Without verified bundles the plain store is used: nothing is read and nothing stamped.\<close>

definition append_thread :: "('pq, 'keys, 'x) platform \<Rightarrow> ActionRecord \<Rightarrow> (('pq, 'x) proc, error option) gw_thread" where
  "append_thread pl rec =
     then_do (quiet (gets_state (\<lambda>s. stamp_for (pr_policy (gs_world s)) rec))) (\<lambda>stamped.
     emit (EAppend rec) (world (file_append pl stamped)))"

text \<open>Compiling the bundle at a path and putting it in force; publishing its name.\<close>

definition load_inner :: "(string \<Rightarrow> error + 'pq) load_env \<Rightarrow> string \<Rightarrow> (('pq, 'x) proc, error option) state" where
  "load_inner env path =
     State (\<lambda>p.
       case pr_policy p of
         Unverified d \<Rightarrow> (case OPADecider_Load (le_inner env) path d of (e, d') \<Rightarrow> (e, p\<lparr>pr_policy := Unverified d'\<rparr>))
       | Verified l \<Rightarrow>
           (case OPADecider_Load (le_inner env) path (vl_inner l) of
              (e, d') \<Rightarrow> (e, p\<lparr>pr_policy := Verified (l\<lparr>vl_inner := d'\<rparr>)\<rparr>)))"

definition publish :: "string \<Rightarrow> PolicyBundleRef \<Rightarrow> (('pq, 'x) proc, unit) state" where
  "publish path ref =
     modify_state (\<lambda>p.
       case pr_policy p of
         Unverified d \<Rightarrow> p
       | Verified l \<Rightarrow> p\<lparr>pr_policy := Verified (l\<lparr>vl_path := path, vl_active := ref\<rparr>)\<rparr>)"

definition reload_from ::
  "('pq, 'keys, 'x) platform \<Rightarrow> (string \<Rightarrow> error + 'pq) load_env \<Rightarrow> 'pq policy_state \<Rightarrow> (('pq, 'x) proc, error option) gw_thread" where
  "reload_from pl env pol =
     (case pol of
        Unverified d \<Rightarrow>
          if opa_path d = [] then Done (Some ''reload called before an initial Load'')
          else quiet (world (load_inner env (opa_path d)))
      | Verified l \<Rightarrow>
          if vl_path l = [] then Done (Some ''reload called before a successful Load'')
          else
            (case VerifyingLoader_verify (pl_sha256 pl) (pl_ed_verify pl) env l (vl_path l) of
               Inl err \<Rightarrow> Done (Some err)
             | Inr ref \<Rightarrow>
                 then_do (quiet (world (load_inner env (vl_path l)))) (\<lambda>e.
                 case e of
                   Some err \<Rightarrow> Done (Some err)
                 | None \<Rightarrow> then_do (quiet (world (publish (vl_path l) ref))) (\<lambda>_. Done None))))"

definition reload_thread ::
  "('pq, 'keys, 'x) platform \<Rightarrow> (string \<Rightarrow> error + 'pq) load_env \<Rightarrow> (('pq, 'x) proc, error option) gw_thread" where
  "reload_thread pl env = then_do (quiet (gets_state (\<lambda>s. pr_policy (gs_world s)))) (reload_from pl env)"

datatype 'pq proc_request = Serve gw_request | Reload "(string \<Rightarrow> error + 'pq) load_env"

datatype proc_answer = Replied gw_answer | Reloaded "error option"

definition process_thread ::
  "('pq, 'keys, 'x) platform \<Rightarrow> ('pq, 'x) proc Gateway \<Rightarrow> 'pq proc_request \<Rightarrow> (('pq, 'x) proc, proc_answer) gw_thread" where
  "process_thread pl g req =
     (case req of
        Serve r \<Rightarrow> then_do (gateway_thread (append_thread pl) g r) (\<lambda>x. Done (Replied x))
      | Reload env \<Rightarrow> then_do (reload_thread pl env) (\<lambda>x. Done (Reloaded x)))"

text \<open>What else happens: the audit check of a probe, and anything outside the process.\<close>

inductive process_env :: "('pq, 'x) proc gw_state \<Rightarrow> ('pq, 'x) proc gw_state \<Rightarrow> bool" where
  probed: "FileStore_Check ctxErr io (pr_audit (gs_world s)) = (err, st) \<Longrightarrow>
    process_env s (s\<lparr>gs_world := gs_world s\<lparr>pr_audit := st\<rparr>\<rparr>)"
| outside_moves: "process_env s (s\<lparr>gs_world := gs_world s\<lparr>pr_outside := x\<rparr>\<rparr>)"

section \<open>Alone, they are what they were\<close>

lemma serve_Append_file:
  "run_state (serve_Append pl rec) p = run_state (file_append pl (stamp_for (pr_policy p) rec)) p"
  by (auto simp: serve_Append_def file_append_def outside_def stamp_for_def stamp_with_def active_bundle_def StampingStore_Append_def
      split: prod.splits policy_state.splits)

interpretation appending: audit_thread "wired pl cfg src pos ts timeout toolReg agentReg p" "append_thread pl"
  for pl :: "('pq, 'keys, 'x) platform" and cfg src pos ts timeout toolReg agentReg p
proof unfold_locales
  fix Q tr rec
  assume "\<And>x. Q x (tr @ [EAppend rec x])"
  then show "ensures (append_thread pl rec) Q tr"
    unfolding append_thread_def ensures_then_do by (intro ensures_quiet ensures_emit)
next
  fix rec and s :: "('pq, 'x) proc gw_state"
  show "alone (append_thread pl rec) s =
      (case run_state (world (gw_auditLog (wired pl cfg src pos ts timeout toolReg agentReg p) rec)) s of
         (x, t) \<Rightarrow> (([EAppend rec x], x), t))"
    by (simp add: append_thread_def alone_then_do gets_state_def world_def serve_Append_file split: prod.splits)
qed

lemma reload_alone:
  "alone (reload_thread pl env) s =
     (case policy_Reload pl env (pr_policy (gs_world s)) of
        (err, pol) \<Rightarrow> (([], err), s\<lparr>gs_world := gs_world s\<lparr>pr_policy := pol\<rparr>\<rparr>))"
proof (cases "pr_policy (gs_world s)")
  case (Unverified d)
  then show ?thesis
    by (cases "opa_path d = []")
      (auto simp: reload_thread_def reload_from_def alone_then_do gets_state_def policy_Reload_def OPADecider_Reload_def load_inner_def world_def
        split: prod.splits)
next
  case (Verified l)
  then show ?thesis
    by (cases "vl_path l = []"; cases "VerifyingLoader_verify (pl_sha256 pl) (pl_ed_verify pl) env l (vl_path l)")
      (auto simp: reload_thread_def reload_from_def alone_then_do gets_state_def modify_state_def policy_Reload_def VerifyingLoader_Reload_def
        VerifyingLoader_Load_def load_inner_def publish_def world_def split: prod.splits option.splits)
qed

section \<open>The steps of the gateway's threads\<close>

text \<open>
  What the dependencies of a gateway promise of each of their steps, the gateway's threads promise of theirs. The steps that only
  touch what the gateway keeps itself promise it of the same outside.
\<close>

locale gateway_guarantee =
  fixes g :: "'w Gateway" and app :: "ActionRecord \<Rightarrow> ('w, error option) gw_thread" and J :: "'w \<Rightarrow> bool" and H :: "'w \<Rightarrow> effect list \<Rightarrow> 'w \<Rightarrow> bool"
  assumes stays: "J w \<Longrightarrow> H w [] w"
    and identity_step: "J w \<Longrightarrow> run_state (gw_identity g c) w = (x, w') \<Longrightarrow> J w' \<and> H w [EResolve c x] w'"
    and pdp_step: "J w \<Longrightarrow> run_state (gw_pdp g timeout req) w = (y, w') \<Longrightarrow> J w' \<and> H w [EDecide req y] w'"
    and now_step: "J w \<Longrightarrow> run_state (gw_now g) w = (now, w') \<Longrightarrow> J w' \<and> H w [] w'"
    and broker_step: "gw_broker g = Some exchange \<Longrightarrow> J w \<Longrightarrow> run_state (exchange sit u tool) w = (z, w') \<Longrightarrow>
      J w' \<and> H w [EExchange sit u tool z] w'"
    and upstream_step: "StaticRegistry_Resolve (gw_registry g) name = Some up \<Longrightarrow> J w \<Longrightarrow> run_state (up_CallTool up tc) w = (v, w') \<Longrightarrow>
      J w' \<and> H w [ECall (up_Name up) tc v] w'"
    and append_steps: "guarantees (\<lambda>s. J (gs_world s)) (\<lambda>s es t. H (gs_world s) es (gs_world t)) (app rec)"
begin

abbreviation promises :: "('w, 'a) gw_thread \<Rightarrow> bool" where
  "promises \<equiv> guarantees (\<lambda>s. J (gs_world s)) (\<lambda>s es t. H (gs_world s) es (gs_world t))"

lemma promises_emit_world:
  "(\<And>w x w'. J w \<Longrightarrow> run_state m w = (x, w') \<Longrightarrow> J w' \<and> H w [ev x] w') \<Longrightarrow> promises (emit ev (world m))"
  by (rule guarantees_emit) (auto simp: world_def split: prod.splits)

lemma promises_quiet_world:
  "(\<And>w x w'. J w \<Longrightarrow> run_state m w = (x, w') \<Longrightarrow> J w' \<and> H w [] w') \<Longrightarrow> promises (quiet (world m))"
  by (rule guarantees_quiet) (auto simp: world_def split: prod.splits)

lemma promises_ops [guaranteeing]:
  "promises (emit (EResolve c) (world (gw_identity g c)))" "promises (emit (EDecide req) (world (gateway_decide g req)))"
  "promises (quiet (world (gw_now g)))"
  unfolding gateway_decide_def
  by (auto intro!: promises_emit_world promises_quiet_world dest: identity_step pdp_step now_step)

lemma promises_local [guaranteeing]:
  "promises (quiet (gets_state f))" "promises (quiet (modify_state (gs_prov_update h)))" "promises (quiet (count_usage i now))"
  by (auto intro!: guarantees_quiet simp: gets_state_def modify_state_def count_usage_def stays split: prod.splits)

lemma promises_taint [guaranteeing]: "promises (taintArguments_thread subjectID now es m)"
  by (induction subjectID now es m rule: taintArguments_thread.induct) (auto intro!: guaranteeing split: json.split)

lemma promises_record [guaranteeing]: "promises (record_thread subjectID vs prov now)"
  by (induction vs) (auto intro!: guaranteeing split: json.split)

lemma promises_recordResult [guaranteeing]: "promises (recordResultProvenance_thread ord g subjectID upstreamName result now)"
  unfolding recordResultProvenance_thread_def recordTopLevelStrings_thread_def Let_def
  by (auto intro!: guaranteeing simp del: record_thread.simps split: option.split json.split)

lemmas promises_append [guaranteeing] = append_steps

lemma promises_fail [guaranteeing]: "promises (fail_thread app g s a d reason)"
  unfolding fail_thread_def by (intro guaranteeing)

lemma promises_refuse [guaranteeing]: "promises (refuse_thread app rec reason)"
  unfolding refuse_thread_def by (intro guaranteeing)

lemma promises_forward:
  assumes "StaticRegistry_Resolve (gw_registry g) name = Some up"
  shows "promises (forward_thread app ord g s up tool a d now c)"
proof -
  have "promises (emit (ECall (up_Name up) tc) (world (up_CallTool up tc)))" for tc
    by (rule promises_emit_world) (rule upstream_step [OF assms])
  then show ?thesis unfolding forward_thread_def Let_def by (intro guaranteeing)
qed

lemma promises_act:
  assumes "StaticRegistry_Resolve (gw_registry g) name = Some up"
  shows "promises (act_thread app ord g cc s up tool a d now)"
proof (cases "gw_broker g")
  case (Some exchange)
  have "promises (emit (EExchange sit u n) (world (exchange sit u n)))" for sit u n
    by (rule promises_emit_world) (rule broker_step [OF Some])
  then show ?thesis
    unfolding act_thread_def Some option.case by (intro guaranteeing promises_forward [OF assms])
qed (simp add: act_thread_def promises_forward [OF assms])

lemma promises_declared:
  assumes "StaticRegistry_Resolve (gw_registry g) name = Some up"
  shows "promises (declared_thread app argOrd ord g cc s up entry tool args now)"
  unfolding declared_thread_def decided_thread_def Let_def by (intro guaranteeing promises_act [OF assms])

lemma promises_CallTool [guaranteeing]: "promises (CallTool_thread app argOrd ord g cc name args)"
proof (cases "StaticRegistry_Resolve (gw_registry g) name")
  case None
  show ?thesis unfolding CallTool_thread_def None option.case Let_def by (intro guaranteeing)
next
  case (Some up)
  show ?thesis unfolding CallTool_thread_def Some option.case Let_def by (intro guaranteeing promises_declared [OF Some])
qed

lemma promises_list_loop [guaranteeing]: "promises (list_loop_thread g cc s now tools visible)"
  by (induction tools arbitrary: visible) (auto intro!: guaranteeing split: option.split)

lemma promises_ListTools [guaranteeing]: "promises (ListTools_thread g cc cursor)"
  unfolding ListTools_thread_def by (intro guaranteeing)

lemma promises_gateway [guaranteeing]: "promises (gateway_thread app g req)"
  unfolding gateway_thread_def by (cases req) (auto intro!: guaranteeing)

end

section \<open>Policies and names that were loaded\<close>

text \<open>A policy, and a name, that one of the loads \<open>D\<close> could put in force.\<close>

definition loaded_policy :: "('pq, 'keys, 'x) platform \<Rightarrow> config \<Rightarrow> 'pq disk set \<Rightarrow> 'pq \<Rightarrow> bool" where
  "loaded_policy pl cfg D pq \<longleftrightarrow> (\<exists>disk \<in> D. \<exists>name. loadable pl cfg disk = Some (pq, name))"

definition loaded_name :: "('pq, 'keys, 'x) platform \<Rightarrow> config \<Rightarrow> 'pq disk set \<Rightarrow> PolicyBundleRef option \<Rightarrow> bool" where
  "loaded_name pl cfg D name \<longleftrightarrow> (\<exists>disk \<in> D. \<exists>pq. loadable pl cfg disk = Some (pq, name))"

text \<open>
  The invariant of the policy at every moment, reloads under way included: the policy in force is that of one of the loads, and
  the active name is that of one, though perhaps not of the same.
\<close>

definition attested_by :: "('pq, 'keys, 'x) platform \<Rightarrow> config \<Rightarrow> 'pq disk set \<Rightarrow> 'pq policy_state \<Rightarrow> bool" where
  "attested_by pl cfg D pol \<longleftrightarrow>
     (\<exists>pq. opa_prepared (decider pol) = Some pq \<and> loaded_policy pl cfg D pq) \<and> loaded_name pl cfg D (active_bundle pol)"

text \<open>The loads a pool of requests has seen: that of the start and one for every reload that has arrived.\<close>

definition loads_of :: "('pq, 'keys, 'x) platform \<Rightarrow> ('pq proc_request, 's, 'e, 'a) pool \<Rightarrow> 'pq disk set" where
  "loads_of pl P = insert (platform_env pl) {disk. Reload disk \<in> requested P}"

abbreviation policy_ok :: "('pq, 'keys, 'x) platform \<Rightarrow> config \<Rightarrow> 'pq disk set \<Rightarrow> ('pq, 'x) proc \<Rightarrow> bool" where
  "policy_ok pl cfg D w \<equiv>
     keyed pl cfg (pr_policy w) \<and> loaded_path (pr_policy w) = plc_Path (cfg_Policy cfg) \<and> attested_by pl cfg D (pr_policy w)"

lemma governed_attested:
  assumes "in_force pl cfg [platform_env pl] (pr_policy w)" "platform_env pl \<in> D"
  shows "policy_ok pl cfg D w"
  using assms by (auto simp: governed_by_def attested_by_def loaded_policy_def loaded_name_def latest_load_def split: option.splits)

lemma load_inner_ok:
  assumes "policy_ok pl cfg D w" "run_state (load_inner disk (plc_Path (cfg_Policy cfg))) w = (e, w')"
    and "\<And>pq. le_inner disk (plc_Path (cfg_Policy cfg)) = Inr pq \<Longrightarrow> loaded_policy pl cfg D pq"
  shows "policy_ok pl cfg D w' \<and> pr_audit w' = pr_audit w \<and> (e = None \<longrightarrow> (\<exists>pq. le_inner disk (plc_Path (cfg_Policy cfg)) = Inr pq))"
  using assms
  by (cases "le_inner disk (plc_Path (cfg_Policy cfg))"; cases "pr_policy w")
    (auto simp: attested_by_def keyed_def loaded_path_def decider_def active_bundle_def load_inner_def OPADecider_Load_def
        VerifyingLoader_Active_def split: option.splits)

lemma publish_ok:
  assumes "policy_ok pl cfg D w" "run_state (publish (plc_Path (cfg_Policy cfg)) ref) w = (u, w')" "loaded_name pl cfg D (Some ref)"
  shows "policy_ok pl cfg D w' \<and> pr_audit w' = pr_audit w"
  using assms
  by (cases "pr_policy w")
    (auto simp: attested_by_def keyed_def loaded_path_def decider_def active_bundle_def publish_def modify_state_def
        VerifyingLoader_Active_def split: option.splits)

section \<open>What the goroutines do to the audit store\<close>

text \<open>An append is that of a record stamped with a loaded name; nothing else changes the log.\<close>

definition audit_step :: "('pq, 'keys, 'x) platform \<Rightarrow> config \<Rightarrow> 'pq disk set \<Rightarrow> ('pq, 'x) proc \<Rightarrow> effect list \<Rightarrow> ('pq, 'x) proc \<Rightarrow> bool" where
  "audit_step pl cfg D w es w' \<longleftrightarrow>
     (\<exists>rec err io name. es = [EAppend rec err] \<and> loaded_name pl cfg D name \<and>
        FileStore_Append (pl_sha256 pl) io (stamp_with name rec) (pr_audit w) = (err, pr_audit w')) \<or>
     ((\<forall>rec x. EAppend rec x \<notin> set es) \<and>
      file_content (pr_audit w') = file_content (pr_audit w) \<and> fs_lastHash (pr_audit w') = fs_lastHash (pr_audit w))"

lemma audit_step_idle [simp]: "audit_step pl cfg D w [] w"
  by (simp add: audit_step_def)

lemma outside_audit_step:
  assumes "only_outside m" "policy_ok pl cfg D w" "run_state m w = (x, w')" "\<And>rec y. EAppend rec y \<notin> set es"
  shows "policy_ok pl cfg D w' \<and> audit_step pl cfg D w es w'"
proof -
  from assms(1,3) obtain y where "w' = w\<lparr>pr_outside := y\<rparr>" unfolding only_outside_def by (metis snd_conv)
  with assms(2,4) show ?thesis by (simp add: audit_step_def)
qed

lemma file_append_step:
  assumes "policy_ok pl cfg D w" "loaded_name pl cfg D name" "run_state (file_append pl (stamp_with name rec)) w = (err, w')"
  shows "policy_ok pl cfg D w' \<and> audit_step pl cfg D w [EAppend rec err] w'"
proof -
  obtain io y where "run_state (pl_append_io pl) (pr_outside w) = (io, y)" by fastforce
  with assms(3) have "FileStore_Append (pl_sha256 pl) io (stamp_with name rec) (pr_audit w) = (err, pr_audit w')" "pr_policy w' = pr_policy w"
    by (auto simp: file_append_def outside_def split: prod.splits)
  with assms(1,2) show ?thesis unfolding audit_step_def by auto
qed

lemma append_thread_steps:
  "guarantees (\<lambda>s. policy_ok pl cfg D (gs_world s)) (\<lambda>s es t. audit_step pl cfg D (gs_world s) es (gs_world t)) (append_thread pl rec)"
proof -
  have "guarantees (\<lambda>s. policy_ok pl cfg D (gs_world s)) (\<lambda>s es t. audit_step pl cfg D (gs_world s) es (gs_world t))
      (emit (EAppend rec) (world (file_append pl (stamp_with name rec))))" if "loaded_name pl cfg D name" for name
  proof (rule guarantees_emit)
    fix s x s' assume ok: "policy_ok pl cfg D (gs_world s)" and "run_state (world (file_append pl (stamp_with name rec))) s = (x, s')"
    then obtain w' where w': "run_state (file_append pl (stamp_with name rec)) (gs_world s) = (x, w')" "gs_world s' = w'"
      by (auto simp: world_def split: prod.splits)
    from file_append_step [OF ok that w'(1)] w'(2)
    show "policy_ok pl cfg D (gs_world s') \<and> audit_step pl cfg D (gs_world s) [EAppend rec x] (gs_world s')" by simp
  qed
  then show ?thesis
    unfolding append_thread_def stamp_for_def by (intro guarantees_read) (simp add: attested_by_def)
qed

interpretation wired_steps: gateway_guarantee "wired pl cfg src pos ts timeout toolReg agentReg p" "append_thread pl" "policy_ok pl cfg D" "audit_step pl cfg D"
  for pl :: "('pq, 'keys, 'x) platform" and cfg D src pos ts timeout toolReg agentReg p
proof unfold_locales
  let ?g = "wired pl cfg src pos ts timeout toolReg agentReg p"
  fix w w' :: "('pq, 'x) proc" assume ok: "policy_ok pl cfg D w"
  note step = outside_audit_step [OF _ ok]
  show "audit_step pl cfg D w [] w" by simp
  show "policy_ok pl cfg D w' \<and> audit_step pl cfg D w [EResolve c x] w'" if "run_state (gw_identity ?g c) w = (x, w')" for c x
    by (rule step [OF only_outside_identity]) (use that in simp_all)
  show "policy_ok pl cfg D w' \<and> audit_step pl cfg D w [EDecide req y] w'" if "run_state (gw_pdp ?g tmo req) w = (y, w')" for tmo req y
    by (rule step [OF only_outside_decide]) (use that in simp_all)
  show "policy_ok pl cfg D w' \<and> audit_step pl cfg D w [] w'" if "run_state (gw_now ?g) w = (now, w')" for now
    by (rule step [OF only_outside_outside]) (use that in simp_all)
  show "policy_ok pl cfg D w' \<and> audit_step pl cfg D w [EExchange sit u tool z] w'"
    if "gw_broker ?g = Some exchange" "run_state (exchange sit u tool) w = (z, w')" for exchange sit u tool z
    by (rule step [OF only_outside_broker]) (use that in simp_all)
  show "policy_ok pl cfg D w' \<and> audit_step pl cfg D w [ECall (up_Name up) tc v] w'"
    if "StaticRegistry_Resolve (gw_registry ?g) name = Some up" "run_state (up_CallTool up tc) w = (v, w')" for name up tc v
    by (rule step [OF conjunct1 [OF only_outside_upstream [OF wired_upstream [OF that(1)]]] that(2)]) simp
qed (rule append_thread_steps)

text \<open>The reload: each step keeps the invariant, and the log is not touched.\<close>

abbreviation process_ok :: "('pq, 'keys, 'x) platform \<Rightarrow> config \<Rightarrow> 'pq disk set \<Rightarrow> (('pq, 'x) proc, 'a) gw_thread \<Rightarrow> bool" where
  "process_ok pl cfg D \<equiv> guarantees (\<lambda>s. policy_ok pl cfg D (gs_world s)) (\<lambda>s es t. audit_step pl cfg D (gs_world s) es (gs_world t))"

lemma world_step:
  "run_state (world m) s = (x, s') \<longleftrightarrow> (\<exists>w'. run_state m (gs_world s) = (x, w') \<and> s' = s\<lparr>gs_world := w'\<rparr>)"
  by (auto simp: world_def split: prod.splits)

lemma load_steps:
  assumes "\<And>pq. le_inner disk (plc_Path (cfg_Policy cfg)) = Inr pq \<Longrightarrow> loaded_policy pl cfg D pq"
    and "\<And>e. (e = None \<Longrightarrow> \<exists>pq. le_inner disk (plc_Path (cfg_Policy cfg)) = Inr pq) \<Longrightarrow> process_ok pl cfg D (k e)"
  shows "process_ok pl cfg D (then_do (quiet (world (load_inner disk (plc_Path (cfg_Policy cfg))))) k)"
proof (rule guarantees_then_quiet)
  fix s e s' assume ok: "policy_ok pl cfg D (gs_world s)" and "run_state (world (load_inner disk (plc_Path (cfg_Policy cfg)))) s = (e, s')"
  then obtain w' where w': "run_state (load_inner disk (plc_Path (cfg_Policy cfg))) (gs_world s) = (e, w')" "s' = s\<lparr>gs_world := w'\<rparr>"
    by (auto simp: world_step)
  from load_inner_ok [OF ok w'(1) assms(1)] w'(2) assms(2) [of e]
  show "policy_ok pl cfg D (gs_world s') \<and> audit_step pl cfg D (gs_world s) [] (gs_world s') \<and> process_ok pl cfg D (k e)"
    by (auto simp: audit_step_def)
qed

lemma publish_steps:
  assumes "loaded_name pl cfg D (Some ref)"
  shows "process_ok pl cfg D (quiet (world (publish (plc_Path (cfg_Policy cfg)) ref)))"
proof (rule guarantees_quiet)
  fix s u s' assume ok: "policy_ok pl cfg D (gs_world s)" and "run_state (world (publish (plc_Path (cfg_Policy cfg)) ref)) s = (u, s')"
  then obtain w' where w': "run_state (publish (plc_Path (cfg_Policy cfg)) ref) (gs_world s) = (u, w')" "s' = s\<lparr>gs_world := w'\<rparr>"
    by (auto simp: world_step)
  from publish_ok [OF ok w'(1) assms] w'(2) show "policy_ok pl cfg D (gs_world s') \<and> audit_step pl cfg D (gs_world s) [] (gs_world s')"
    by (simp add: audit_step_def)
qed

lemma then_do_Done: "then_do t Done = t"
proof (induction t rule: thread_induct)
  case (Atom f)
  then have "map_prod (map_prod id (\<lambda>t. then_do t Done)) id (f s) = f s" for s
    by (cases "f s") (metis id_apply map_prod_simp prod.collapse)
  then show ?case by simp
qed simp

lemma reload_from_steps:
  assumes "disk \<in> D" "keyed pl cfg pol" "loaded_path pol = plc_Path (cfg_Policy cfg)"
  shows "process_ok pl cfg D (reload_from pl disk pol)"
proof (cases pol)
  case (Unverified d)
  with assms(2) have "loadable pl cfg disk = Some (pq, None)" if "le_inner disk (plc_Path (cfg_Policy cfg)) = Inr pq" for pq
    using that by (auto simp: loadable_def keyed_def split: option.splits)
  then have "process_ok pl cfg D (then_do (quiet (world (load_inner disk (plc_Path (cfg_Policy cfg))))) Done)"
    by (intro load_steps) (use assms(1) in \<open>auto simp: loaded_policy_def\<close>)
  with assms(3) show ?thesis by (simp add: Unverified reload_from_def loaded_path_def then_do_Done)
next
  case (Verified l)
  with assms(2) obtain sig where sig: "plc_Signature (cfg_Policy cfg) = Some sig" "vl_manifestPath l = policyManifestPath (pl_join pl) cfg"
    "ReadPublicKey (pl_pem_decode pl) (pl_parse_pkix pl) (pl_files pl) (sg_PublicKey sig) = Inr (vl_pub l)"
    by (auto simp: keyed_def split: option.splits)
  have "process_ok pl cfg D
      (then_do (quiet (world (load_inner disk (plc_Path (cfg_Policy cfg))))) (\<lambda>e. case e of
         Some err \<Rightarrow> Done (Some err)
       | None \<Rightarrow> then_do (quiet (world (publish (plc_Path (cfg_Policy cfg)) ref))) (\<lambda>_. Done None)))"
    if v: "VerifyingLoader_verify (pl_sha256 pl) (pl_ed_verify pl) disk l (plc_Path (cfg_Policy cfg)) = Inr ref" for ref
  proof (rule load_steps)
    have ok: "loadable pl cfg disk = Some (pq, Some ref)" if "le_inner disk (plc_Path (cfg_Policy cfg)) = Inr pq" for pq
      using that sig v verify_release [OF sig(2)] by (simp add: loadable_def)
    then show "loaded_policy pl cfg D pq" if "le_inner disk (plc_Path (cfg_Policy cfg)) = Inr pq" for pq
      using that assms(1) by (auto simp: loaded_policy_def)
    fix e assume "e = None \<Longrightarrow> \<exists>pq. le_inner disk (plc_Path (cfg_Policy cfg)) = Inr pq"
    with ok assms(1) show "process_ok pl cfg D (case e of
         Some err \<Rightarrow> Done (Some err)
       | None \<Rightarrow> then_do (quiet (world (publish (plc_Path (cfg_Policy cfg)) ref))) (\<lambda>_. Done None))"
      by (cases e) (auto simp: loaded_name_def intro!: guarantees_then_do publish_steps bexI [of _ disk])
  qed
  with assms(3) show ?thesis by (auto simp: Verified reload_from_def loaded_path_def split: sum.split)
qed

lemma reload_steps: "disk \<in> D \<Longrightarrow> process_ok pl cfg D (reload_thread pl disk)"
  unfolding reload_thread_def by (intro guarantees_read) (simp add: reload_from_steps)

text \<open>Requests, and reloads from the disks \<open>D\<close>.\<close>

definition reloading :: "'pq disk set \<Rightarrow> 'pq proc_request set" where
  "reloading D = range Serve \<union> Reload ` D"

lemma process_steps:
  "req \<in> reloading D \<Longrightarrow> process_ok pl cfg D (process_thread pl (wired pl cfg src pos ts timeout toolReg agentReg p) req)"
  unfolding process_thread_def reloading_def
  by (cases req) (auto intro!: guarantees_then_do reload_steps wired_steps.promises_gateway)

interpretation goroutines: rely_guarantee "\<lambda>s. policy_ok pl cfg D (gs_world s)" "\<lambda>s es t. audit_step pl cfg D (gs_world s) es (gs_world t)"
    "reloading D" "process_thread pl (wired pl cfg src pos ts timeout toolReg agentReg p)" process_env
  for pl :: "('pq, 'keys, 'x) platform" and cfg D src pos ts timeout toolReg agentReg p
proof unfold_locales
  show "process_ok pl cfg D (process_thread pl (wired pl cfg src pos ts timeout toolReg agentReg p) req)" if "req \<in> reloading D" for req
    using that by (rule process_steps)
  fix s s' :: "('pq, 'x) proc gw_state"
  assume ok: "policy_ok pl cfg D (gs_world s)" and "process_env s s'"
  from this(2) show "policy_ok pl cfg D (gs_world s') \<and> audit_step pl cfg D (gs_world s) [] (gs_world s')"
  proof cases
    case (probed ctxErr io err st)
    have "fs_lastHash st = fs_lastHash (pr_audit (gs_world s))"
      using probed(2) by (auto simp: FileStore_Check_def split: option.splits append_io.splits)
    with ok probed(1) Check_content [OF probed(2)] show ?thesis by (simp add: audit_step_def)
  qed (use ok in \<open>simp add: audit_step_def\<close>)
qed

section \<open>What the audit log holds of a history\<close>

text \<open>A record as sealed in the log, under a loaded name; a record that can be read back from the log under every such name.\<close>

definition attested_seal :: "('pq, 'keys, 'x) platform \<Rightarrow> config \<Rightarrow> 'pq disk set \<Rightarrow> ActionRecord \<Rightarrow> ActionRecord \<Rightarrow> bool" where
  "attested_seal pl cfg D rec q \<longleftrightarrow> (\<exists>name. loaded_name pl cfg D name \<and> unsealed q = unsealed (stamp_with name rec))"

definition storable :: "('pq, 'keys, 'x) platform \<Rightarrow> config \<Rightarrow> 'pq disk set \<Rightarrow> ActionRecord \<Rightarrow> bool" where
  "storable pl cfg D rec \<longleftrightarrow> (\<forall>name. loaded_name pl cfg D name \<longrightarrow> recordable (stamp_with name rec))"

abbreviation sound_trace :: "('pq, 'keys, 'x) platform \<Rightarrow> config \<Rightarrow> 'pq disk set \<Rightarrow> effect list \<Rightarrow> bool" where
  "sound_trace pl cfg D tr \<equiv> clean_trace tr \<and> list_all (storable pl cfg D) (appended tr)"

definition in_file :: "('pq, 'keys, 'x) platform \<Rightarrow> config \<Rightarrow> 'pq disk set \<Rightarrow> ActionRecord list \<Rightarrow> effect list \<Rightarrow> string \<Rightarrow> bool" where
  "in_file pl cfg D rs tr c \<longleftrightarrow>
     (\<exists>qs. list_all2 (attested_seal pl cfg D) (appended tr) qs \<and> chained (pl_sha256 pl) [] (rs @ qs) \<and>
        prefix (concat (map record_line (rs @ qs))) c)"

definition in_store :: "('pq, 'keys, 'x) platform \<Rightarrow> config \<Rightarrow> 'pq disk set \<Rightarrow> ActionRecord list \<Rightarrow> effect list \<Rightarrow> FileStore \<Rightarrow> bool" where
  "in_store pl cfg D rs tr st \<longleftrightarrow>
     (\<exists>qs. list_all2 (attested_seal pl cfg D) (appended tr) qs \<and> store_rep (pl_sha256 pl) (rs @ qs) st)"

lemma in_store_file: "in_store pl cfg D rs tr st \<Longrightarrow> in_file pl cfg D rs tr (file_content st)"
  unfolding in_store_def in_file_def using store_rep_content by fastforce

lemma in_file_mono: "in_file pl cfg D rs tr c \<Longrightarrow> prefix c d \<Longrightarrow> in_file pl cfg D rs tr d"
  unfolding in_file_def using prefix_order.trans by blast

lemma no_append: "(\<And>rec x. EAppend rec x \<notin> set es) \<Longrightarrow> appended es = []"
  by (induction es rule: appended.induct) (auto simp: all_conj_distrib)

lemma appended_events: "set (appended (events_of i h)) \<subseteq> set (appended (map snd h))"
proof (induction h)
  case (Cons e h)
  have "appended (snd e # events_of i h) = appended [snd e] @ appended (events_of i h)"
    "appended (snd e # map snd h) = appended [snd e] @ appended (map snd h)"
    by (simp_all only: appended_append [symmetric] append_Cons append_Nil)
  with Cons show ?case by auto
qed simp

lemma list_all2_ex: "list_all2 R xs ys \<Longrightarrow> x \<in> set xs \<Longrightarrow> list_ex (R x) ys"
  by (induction rule: list_all2_induct) auto

lemma audit_step_grows: "audit_step pl cfg D w es w' \<Longrightarrow> prefix (file_content (pr_audit w)) (file_content (pr_audit w'))"
  unfolding audit_step_def using Append_prefix by fastforce

lemma audit_step_store:
  assumes "audit_step pl cfg D w es w'" "in_store pl cfg D rs tr (pr_audit w)" "sound_trace pl cfg D es"
  shows "in_store pl cfg D rs (tr @ es) (pr_audit w')"
proof -
  from assms(2) obtain qs where qs: "list_all2 (attested_seal pl cfg D) (appended tr) qs" "store_rep (pl_sha256 pl) (rs @ qs) (pr_audit w)"
    by (auto simp: in_store_def)
  from assms(1) consider
      (append) rec err io name where "es = [EAppend rec err]" "loaded_name pl cfg D name"
        "FileStore_Append (pl_sha256 pl) io (stamp_with name rec) (pr_audit w) = (err, pr_audit w')"
    | (other) "\<forall>rec x. EAppend rec x \<notin> set es" "file_content (pr_audit w') = file_content (pr_audit w)"
        "fs_lastHash (pr_audit w') = fs_lastHash (pr_audit w)"
    unfolding audit_step_def by blast
  then show ?thesis
  proof cases
    case append
    then have none: "err = None" "recordable (stamp_with name rec)"
      using assms(3) by (cases err, auto simp: storable_def)+
    with append(3) qs(2) Append_rep obtain z where
      z: "unsealed z = unsealed (stamp_with name rec)" "store_rep (pl_sha256 pl) ((rs @ qs) @ [z]) (pr_audit w')" by blast
    have "list_all2 (attested_seal pl cfg D) (appended (tr @ es)) (qs @ [z])"
      using qs(1) append(1,2) none(1) z(1) by (auto simp: attested_seal_def intro!: list_all2_appendI)
    with z(2) show ?thesis unfolding in_store_def by fastforce
  next
    case other
    then have "appended es = []" "store_rep (pl_sha256 pl) (rs @ qs) (pr_audit w')"
      using no_append qs(2) by (auto simp: store_rep_def)
    with qs(1) show ?thesis unfolding in_store_def by auto
  qed
qed

text \<open>Every sound beginning of the history is in the file, and a sound history is exactly what the store holds.\<close>

lemma evolves_recorded:
  assumes "evolves (\<lambda>s es t. audit_step pl cfg D (gs_world s) es (gs_world t)) s h t"
    and "store_rep (pl_sha256 pl) rs (pr_audit (gs_world s))"
  shows "(\<forall>m m'. map snd h = m @ m' \<longrightarrow> sound_trace pl cfg D m \<longrightarrow> in_file pl cfg D rs m (file_content (pr_audit (gs_world t)))) \<and>
    (sound_trace pl cfg D (map snd h) \<longrightarrow> in_store pl cfg D rs (map snd h) (pr_audit (gs_world t)))"
  using assms(1)
proof (induction rule: evolves.induct)
  case evolves_start
  have "in_store pl cfg D rs [] (pr_audit (gs_world s))" using assms(2) by (simp add: in_store_def)
  then show ?case using in_store_file by auto
next
  case (evolves_step h t es u i)
  have step: "in_store pl cfg D rs (map snd h @ es) (pr_audit (gs_world u))" if "sound_trace pl cfg D (map snd h @ es)"
    by (rule audit_step_store [OF evolves_step.hyps(2)]) (use evolves_step.IH that in auto)
  have "in_file pl cfg D rs m (file_content (pr_audit (gs_world u)))"
    if m: "map snd h @ es = m @ m'" "sound_trace pl cfg D m" for m m'
  proof -
    from m(1) consider (inside) us where "map snd h = m @ us" | (beyond) us where "m = map snd h @ us" "es = us @ m'"
      by (auto simp: append_eq_append_conv2)
    then show ?thesis
    proof cases
      case inside
      with evolves_step.IH m(2) show ?thesis
        using in_file_mono [OF _ audit_step_grows [OF evolves_step.hyps(2)]] by blast
    next
      case beyond
      show ?thesis
      proof (cases "m' = []")
        case True
        with beyond m(2) step in_store_file show ?thesis by simp
      next
        case False
        with beyond evolves_step.hyps(2) have "appended us = []"
          unfolding audit_step_def by (auto simp: Cons_eq_append_conv append_eq_Cons_conv no_append)
        with beyond m(2) evolves_step.IH have "in_file pl cfg D rs m (file_content (pr_audit (gs_world t)))"
          by (auto simp: in_file_def)
        then show ?thesis using in_file_mono audit_step_grows [OF evolves_step.hyps(2)] by blast
      qed
    qed
  qed
  with step show ?case by (simp add: comp_def)
qed

text \<open>Everything a started process does, in any interleaving.\<close>

lemma process_evolves:
  assumes "runServe ord pl path devInsecure x = Inr (r, s)" "inter_run (process_thread pl (rn_gateway r)) process_env s P"
  shows "attested_by pl (rn_cfg r) (loads_of pl P) (pr_policy (gs_world (po_shared P))) \<and>
    evolves (\<lambda>s es t. audit_step pl (rn_cfg r) (loads_of pl P) (gs_world s) es (gs_world t)) s (po_history P) (po_shared P)"
proof -
  from assms(1) obtain src pol store pos ts timeout toolReg agentReg p y where
    pol: "open_policy pl (rn_cfg r) = Inr pol" and p: "p = \<lparr>pr_policy = pol, pr_audit = store, pr_outside = y\<rparr>" and
    g: "rn_gateway r = wired pl (rn_cfg r) src pos ts timeout toolReg agentReg p" and
    s: "s = \<lparr>gs_usage = newUsageTracker, gs_prov = newProvenanceCache, gs_world = p\<rparr>"
    by (rule runServe_Inr)
  have "in_force pl (rn_cfg r) [platform_env pl] (pr_policy (gs_world s))" using open_policy_governed [OF pol] by (simp add: s p)
  then have start: "policy_ok pl (rn_cfg r) (loads_of pl P) (gs_world s)" by (rule governed_attested) (simp add: loads_of_def)
  have "req \<in> reloading (loads_of pl P)" if "req \<in> requested P" for req
    using that by (cases req) (auto simp: reloading_def loads_of_def)
  then show ?thesis using goroutines.pool_evolves [OF assms(2) [unfolded g] start] by blast
qed

lemma evolves_grows:
  "evolves (\<lambda>s es t. audit_step pl cfg D (gs_world s) es (gs_world t)) s h t \<Longrightarrow>
     prefix (file_content (pr_audit (gs_world s))) (file_content (pr_audit (gs_world t)))"
  by (induction rule: evolves.induct) (auto dest: audit_step_grows intro: prefix_order.trans)

section \<open>Properties\<close>

text \<open>C2. Nothing reaches an upstream off the record, concurrency included. Take any interleaving of requests on a running gateway, reloads of
  the policy and readiness probes, with whatever happens outside. Let the audit log at the start be an intact chain \<open>rs\<close>, let a \<^verbatim>\<open>tools/call\<close> have reached an
  upstream, and until then let no append, of whatever request, have reported an error and every record appended be one that can be read
  back. Then the call's own credential was resolved, its own decision was an allowance and its own record appended before, and
  the audit file has the record of that decision, in the chain of \<open>rs\<close> and all records appended up to then. Where bundles are
  verified, every one of these records is stamped with the name of a bundle that compiled and matched its manifest, signed with the
  configured key, in one of the loads of this process: that of the start or of a reload that has begun. The policy in force is that of one of
  these loads.\<close>

theorem concurrent_calls_on_record:
  assumes "runServe ord0 pl path devInsecure x = Inr (r, s)"
    and "inter_run (process_thread pl (rn_gateway r)) process_env s P"
    and "store_rep (pl_sha256 pl) rs (pr_audit (gs_world s))"
    and "po_history P = pre @ (i, ECall u tc y) # post"
    and "po_requests P ! i = (Serve (CallRequest argOrd ord cc name args), t)" "order_ok argOrd" "gm_ok args"
    and "sound_trace pl (rn_cfg r) (loads_of pl P) (map snd pre)"
  shows "attested_by pl (rn_cfg r) (loads_of pl P) (pr_policy (gs_world (po_shared P))) \<and>
    (\<exists>subject a d now qs. armed_trace (rn_gateway r) cc name args subject u a d (tc_Credential tc) (events_of i pre) \<and>
       tc_Tool tc = name \<and> tc_Arguments tc = act_Arguments a \<and>
       list_all2 (attested_seal pl (rn_cfg r) (loads_of pl P)) (appended (map snd pre)) qs \<and>
       list_ex (attested_seal pl (rn_cfg r) (loads_of pl P) (action_record now subject a d RecordOutcomeAllowed)) qs \<and>
       chained (pl_sha256 pl) [] (rs @ qs) \<and>
       prefix (concat (map record_line (rs @ qs))) (file_content (pr_audit (gs_world (po_shared P)))))"
proof -
  from assms(1) obtain src pos ts timeout toolReg agentReg p where
    g: "rn_gateway r = wired pl (rn_cfg r) src pos ts timeout toolReg agentReg p"
    by (rule runServe_Inr)
  note trails = pool_trails [OF assms(2)]
  have "i < length (po_requests P)" using trails assms(4) by simp
  then have "trail (process_thread pl (rn_gateway r) (Serve (CallRequest argOrd ord cc name args))) (events_of i (po_history P)) t"
    using trails assms(5) by blast
  then obtain t' where "trail (gateway_thread (append_thread pl) (rn_gateway r) (CallRequest argOrd ord cc name args))
      (events_of i (po_history P)) t'"
    unfolding process_thread_def by (auto dest: trail_then_done)
  then obtain ph where "mediation_run (rn_gateway r) cc name args (events_of i pre @ ECall u tc y # events_of i post) ph"
    using appending.trail_mediated [OF assms(6,7)] assms(4) unfolding g by force
  from run_one_call [OF this] obtain subject a d where
    armed: "armed_trace (rn_gateway r) cc name args subject u a d (tc_Credential tc) (events_of i pre)"
      "tc_Tool tc = name" "tc_Arguments tc = act_Arguments a"
    unfolding one_call_def by blast
  then obtain now where own: "appended (events_of i pre) = [action_record now subject a d RecordOutcomeAllowed]"
    using armed_appended by blast
  from process_evolves [OF assms(1,2)] have
    pol: "attested_by pl (rn_cfg r) (loads_of pl P) (pr_policy (gs_world (po_shared P)))" and
    ev: "evolves (\<lambda>s es t. audit_step pl (rn_cfg r) (loads_of pl P) (gs_world s) es (gs_world t)) s (po_history P) (po_shared P)" by blast+
  have "in_file pl (rn_cfg r) (loads_of pl P) rs (map snd pre) (file_content (pr_audit (gs_world (po_shared P))))"
    using evolves_recorded [OF ev assms(3)] assms(4,8) by (metis map_append)
  then obtain qs where qs: "list_all2 (attested_seal pl (rn_cfg r) (loads_of pl P)) (appended (map snd pre)) qs" "chained (pl_sha256 pl) [] (rs @ qs)"
    "prefix (concat (map record_line (rs @ qs))) (file_content (pr_audit (gs_world (po_shared P))))"
    by (auto simp: in_file_def)
  have "action_record now subject a d RecordOutcomeAllowed \<in> set (appended (map snd pre))"
    using own appended_events [of i pre] by (metis list.set_intros(1) subsetD)
  then have "list_ex (attested_seal pl (rn_cfg r) (loads_of pl P) (action_record now subject a d RecordOutcomeAllowed)) qs"
    by (rule list_all2_ex [OF qs(1)])
  with pol armed qs show ?thesis by blast
qed

text \<open>C7. The log stays one verifiable chain under concurrency. Let the audit log at the start be an intact chain \<open>rs\<close>, and let no append have reported
  an error and every record appended be one that can be read back under the names the process may stamp it with. Then, in any
  interleaving of requests, reloads and probes, the audit file has only grown, it holds after \<open>rs\<close> exactly the
  records appended since, in the order in which the appends took place, each linked to the one before and stamped with the name of one of the loads
  of this process, and \<^verbatim>\<open>Verify\<close> accepts it.\<close>

theorem concurrent_log_verifies:
  assumes "runServe ord0 pl path devInsecure x = Inr (r, s)"
    and "inter_run (process_thread pl (rn_gateway r)) process_env s P"
    and "store_rep (pl_sha256 pl) rs (pr_audit (gs_world s))"
    and "sound_trace pl (rn_cfg r) (loads_of pl P) (map snd (po_history P))"
  shows "prefix (file_content (pr_audit (gs_world s))) (file_content (pr_audit (gs_world (po_shared P)))) \<and>
    (\<exists>qs. list_all2 (attested_seal pl (rn_cfg r) (loads_of pl P)) (appended (map snd (po_history P))) qs \<and>
       file_content (pr_audit (gs_world (po_shared P))) = concat (map record_line (rs @ qs)) \<and>
       chained (pl_sha256 pl) [] (rs @ qs) \<and>
       (fs_file (pr_audit (gs_world (po_shared P))) \<noteq> None \<longrightarrow>
          FileStore_Verify (pl_sha256 pl) (pr_audit (gs_world (po_shared P))) = None))"
proof -
  from process_evolves [OF assms(1,2)] have
    ev: "evolves (\<lambda>s es t. audit_step pl (rn_cfg r) (loads_of pl P) (gs_world s) es (gs_world t)) s (po_history P) (po_shared P)" by blast
  have "in_store pl (rn_cfg r) (loads_of pl P) rs (map snd (po_history P)) (pr_audit (gs_world (po_shared P)))"
    using evolves_recorded [OF ev assms(3)] assms(4) by blast
  then obtain qs where qs: "list_all2 (attested_seal pl (rn_cfg r) (loads_of pl P)) (appended (map snd (po_history P))) qs"
    "store_rep (pl_sha256 pl) (rs @ qs) (pr_audit (gs_world (po_shared P)))"
    by (auto simp: in_store_def)
  with evolves_grows [OF ev] store_rep_content [OF qs(2)] show ?thesis
    by (auto dest: store_rep_reads(2))
qed

end
