(* ===== verification/HD_Lifecycle.thy ===== *)
theory HD_Lifecycle
  imports HD_Types
begin

text \<open>
  How a server ends: \<^verbatim>\<open>Serve\<close> and \<^verbatim>\<open>Shutdown\<close> of \<^verbatim>\<open>pkg/mcp/server.go\<close>. The listener runs in a goroutine of its own and reports how
  \<^verbatim>\<open>ListenAndServe\<close> ended; \<^verbatim>\<open>select\<close> takes whichever of the two channels is ready, and either if both are, so the case it takes is an
  argument. \<^verbatim>\<open>http.Server.Shutdown\<close> is the argument \<open>shutdown\<close>, its answer.
\<close>

datatype listen_end = ErrServerClosed | ListenError error

datatype select_case = ContextDone | ListenerEnded listen_end

definition Server_Shutdown :: "error option \<Rightarrow> error option" where
  "Server_Shutdown shutdown = shutdown"

definition Server_Serve :: "error option \<Rightarrow> select_case \<Rightarrow> error option" where
  "Server_Serve shutdown chosen =
     (case chosen of
        ContextDone \<Rightarrow> Server_Shutdown shutdown
      | ListenerEnded ErrServerClosed \<Rightarrow> None
      | ListenerEnded (ListenError err) \<Rightarrow> Some err)"

text \<open>A server that was told to stop, and could, ends without an error whichever of the two \<^verbatim>\<open>select\<close> notices first.\<close>

lemma Serve_stopped: "Server_Serve None ContextDone = None" "Server_Serve shutdown (ListenerEnded ErrServerClosed) = None"
  by (simp_all add: Server_Serve_def Server_Shutdown_def)

end
