(* ===== verification/HD_Deployment.thy ===== *)
theory HD_Deployment
  imports HD_Concurrent
begin

text \<open>
  An example deployment, in which the hypotheses of the properties of the running system hold: a signed policy that allows
  everything, the example of \<open>HD_Bundles\<close>, one upstream with one tool, one declared agent with a session token, an empty audit log. The libraries are
  replaced by constant functions, the upstream answers every request with the same document.
\<close>

definition example_manifest :: Manifest where
  "example_manifest = projr (HD_Bundles.example_Sign ''v1'')"

definition example_name :: PolicyBundleRef where
  "example_name = \<lparr>pbr_Version = ''v1'', pbr_Digest = projr (Manifest_Digest example_sha example_manifest)\<rparr>"

definition example_files :: files where
  "example_files = (\<lambda>path. Inr (if path = ''config.yaml'' then ''yaml'' else ''pem''))
     (''m.json'' := Inr (indent_text 0 (the (json_of_manifest example_manifest)) @ [CHR 10]))"

definition example_reply :: json where
  "example_reply = JObj [(''result'', JObj [(''tools'', JArr [JObj [(''name'', JStr ''lookup'')]])])]"

definition example_allow :: json where
  "example_allow = JObj [(''outcome'', JStr ''allow'')]"

definition example_session :: Token where
  "example_session = \<lparr>tok_Subject = [], tok_Audience = [''gw''], tok_IssuedAt = time_zero, tok_Expiration = time_zero,
     tok_Claims = [''agent'' \<mapsto> JStr ''bot'']\<rparr>"

definition example_platform :: "(nat, unit, unit) platform" where
  "example_platform =
     \<lparr>pl_files = example_files, pl_yaml = (\<lambda>_. Inr example_config_json), pl_join = concat, pl_getenv = (\<lambda>_. []),
      pl_jwks = (\<lambda>_. Inr ()), pl_jwt_parse = (\<lambda>_ _ _ c. if c = ''sit'' then Inr example_session else Inl ''invalid''),
      pl_pem_decode = (\<lambda>s. Some (''PUBLIC KEY'', s)), pl_parse_pkix = (\<lambda>_. Inr (Ed25519Key (take 32 example_key))), pl_sha256 = example_sha,
      pl_ed_verify = HD_Bundles.example_verify, pl_bundles = example_disk, pl_compile = example_compile 1, pl_audit_file = (\<lambda>_. None), pl_open_io = OpenOK,
      pl_eval = (\<lambda>_ _ _ _. Inr [[Some example_allow]]), pl_append_io = State_Monad.return IoOK,
      pl_send = (\<lambda>_ _. State_Monad.return (Answered 200 ''application/json'' (json_text example_reply))),
      pl_post = (\<lambda>_ _. State_Monad.return (CallFailed [])), pl_rand = State_Monad.return None,
      pl_clock = State_Monad.return time_zero\<rparr>"

section \<open>The start\<close>

definition example_registry :: "(nat, unit) proc StaticRegistry" where
  "example_registry =
     (let u = hd (open_upstreams example_platform example_config)
      in \<lparr>sr_upstreams = [u], sr_byTool = [''lookup'' \<mapsto> u],
          sr_tools = [\<lparr>tool_Name = ''lookup'', tool_Description = [], tool_InputSchema = None, tool_Upstream = ''crm''\<rparr>]\<rparr>)"

definition example_proc :: "(nat, unit) proc" where
  "example_proc = \<lparr>pr_policy = Verified \<lparr>vl_inner = \<lparr>opa_prepared = Some 1, opa_path = ''policies''\<rparr>, vl_manifestPath = ''m.json'',
       vl_pub = take 32 example_key, vl_path = ''policies'', vl_active = example_name\<rparr>,
     pr_audit = \<lparr>fs_lastHash = [], fs_file = Some []\<rparr>, pr_outside = ()\<rparr>"

lemma example_envelope:
  "decode_envelope (json_text example_reply) =
     Some \<lparr>en_Result = Some (JObj [(''tools'', JArr [JObj [(''name'', JStr ''lookup'')]])]), en_Error = None\<rparr>"
proof -
  have "parse_json (json_text example_reply) = Some example_reply"
    using parse_json_text [of example_reply] by (simp add: example_reply_def max_depth_def coerce_ascii byte_in_def del: json_text.simps)
  then show ?thesis
    by (simp add: decode_envelope_def envelope_fields_def example_reply_def dec_simps dec_raw_def del: json_text.simps)
qed

lemma example_open_upstreams:
  "open_upstreams example_platform example_config =
     [http_upstream (\<lambda>_ _. outside (State_Monad.return (Answered 200 ''application/json'' (json_text example_reply))))
        (outside (State_Monad.return None)) (NewHTTPUpstream ''crm'' ''http://c'' [])]"
  by (simp add: open_upstreams_def example_config_def default_config_def example_platform_def)

definition example_upstream_crm :: "(nat, unit) proc Upstream" where
  "example_upstream_crm = hd (open_upstreams example_platform example_config)"

lemma outside_return [simp]: "run_state (outside (State_Monad.return a)) p = (a, p)"
  by (simp add: outside_def)

lemma example_list_tools:
  "run_state (up_ListTools example_upstream_crm) p =
     (Inr [\<lparr>tool_Name = ''lookup'', tool_Description = [], tool_InputSchema = None, tool_Upstream = ''crm''\<rparr>], p)"
  by (simp add: example_upstream_crm_def example_open_upstreams http_upstream_def
      HTTPUpstream_ListTools_def HTTPUpstream_call_def read_answer_def example_envelope list_result_def unmarshal_raw_def
      tool_elem_def tool_fields_def dec_simps NewHTTPUpstream_def del: json_text.simps)

lemma example_registry_starts:
  "run_state (NewStaticRegistry (open_upstreams example_platform example_config)) p = (Inr example_registry, p)"
proof -
  have u: "open_upstreams example_platform example_config = [example_upstream_crm]"
    by (simp add: example_upstream_crm_def example_open_upstreams)
  show ?thesis
    by (simp add: u NewStaticRegistry_def StaticRegistry_Refresh_def example_list_tools example_registry_def)
qed

lemma example_timeout: "decisionTimeout example_config = Inr 200000000"
proof -
  have "show_nat 200 @ ''ms'' = ''200ms''" by code_simp
  moreover have "parseDuration (show_nat 200 @ ''ms'') = Inr (int (200 * 10 ^ 6))"
    by (rule parse_whole) (simp_all add: unit_ns_def unit_char_def is_digit_def)
  ultimately have "parseDuration ''200ms'' = Inr 200000000" by simp
  then show ?thesis by (simp add: decisionTimeout_def example_config_def default_config_def)
qed

definition example_tools :: ToolRegistry where
  "example_tools =
     \<lparr>tr_byID = [''lookup'' \<mapsto> \<lparr>te_ToolID = ''lookup'', te_Upstream = [], te_Risk = ''low'', te_DataClasses = [], te_Scopes = []\<rparr>]\<rparr>"

definition example_agents :: AgentRegistry where
  "example_agents = \<lparr>ar_byID = [''bot'' \<mapsto> \<lparr>ae_AgentID = ''bot'', ae_Version = [], ae_Owner = [], ae_Risk = [], ae_DataClasses = []\<rparr>]\<rparr>"

lemma example_registries:
  "toolRegistry example_config = Inr example_tools" "agentRegistry example_config = Inr example_agents"
  by (simp_all add: toolRegistry_def agentRegistry_def example_config_def default_config_def example_tools_def example_agents_def
      toolregistry_New_def agentregistry_New_def tool_entry_error_def agent_entry_error_def risk_valid_def RiskLow_def)

lemma example_identity:
  "open_identity example_platform example_config False = Inr (FromJWT (NewJWTResolver () ''gw'') None)"
  by (simp add: open_identity_def example_config_def default_config_def example_platform_def)

lemma example_signed:
  "HD_Bundles.example_Sign ''v1'' = Inr example_manifest" "Manifest_Digest example_sha example_manifest = Inr (pbr_Digest example_name)"
  "WriteManifest WriteOK ''m.json'' example_manifest (\<lambda>path. Inr (if path = ''config.yaml'' then ''yaml'' else ''pem'')) = (None, example_files)"
proof -
  show m: "HD_Bundles.example_Sign ''v1'' = Inr example_manifest"
    using example_Sign_Inr [of "''v1''"] by (auto simp: example_manifest_def)
  show "Manifest_Digest example_sha example_manifest = Inr (pbr_Digest example_name)"
    by (rule Sign_digest [OF m]) (simp add: example_name_def)
  show "WriteManifest WriteOK ''m.json'' example_manifest (\<lambda>path. Inr (if path = ''config.yaml'' then ''yaml'' else ''pem'')) = (None, example_files)"
    using example_write [OF m, of "''m.json''" "\<lambda>_. Inr []"]
    by (auto simp: WriteManifest_def WriteFile_def example_files_def split: option.splits)
qed

lemma example_verified_name:
  assumes "vl_pub l = take 32 example_key" "vl_manifestPath l = ''m.json''"
  shows "VerifyingLoader_verify example_sha HD_Bundles.example_verify
      \<lparr>le_files = example_files, le_bundles = example_disk, le_inner = compile\<rparr> l ''policies'' = Inr example_name"
proof -
  have "bundle_ok example_disk ''policies''" "utf8 ''v1''" "list_all (\<lambda>e. utf8 (fst e)) (bundle_contents example_disk ''policies'')"
    by (simp_all add: bundle_ok_def example_disk_def coerce_ascii byte_in_def example_contents)
  from signed_bundle_verifies [OF example_signed(1) this example_pair example_signed(3) assms example_signed(2)]
  show ?thesis by (simp add: example_name_def)
qed

lemma example_public_key:
  "ReadPublicKey (pl_pem_decode example_platform) (pl_parse_pkix example_platform) (pl_files example_platform) ''policy.pub'' =
     Inr (take 32 example_key)"
  by (simp add: ReadPublicKey_def read_key_def readPEM_def example_platform_def example_files_def)

lemma example_policy: "open_policy example_platform example_config = Inr (pr_policy example_proc)"
proof -
  have "policyManifestPath (pl_join example_platform) example_config = ''m.json''"
    by (simp add: policyManifestPath_def example_config_def)
  then have "open_policy example_platform example_config =
      (case policy_Load example_platform (platform_env example_platform) ''policies''
         (Verified (NewVerifyingLoader NewOPADecider ''m.json'' (take 32 example_key))) of
       (Some err, _) \<Rightarrow> Inl (''load policy: '' @ err) | (None, p') \<Rightarrow> Inr p')"
    by (simp add: open_policy_def example_config_def example_public_key)
  then show ?thesis
    by (simp add: policy_Load_def VerifyingLoader_Load_def platform_env_def example_platform_def NewVerifyingLoader_def
        example_verified_name OPADecider_Load_def example_compile_def NewOPADecider_def example_proc_def)
qed

lemma example_audit: "NewFileStore (pl_open_io example_platform) path (pl_audit_file example_platform path) = Inr (pr_audit example_proc)"
  by (simp add: NewFileStore_def example_platform_def example_proc_def Let_def)

definition example_wired :: "(nat, unit) proc Gateway \<times> (nat, unit) proc gw_state" where
  "example_wired = build_gateway example_platform example_config (FromJWT (NewJWTResolver () ''gw'') None) example_registry 200000000
     example_tools example_agents example_proc"

definition example_running :: "(nat, unit) running" where
  "example_running = \<lparr>rn_cfg = example_config, rn_gateway = fst example_wired,
     rn_server = \<lparr>sv_AllowedOrigins = [], sv_handler = gateway_handler id (fst example_wired), sv_version = serve_version\<rparr>\<rparr>"

lemma example_runServe: "runServe id example_platform ''config.yaml'' False () = Inr (example_running, snd example_wired)"
proof -
  have "loadConfig (pl_files example_platform) (pl_yaml example_platform) ''config.yaml'' = Inr example_config"
    by (simp add: example_platform_def example_files_def example_loadConfig)
  moreover have p: "\<lparr>pr_policy = pr_policy example_proc, pr_audit = pr_audit example_proc, pr_outside = ()\<rparr> = example_proc"
    by (simp add: example_proc_def)
  ultimately show ?thesis
    by (simp add: runServe_def example_identity example_policy example_audit p start_gateway_def example_registry_starts example_timeout
        example_registries example_running_def example_wired_def case_prod_beta)
qed

section \<open>Small numbers as \<^verbatim>\<open>float64\<close>\<close>

lemma f64_canon_first:
  assumes "f64_of_lit s = Some (neg, m, e)" "m \<noteq> 0"
    and "(if 0 \<le> e then (m * 2 ^ nat e, 1) else (m, 2 ^ nat (- e))) = (p, q)"
    and "near_digits p q (dec_exp p q - 1) = d # ds"
    and "(if neg then ''-'' else '''') @ fmt_digits d (dec_exp p q - 1) = s"
  shows "f64_canon s = Some s"
proof -
  have u: "[Suc 0..<18] = Suc 0 # [2..<18]" by (simp add: upt_rec)
  show ?thesis using assms by (auto simp add: f64_canon_def f64_candidates_def u Let_def)
qed

lemma small_bitlen: "bitlen 60 = 6" "bitlen (Suc 0) = 1" by code_simp+
lemma small_literals: "num_parts ''1'' = Some (False, 1, 0)" "num_parts ''60'' = Some (False, 60, 0)"
    by (simp_all add: num_parts_def split_exp_def split_frac_def int_part_ok_def digits1_def exp_val_def
        is_digit_def digits_val_def digit_val_def)

lemma dec_exps: "dec_exp (2 ^ 52) (2 ^ 52) = 1" "dec_exp (60 * 2 ^ 47) (2 ^ 47) = 2"
  by (simp_all add: dec_exp_def show_nat.simps [of "numeral k" for k] show_nat.simps [of "Suc 0"])

lemma f64_canon_small: "f64_canon ''1'' = Some ''1''" "f64_canon ''60'' = Some ''60''" "f64_canon ''0'' = Some ''0''"
proof -
  have l: "f64_of_lit ''1'' = Some (False, 2 ^ 52, -52)" "f64_of_lit ''60'' = Some (False, 60 * 2 ^ 47, -47)"
    by (simp_all add: f64_of_lit_def small_literals f64_round_def small_bitlen scale2_def round_div_def)
  have n: "near_digits (2 ^ 52) (2 ^ 52) (dec_exp (2 ^ 52) (2 ^ 52) - 1) = [1, 2]"
    "near_digits (60 * 2 ^ 47) (2 ^ 47) (dec_exp (60 * 2 ^ 47) (2 ^ 47) - 1) = [6, 7]"
    unfolding dec_exps by (simp_all add: near_digits_def)
  have "fmt_digits 1 0 = ''1''" "fmt_digits 6 1 = ''60''" by code_simp+
  then have f: "(if False then ''-'' else []) @ fmt_digits 1 (dec_exp (2 ^ 52) (2 ^ 52) - 1) = ''1''"
    "(if False then ''-'' else []) @ fmt_digits 6 (dec_exp (60 * 2 ^ 47) (2 ^ 47) - 1) = ''60''"
    unfolding dec_exps by simp_all
  show "f64_canon ''1'' = Some ''1''" by (rule f64_canon_first [OF l(1) _ _ n(1) f(1)]) simp_all
  show "f64_canon ''60'' = Some ''60''" by (rule f64_canon_first [OF l(2) _ _ n(2) f(2)]) simp_all
  show "f64_canon ''0'' = Some ''0''" by code_simp
qed
section \<open>A call\<close>

definition example_subject :: Subject where
  "example_subject = zero_Subject\<lparr>sub_ID := ''bot'', sub_Kind := SubjectKindAgent\<rparr>"

definition example_action :: Action where
  "example_action = zero_Action\<lparr>act_Type := ''tool_call'', act_Tool := ''lookup'', act_Arguments := Some [], act_Risk := ''low''\<rparr>"

definition example_decision :: DecisionResponse where
  "example_decision = zero_DecisionResponse\<lparr>dr_Outcome := OutcomeAllow\<rparr>"

definition example_sit_cc :: CallContext where
  "example_sit_cc = \<lparr>cc_Credential = ''sit'', cc_ClientInfo = None, cc_ProtocolVersion = ProtocolVersionCurrent, cc_RequestID = ''req_1''\<rparr>"

definition example_decision_request :: DecisionRequest where
  "example_decision_request = call_request example_sit_cc example_subject example_action time_zero (usage_of 1 defaultUsageWindow)"

definition example_request_json :: json where
  "example_request_json = the (json_of_request example_decision_request)"

lemma example_numbers:
  "show_int 0 = ''0''" "show_int 1 = ''1''" "show_int (defaultUsageWindow div nsec_per_sec) = ''60''"
  "valid_num ''0''" "valid_num ''1''" "valid_num ''60''"
proof -
  show "show_int 0 = ''0''" "show_int 1 = ''1''" by code_simp+
  show "show_int (defaultUsageWindow div nsec_per_sec) = ''60''"
    by (simp add: defaultUsageWindow_def nsec_per_sec_def) code_simp
  show "valid_num ''0''" "valid_num ''1''" "valid_num ''60''" by (rule f64_canon_valid, rule f64_canon_small)+
qed

lemmas example_request_simps = example_decision_request_def call_request_def json_of_request_def json_of_context_def json_of_usage_def
  usage_of_def example_time example_sit_cc_def example_subject_def example_action_def json_of_subject_def json_of_action_def
  zero_Subject_def zero_Action_def json_of_arguments_def omit_str_def omit_strs_def SubjectKindAgent_def example_numbers f64_canon_small

lemma example_request_encodes:
  "json_of_request example_decision_request = Some example_request_json"
  by (simp add: example_request_json_def example_decision_request_def call_request_def json_of_request_def json_of_context_def example_time)

lemma example_input: "\<exists>v. policy_input example_decision_request = Some v"
proof -
  have "parse_json (json_text example_request_json) = Some example_request_json"
    using parse_json_text [of example_request_json]
    by (simp add: example_request_json_def example_request_simps max_depth_def coerce_ascii byte_in_def del: json_text.simps)
  moreover have "\<exists>v. any_of example_request_json = Some v"
    by (simp add: example_request_json_def example_request_simps)
  ultimately show ?thesis by (auto simp: policy_input_def example_request_encodes)
qed

lemma example_decides: "run_state (serve_Decide example_platform timeout example_decision_request) example_proc = (Inr example_decision, example_proc)"
proof -
  have "parse_json (json_text example_allow) = Some example_allow"
    using parse_json_text [of example_allow] by (simp add: example_allow_def max_depth_def coerce_ascii byte_in_def del: json_text.simps)
  then have "rego_decision (json_text example_allow) =
      Some \<lparr>rd_Outcome = ''allow'', rd_PolicyID = [], rd_Reason = [], rd_Obligations = []\<rparr>"
    by (simp add: rego_decision_def example_allow_def rego_fields_def dec_simps del: json_text.simps)
  then show ?thesis
    using example_input
    by (auto simp: serve_Decide_def gets_state_def example_platform_def example_proc_def decider_def OPADecider_Decide_def
        example_decision_def zero_DecisionResponse_def OutcomeAllow_def Let_def simp del: json_text.simps)
qed

lemma example_resolves: "run_state (source_Resolve example_platform (FromJWT (NewJWTResolver () ''gw'') None) ''sit'') p = (Inr example_subject, p)"
  by (simp add: source_Resolve_def example_platform_def JWTResolver_Resolve_def NewJWTResolver_def example_session_def
      example_subject_def zero_Subject_def get_string_def get_strings_def)

definition example_tool_call :: ToolCall where
  "example_tool_call = \<lparr>tc_Tool = ''lookup'', tc_Arguments = Some [], tc_Credential = []\<rparr>"

lemma example_calls: "run_state (up_CallTool example_upstream_crm tc) p = (Inr zero_ToolResult, p)"
  by (simp add: example_upstream_crm_def example_open_upstreams http_upstream_def HTTPUpstream_CallTool_def
      HTTPUpstream_call_def read_answer_def example_envelope unmarshal_raw_def tool_result_fields_def dec_simps
      zero_ToolResult_def NewHTTPUpstream_def del: json_text.simps)

lemma example_appends:
  "\<exists>q. run_state (serve_Append example_platform rec) example_proc = (None, q)" if "recordable (stamped example_name rec)"
proof -
  have "store_rep example_sha [] (pr_audit example_proc)" by (simp add: example_proc_def store_rep_def tail_hash_def)
  from store_rep_append [OF this that] show ?thesis
    by (auto simp: serve_Append_def outside_def example_platform_def example_proc_def StampingStore_Append_def VerifyingLoader_Active_def
        split: prod.splits)
qed

lemma example_call_recordable:
  "recordable (stamped example_name (action_record time_zero example_subject example_action example_decision RecordOutcomeAllowed))"
proof -
  have "\<exists>d. pbr_Digest example_name = ''sha256:'' @ hex_encode d"
    using example_signed(2) unfolding Manifest_Digest_def by (auto split: sum.splits simp del: append.simps) metis
  then have "utf8 (pbr_Digest example_name)"
    using hex_encode_ascii by (auto simp: coerce_ascii byte_in_def)
  then show ?thesis
    by (simp add: stamped_def zero_BundleRef_def bundle_wf_def json_of_bundle_ref_def example_name_def recordable_def record_ok_def action_record_def zero_ActionRecord_def zero_Subject_def example_subject_def example_action_def
      example_decision_def OutcomeAllow_def RecordOutcomeAllowed_def SubjectKindAgent_def
      zero_Action_def zero_DecisionResponse_def subject_ok_def int64_ok_def arguments_ok_def record_members_def
      example_time json_of_subject_def json_of_action_def json_of_decision_def json_of_arguments_def
      omit_str_def omit_strs_def coerce_ascii byte_in_def max_depth_def)
qed

lemma example_registry_resolves: "StaticRegistry_Resolve example_registry ''lookup'' = Some example_upstream_crm"
  by (simp add: example_registry_def StaticRegistry_Resolve_def example_upstream_crm_def Let_def)

lemma example_clock: "run_state (outside (pl_clock example_platform)) p = (time_zero, p)"
  by (simp add: example_platform_def)

lemma example_gateway_sel:
  "gw_identity (rn_gateway example_running) = source_Resolve example_platform (FromJWT (NewJWTResolver () ''gw'') None)"
  "gw_auditLog (rn_gateway example_running) = serve_Append example_platform" "gw_broker (rn_gateway example_running) = None"
  "gw_registry (rn_gateway example_running) = example_registry" "gw_toolReg (rn_gateway example_running) = example_tools"
  "gw_now (rn_gateway example_running) = outside (pl_clock example_platform)"
  "gateway_decide (rn_gateway example_running) req = serve_Decide example_platform (Some 200000000) req"
  "agentDenyReason (rn_gateway example_running) example_subject = None"
  "snd example_wired = \<lparr>gs_usage = newUsageTracker, gs_prov = newProvenanceCache, gs_world = example_proc\<rparr>"
  by (simp_all add: example_running_def example_wired_def build_gateway_def gateway_New_def source_broker_def gateway_decide_def
      agentDenyReason_def agentregistry_Lookup_def example_agents_def example_subject_def zero_Subject_def)

text \<open>The call resolves, is decided, recorded, and reaches the upstream.\<close>

lemma example_call_run:
  "\<exists>res t. run_state (CallTool id (traced_gateway (rn_gateway example_running)) example_sit_cc ''lookup'' [])
       (fresh_trace (snd example_wired)) = (res, t) \<and>
     trace t = [EResolve ''sit'' (Inr example_subject), EDecide example_decision_request (Inr example_decision),
       EAppend (action_record time_zero example_subject example_action example_decision RecordOutcomeAllowed) None] @
       ECall ''crm'' example_tool_call (Inr zero_ToolResult) # []"
proof -
  have sub: "sub_ID example_subject = ''bot''" "sub_AgentVersion example_subject = []"
    by (simp_all add: example_subject_def zero_Subject_def)
  have act: "call_action newProvenanceCache example_subject ''lookup''
      \<lparr>te_ToolID = ''lookup'', te_Upstream = [], te_Risk = ''low'', te_DataClasses = [], te_Scopes = []\<rparr> [] time_zero = example_action"
    by (simp add: call_action_def example_action_def taintArguments_def gm_map_def zero_Action_def)
  have req: "call_request example_sit_cc example_subject example_action time_zero (usage_of 1 defaultUsageWindow) = example_decision_request"
    by (simp add: example_decision_request_def)
  have use: "fst (usage_usage newUsageTracker ''bot'' time_zero) = usage_of 1 defaultUsageWindow"
    by (simp add: usage_usage_def recordAndCount_def current_window_def newUsageTracker_def Let_def)
  obtain q where q: "run_state (serve_Append example_platform
      (action_record time_zero example_subject example_action example_decision RecordOutcomeAllowed)) example_proc = (None, q)"
    using example_appends [OF example_call_recordable] by blast
  have name: "up_Name example_upstream_crm = ''crm''"
    by (simp add: example_upstream_crm_def example_open_upstreams http_upstream_def NewHTTPUpstream_def)
  have allow: "dr_Outcome example_decision = OutcomeAllow"
    by (simp add: example_decision_def zero_DecisionResponse_def)
  have args: "act_Arguments example_action = Some []" by (simp add: example_action_def)
  have cred: "cc_Credential example_sit_cc = ''sit''" by (simp add: example_sit_cc_def)
  show ?thesis
    by (simp add: CallTool_def call_declared_def act_on_decision_def forward_call_def count_usage_def gets_state_def modify_state_def
        world_simps fresh_trace_def example_gateway_sel example_clock example_resolves cred example_registry_resolves
        toolregistry_Lookup_def example_tools_def name use case_prod_beta sub act req example_decides effective_decision_def allow
        allow_outcome_def q example_calls example_tool_call_def outcome_defs args Let_def)
qed

section \<open>Witnesses\<close>

lemma example_log_empty: "store_rep (pl_sha256 example_platform) [] (pr_audit (gs_world (snd example_wired)))"
  by (simp add: example_gateway_sel example_proc_def store_rep_def tail_hash_def)

text \<open>What the start could load; a disk with another policy, for which there is no manifest, offers nothing.\<close>

lemma example_loadable:
  "loadable example_platform example_config (platform_env example_platform) = Some (1, Some example_name)"
  "loadable example_platform example_config \<lparr>le_files = (\<lambda>_. Inl []), le_bundles = bundles, le_inner = inner\<rparr> = None"
proof -
  have m: "policyManifestPath (pl_join example_platform) example_config = ''m.json''"
    by (simp add: policyManifestPath_def example_config_def)
  let ?l = "NewVerifyingLoader () ''m.json'' (take 32 example_key)"
  have sel: "pl_sha256 example_platform = example_sha" "pl_ed_verify example_platform = HD_Bundles.example_verify"
    "platform_env example_platform = \<lparr>le_files = example_files, le_bundles = example_disk, le_inner = example_compile 1\<rparr>"
    "plc_Path (cfg_Policy example_config) = ''policies''"
    by (simp_all add: example_platform_def platform_env_def example_config_def)
  have "VerifyingLoader_verify example_sha HD_Bundles.example_verify
      \<lparr>le_files = example_files, le_bundles = example_disk, le_inner = example_compile 1\<rparr> ?l ''policies'' = Inr example_name"
    by (rule example_verified_name) (simp_all add: NewVerifyingLoader_def)
  then have "release example_platform example_config (take 32 example_key) (platform_env example_platform) = Some example_name"
    using verify_release [of ?l example_platform example_config "platform_env example_platform" example_name]
    by (simp add: m NewVerifyingLoader_def sel)
  then show "loadable example_platform example_config (platform_env example_platform) = Some (1, Some example_name)"
    using example_public_key
    by (simp add: loadable_def example_config_def) (simp add: platform_env_def example_platform_def example_compile_def)
  show "loadable example_platform example_config \<lparr>le_files = (\<lambda>_. Inl []), le_bundles = bundles, le_inner = inner\<rparr> = None"
    by (simp add: loadable_def release_def ReadManifest_def example_config_def split: sum.split option.split)
qed

theorem serve_stays_governed_witness:
  "\<exists>t. served example_platform example_running (snd example_wired)
       [\<lparr>le_files = (\<lambda>_. Inl []), le_bundles = example_disk, le_inner = example_compile 2\<rparr>] t \<and>
     opa_prepared (decider (pr_policy (gs_world t))) = Some 1 \<and> active_bundle (pr_policy (gs_world t)) = Some example_name"
proof -
  let ?disk = "\<lparr>le_files = (\<lambda>_. Inl []), le_bundles = example_disk, le_inner = example_compile 2\<rparr> :: nat disk"
  obtain err pol where "policy_Reload example_platform ?disk (pr_policy (gs_world (snd example_wired))) = (err, pol)" by fastforce
  from stepped [OF started reload [OF this], of example_running] obtain t where
    t: "served example_platform example_running (snd example_wired) [?disk] t" by auto
  have "governed_by example_platform example_config [platform_env example_platform, ?disk] (pr_policy (gs_world t))"
    using serve_stays_governed [OF example_runServe t] by (simp add: example_running_def)
  with t show ?thesis by (auto simp: governed_by_def latest_load_def example_loadable)
qed

theorem calls_on_record_witness:
  "\<exists>res t q. run_state (CallTool id (traced_gateway (rn_gateway example_running)) example_sit_cc ''lookup'' [])
       (fresh_trace (snd example_wired)) = (res, t) \<and>
     (\<exists>pre post. trace t = pre @ ECall ''crm'' example_tool_call (Inr zero_ToolResult) # post) \<and>
     chained example_sha [] [q] \<and> prefix (record_line q) (file_content (pr_audit (fst (gs_world t)))) \<and> rec_PolicyBundle q = Some example_name"
proof -
  obtain res t where run: "run_state (CallTool id (traced_gateway (rn_gateway example_running)) example_sit_cc ''lookup'' [])
       (fresh_trace (snd example_wired)) = (res, t)" and
    t: "trace t = [EResolve ''sit'' (Inr example_subject), EDecide example_decision_request (Inr example_decision),
       EAppend (action_record time_zero example_subject example_action example_decision RecordOutcomeAllowed) None] @
       ECall ''crm'' example_tool_call (Inr zero_ToolResult) # []"
    using example_call_run by blast
  have stamp: "stamp_for (pr_policy (gs_world (snd example_wired))) = stamped example_name"
    by (simp add: fun_eq_iff example_gateway_sel example_proc_def stamp_for_def active_bundle_def stamp_with_def VerifyingLoader_Active_def)
  have rec: "list_all (\<lambda>rec. recordable (stamp_for (pr_policy (gs_world (snd example_wired))) rec))
      (appended [EResolve ''sit'' (Inr example_subject), EDecide example_decision_request (Inr example_decision),
       EAppend (action_record time_zero example_subject example_action example_decision RecordOutcomeAllowed) None])"
    by (simp add: stamp example_call_recordable)
  obtain q rec where "chained (pl_sha256 example_platform) [] [q]" "prefix (record_line q) (file_content (pr_audit (fst (gs_world t))))"
    "unsealed q = unsealed (stamped example_name rec)"
    using calls_on_record [OF example_runServe started example_log_empty run t rec] unfolding stamp by auto
  moreover have "pl_sha256 example_platform = example_sha" by (simp add: example_platform_def)
  moreover have "rec_PolicyBundle q = Some example_name"
    using arg_cong [OF calculation(3), of rec_PolicyBundle] by (simp add: unsealed_def stamped_def example_name_def zero_BundleRef_def)
  ultimately show ?thesis using run t by metis
qed

text \<open>The same call as the only goroutine of the process.\<close>

abbreviation example_goroutine :: "nat proc_request" where
  "example_goroutine \<equiv> Serve (CallRequest id id example_sit_cc ''lookup'' [])"

lemma example_interleaving:
  "\<exists>P x. inter_run (process_thread example_platform (rn_gateway example_running)) process_env (snd example_wired) P \<and>
     po_requests P = [(example_goroutine, Done x)] \<and>
     po_history P = [(0, EResolve ''sit'' (Inr example_subject)), (0, EDecide example_decision_request (Inr example_decision)),
       (0, EAppend (action_record time_zero example_subject example_action example_decision RecordOutcomeAllowed) None)] @
       (0, ECall ''crm'' example_tool_call (Inr zero_ToolResult)) # []"
proof -
  obtain res t where run: "run_state (CallTool id (traced_gateway (rn_gateway example_running)) example_sit_cc ''lookup'' [])
       (fresh_trace (snd example_wired)) = (res, t)" and
    t: "trace t = [EResolve ''sit'' (Inr example_subject), EDecide example_decision_request (Inr example_decision),
       EAppend (action_record time_zero example_subject example_action example_decision RecordOutcomeAllowed) None] @
       ECall ''crm'' example_tool_call (Inr zero_ToolResult) # []"
    using example_call_run by blast
  obtain src pos ts timeout toolReg agentReg p where
    g: "rn_gateway example_running = wired example_platform (rn_cfg example_running) src pos ts timeout toolReg agentReg p"
    using example_runServe by (rule runServe_Inr)
  have "executes (CallTool_thread (append_thread example_platform) id id (rn_gateway example_running) example_sit_cc ''lookup'' [])
      (CallTool id (traced_gateway (rn_gateway example_running)) example_sit_cc ''lookup'' [])"
    unfolding g by (rule appending.executes_CallTool) (simp_all add: order_ok_def)
  from executes_fresh [OF this, of "snd example_wired"] run
  have "alone (process_thread example_platform (rn_gateway example_running) example_goroutine) (snd example_wired) =
      ((trace t, Replied (Called res)), untraced t)"
    by (simp add: process_thread_def gateway_thread_def alone_then_do)
  then have "inter_run (process_thread example_platform (rn_gateway example_running)) process_env (snd example_wired)
      \<lparr>po_requests = [(example_goroutine, Done (Replied (Called res)))], po_shared = untraced t, po_history = map (Pair 0) (trace t)\<rparr>"
    by (rule pool_alone)
  then show ?thesis unfolding t by (intro exI conjI) (assumption, simp_all)
qed

lemma example_loads:
  assumes "po_requests P = [(example_goroutine, t)]"
  shows "loaded_name example_platform (rn_cfg example_running) (loads_of example_platform P) name \<longleftrightarrow> name = Some example_name"
  using assms example_loadable(1) by (auto simp: loaded_name_def loads_of_def requested_def example_running_def)

lemma example_storable:
  assumes "po_requests P = [(example_goroutine, t)]"
  shows "storable example_platform (rn_cfg example_running) (loads_of example_platform P)
     (action_record time_zero example_subject example_action example_decision RecordOutcomeAllowed)"
  using example_call_recordable by (simp add: storable_def example_loads [OF assms] stamp_with_def)

lemma example_stamped:
  assumes "po_requests P = [(example_goroutine, t)]" "attested_seal example_platform (rn_cfg example_running) (loads_of example_platform P) rec q"
  shows "rec_PolicyBundle q = Some example_name"
proof -
  have "unsealed q = unsealed (stamped example_name rec)"
    using assms(2) by (auto simp: attested_seal_def example_loads [OF assms(1)] stamp_with_def)
  from arg_cong [OF this, of rec_PolicyBundle] show ?thesis by (simp add: unsealed_def stamped_def example_name_def zero_BundleRef_def)
qed

theorem concurrent_calls_on_record_witness:
  "\<exists>P pre u tc y q. inter_run (process_thread example_platform (rn_gateway example_running)) process_env (snd example_wired) P \<and>
     po_history P = pre @ [(0, ECall u tc y)] \<and> chained example_sha [] [q] \<and> rec_PolicyBundle q = Some example_name \<and>
     prefix (record_line q) (file_content (pr_audit (gs_world (po_shared P))))"
proof -
  obtain P x where P: "inter_run (process_thread example_platform (rn_gateway example_running)) process_env (snd example_wired) P"
    "po_requests P = [(example_goroutine, Done x)]"
    and h: "po_history P = [(0, EResolve ''sit'' (Inr example_subject)), (0, EDecide example_decision_request (Inr example_decision)),
       (0, EAppend (action_record time_zero example_subject example_action example_decision RecordOutcomeAllowed) None)] @
       (0, ECall ''crm'' example_tool_call (Inr zero_ToolResult)) # []"
    using example_interleaving by blast
  have "po_requests P ! 0 = (example_goroutine, Done x)" using P(2) by simp
  from concurrent_calls_on_record [OF example_runServe P(1) example_log_empty h this]
  obtain q rec where "chained (pl_sha256 example_platform) [] [q]" "prefix (record_line q) (file_content (pr_audit (gs_world (po_shared P))))"
    "attested_seal example_platform (rn_cfg example_running) (loads_of example_platform P) rec q"
    by (auto simp: order_ok_def example_storable [OF P(2)] list_all2_Cons1)
  moreover have "pl_sha256 example_platform = example_sha" by (simp add: example_platform_def)
  ultimately show ?thesis using P(1) h example_stamped [OF P(2)] by metis
qed

theorem concurrent_log_verifies_witness:
  "\<exists>P q. inter_run (process_thread example_platform (rn_gateway example_running)) process_env (snd example_wired) P \<and>
     length (po_history P) = 4 \<and> file_content (pr_audit (gs_world (po_shared P))) = record_line q \<and> chained example_sha [] [q] \<and>
     rec_PolicyBundle q = Some example_name"
proof -
  obtain P x where P: "inter_run (process_thread example_platform (rn_gateway example_running)) process_env (snd example_wired) P"
    "po_requests P = [(example_goroutine, Done x)]"
    and h: "po_history P = [(0, EResolve ''sit'' (Inr example_subject)), (0, EDecide example_decision_request (Inr example_decision)),
       (0, EAppend (action_record time_zero example_subject example_action example_decision RecordOutcomeAllowed) None)] @
       (0, ECall ''crm'' example_tool_call (Inr zero_ToolResult)) # []"
    using example_interleaving by blast
  obtain q rec where "file_content (pr_audit (gs_world (po_shared P))) = record_line q" "chained (pl_sha256 example_platform) [] [q]"
    "attested_seal example_platform (rn_cfg example_running) (loads_of example_platform P) rec q"
    using concurrent_log_verifies [OF example_runServe P(1) example_log_empty] unfolding h
    by (auto simp: example_storable [OF P(2)] list_all2_Cons1)
  moreover have "pl_sha256 example_platform = example_sha" by (simp add: example_platform_def)
  ultimately show ?thesis using P h example_stamped [OF P(2)] by (intro exI [of _ P] exI [of _ q]) simp
qed

end
