(* ===== verification/HD_Main.thy ===== *)
theory HD_Main
  imports HD_System HD_PolicyCmd HD_Lifecycle
begin

text \<open>
  \<^verbatim>\<open>main\<close> of \<^verbatim>\<open>cmd/helmdeep-gateway/main.go\<close>: the command line, from the arguments to a serving gateway or an exit status, what is
  printed, the error and the files. An exit status is also what a command ends with that returns.
\<close>

datatype ('pq, 'x) main_result =
    Serving "('pq, 'x) running" "('pq, 'x) proc gw_state"
  | Exited int "string list" "error option" files

definition serve_flags :: flag_set where
  "serve_flags = [(''config'', StringFlag, ''config.yaml''), (''dev-insecure'', BoolFlag, ''false'')]"

definition verify_chain_flags :: flag_set where
  "verify_chain_flags = [(''config'', StringFlag, ''config.yaml'')]"

definition serve_command ::
  "map_order \<Rightarrow> ('pq, 'keys, 'x) platform \<Rightarrow> string list \<Rightarrow> 'x \<Rightarrow> files \<Rightarrow> ('pq, 'x) main_result" where
  "serve_command ord pl args x files =
     (case flag_Parse serve_flags args of
        FlagExit status \<Rightarrow> Exited status [] None files
      | Flags vals \<Rightarrow>
          (case runServe ord pl (flag_value vals ''config'') (flag_value vals ''dev-insecure'' = ''true'') x of
             Inl err \<Rightarrow> Exited 1 [] (Some err) files
           | Inr (r, s) \<Rightarrow> Serving r s))"

text \<open>The reports of \<^verbatim>\<open>Verify\<close>, without the texts of the errors of the system and of \<^verbatim>\<open>encoding/json\<close>; the dash is its three bytes.\<close>

definition dash :: string where
  "dash = [CHR 0xE2, CHR 0x80, CHR 0x94]"

definition verify_error_text :: "verify_error \<Rightarrow> error" where
  "verify_error_text e =
     (case e of
        NoFile \<Rightarrow> ''open audit log: ''
      | NotValidJSON n \<Rightarrow> ''line '' @ show_nat n @ '': not valid JSON: ''
      | PrevHashMismatch n got want \<Rightarrow>
          ''line '' @ show_nat n @ '': prev_hash '' @ quoteq got @ '' does not match the hash of the previous record '' @ quoteq want @
          '' '' @ dash @ '' chain is broken''
      | HashError n err \<Rightarrow> ''line '' @ show_nat n @ '': '' @ err
      | HashMismatch n got want \<Rightarrow>
          ''line '' @ show_nat n @ '': record hash '' @ quoteq got @ '' does not match its own contents (recomputed '' @ quoteq want @
          '') '' @ dash @ '' record was altered after being written'')"

definition verify_chain_command ::
  "('pq, 'keys, 'x) platform \<Rightarrow> string list \<Rightarrow> files \<Rightarrow> ('pq, 'x) main_result" where
  "verify_chain_command pl args files =
     (case flag_Parse verify_chain_flags args of
        FlagExit status \<Rightarrow> Exited status [] None files
      | Flags vals \<Rightarrow>
          (case runVerifyChain pl (flag_value vals ''config'') of
             ChainError err \<Rightarrow> Exited 1 [] (Some err) files
           | ChainBroken e \<Rightarrow> Exited 1 [] (Some (''chain is broken: '' @ verify_error_text e)) files
           | ChainIntact path \<Rightarrow> Exited 0 [''chain intact: '' @ path] None files))"

definition policy_command :: "signing_lib \<Rightarrow> policy_env \<Rightarrow> string list \<Rightarrow> files \<Rightarrow> ('pq, 'x) main_result" where
  "policy_command lib env args files =
     (case runPolicy lib env args files of
        (Exits status, out, files') \<Rightarrow> Exited status out None files'
      | (Returns None, out, files') \<Rightarrow> Exited 0 out None files'
      | (Returns (Some err), out, files') \<Rightarrow> Exited 1 out (Some err) files')"

text \<open>The arguments after the name of the program; an unknown or missing command prints the usage.\<close>

definition gateway_main ::
  "map_order \<Rightarrow> ('pq, 'keys, 'x) platform \<Rightarrow> signing_lib \<Rightarrow> policy_env \<Rightarrow> string list \<Rightarrow> 'x \<Rightarrow> files \<Rightarrow> ('pq, 'x) main_result" where
  "gateway_main ord pl lib env args x files =
     (case args of
        [] \<Rightarrow> Exited 1 [] None files
      | cmd # rest \<Rightarrow>
          if cmd = ''version'' then Exited 0 [''helmdeep-gateway '' @ serve_version] None files
          else if cmd = ''serve'' then serve_command ord pl rest x files
          else if cmd = ''verify-chain'' then verify_chain_command pl rest files
          else if cmd = ''policy'' then policy_command lib env rest files
          else Exited 1 [] None files)"

text \<open>How \<^verbatim>\<open>serve\<close> ends once it serves: what \<^verbatim>\<open>server.Serve\<close> returns is what the command returns.\<close>

definition serve_exit :: "error option \<Rightarrow> select_case \<Rightarrow> files \<Rightarrow> ('pq, 'x) main_result" where
  "serve_exit shutdown chosen files =
     (case Server_Serve shutdown chosen of
        None \<Rightarrow> Exited 0 [] None files
      | Some err \<Rightarrow> Exited 1 [] (Some err) files)"

section \<open>What the exit says\<close>

text \<open>A gateway that was interrupted exits with 0 unless the shutdown failed; one whose listener failed with 1 and the reason.\<close>

lemma serve_exit_cases:
  "serve_exit None ContextDone files = Exited 0 [] None files"
  "serve_exit (Some err) ContextDone files = Exited 1 [] (Some err) files"
  "serve_exit shutdown (ListenerEnded (ListenError err)) files = Exited 1 [] (Some err) files"
  by (simp_all add: serve_exit_def Server_Serve_def Server_Shutdown_def)

text \<open>A gateway serves only by \<^verbatim>\<open>serve\<close>, and only the flag lets static tokens in.\<close>

lemma main_serves:
  assumes "gateway_main ord pl lib env args x files = Serving r s"
  obtains rest vals where "args = ''serve'' # rest" "flag_Parse serve_flags rest = Flags vals"
    "runServe ord pl (flag_value vals ''config'') (flag_value vals ''dev-insecure'' = ''true'') x = Inr (r, s)"
  using assms
  by (auto simp: gateway_main_def serve_command_def verify_chain_command_def policy_command_def
      split: list.splits if_splits parsed_flags.splits sum.splits prod.splits chain_report.splits exit.splits option.splits)

text \<open>Without the flag there are no static tokens.\<close>

lemma serve_without_flag:
  assumes "gateway_main ord pl lib env [''serve'', ''-config'', path] x files = Serving r s"
  shows "idc_StaticTokens (cfg_Identity (rn_cfg r)) = []"
proof -
  have "flag_Parse serve_flags [''-config'', path] = Flags ((flag_defaults serve_flags)(''config'' \<mapsto> path))"
    by (simp add: flag_Parse_def serve_flags_def string_flag flag_kind_of_def del: parse_flags.simps(2))
  then have "runServe ord pl path False x = Inr (r, s)"
    using assms by (auto elim!: main_serves simp: flag_value_def flag_defaults_def serve_flags_def)
  from serve_gate [OF this] show ?thesis by simp
qed

text \<open>\<^verbatim>\<open>verify-chain\<close> exits with 0 exactly for a log that can be opened and whose records are chained from its first line.\<close>

lemma verify_chain_exit:
  assumes "loadConfig (pl_files pl) (pl_yaml pl) path = Inr cfg"
    and "NewFileStore (pl_open_io pl) (cfg_AuditPath cfg) (pl_audit_file pl (cfg_AuditPath cfg)) = Inr store" "fs_file store = Some c"
  shows "(\<exists>out err files'. gateway_main ord pl lib env [''verify-chain'', ''-config'', path] x files = Exited 0 out err files') \<longleftrightarrow>
    (\<exists>rs. file_records c = Some rs \<and> chained (pl_sha256 pl) [] rs)"
proof -
  have "flag_Parse verify_chain_flags [''-config'', path] = Flags ((flag_defaults verify_chain_flags)(''config'' \<mapsto> path))"
    by (simp add: flag_Parse_def verify_chain_flags_def string_flag flag_kind_of_def del: parse_flags.simps(2))
  then show ?thesis
    using assms Verify_None_iff [of "pl_sha256 pl" store]
    by (auto simp: gateway_main_def verify_chain_command_def runVerifyChain_def flag_value_def split: option.splits)
qed

section \<open>The probes of a running gateway\<close>

text \<open>
  A gateway that serves has a policy, whatever was reloaded, so its readiness is that of its audit log: it is ready if the disk
  answers in time and without an error, and otherwise the audit log is the one check that is named.
\<close>

lemma running_readiness:
  assumes "runServe ord pl path devInsecure x = Inr (r, s)" "served pl r s disks t"
  shows "d < checkTimeout \<Longrightarrow> fst (Healthz race None (serve_checks (withTimeout None) (Some d) IoOK (gs_world t)) ''GET'') = fst (Livez ''GET'')"
    and "fst (Healthz race None (serve_checks (withTimeout None) None io (gs_world t)) ''GET'') =
      health_writeJSON 503 (json_of_response ''unhealthy'' [''audit''])"
proof -
  have "OPADecider_Ready (decider (pr_policy (gs_world t))) = None"
    using served_governed [OF assms] governed_ready by blast
  moreover have "0 < checkTimeout" by (simp add: checkTimeout_def)
  ultimately show "d < checkTimeout \<Longrightarrow>
      fst (Healthz race None (serve_checks (withTimeout None) (Some d) IoOK (gs_world t)) ''GET'') = fst (Livez ''GET'')"
    "fst (Healthz race None (serve_checks (withTimeout None) None io (gs_world t)) ''GET'') =
      health_writeJSON 503 (json_of_response ''unhealthy'' [''audit''])"
    by (simp_all add: Healthz_def Livez_def methodGuard_def serve_checks_def runCheck_def withTimeout_def FileStore_Check_def)
qed

text \<open>The probes are reachable beside the endpoint, wherever a well-formed configuration puts it.\<close>

lemma routes_separate:
  assumes "config_ok cfg"
  shows "mux_route cfg ''/livez'' = ToLivez" "mux_route cfg ''/healthz'' = ToHealthz" "mux_route cfg (cfg_Path cfg) = ToMCP"
  using assms by (auto simp: mux_route_def config_ok_def)

end
