(* ===== verification/HD_Commands.thy ===== *)
theory HD_Commands
  imports HD_DevIssuer HD_MockUpstream Go_Flag HD_Lifecycle
begin

text \<open>
  The two commands of a development stack beside the gateway: \<^verbatim>\<open>cmd/dev-issuer/main.go\<close>, which starts the development issuer of
  \<^verbatim>\<open>internal/devissuer\<close> with a fresh key, and \<^verbatim>\<open>cmd/mock-upstream/main.go\<close>, which serves one profile of the mock upstream. A command is
  a function of its arguments that gives the server it starts or how it ends; log output is not modelled. The key functions of the
  JWT library are the fields of \<open>jwk_lib\<close>.
\<close>

section \<open>A new issuer\<close>

definition devissuer_KeyID :: string where
  "devissuer_KeyID = ''dev-1''"

record ('raw, 'key, 'keys) jwk_lib =
  jk_GenerateKey :: "error + 'raw"
  jk_Import :: "'raw \<Rightarrow> error + 'key"
  jk_SetKeyID :: "'key \<Rightarrow> string \<Rightarrow> error + 'key"
  jk_SetES256 :: "'key \<Rightarrow> error + 'key"
  jk_PublicKeyOf :: "'key \<Rightarrow> error + 'key"
  jk_AddKey :: "'key \<Rightarrow> error + 'keys"

definition wrapf :: "string \<Rightarrow> error + 'a \<Rightarrow> error + 'a" where
  "wrapf context r = (case r of Inl err \<Rightarrow> Inl (context @ '': '' @ err) | Inr x \<Rightarrow> Inr x)"

definition and_then :: "error + 'a \<Rightarrow> ('a \<Rightarrow> error + 'b) \<Rightarrow> error + 'b" where
  "and_then r k = (case r of Inl err \<Rightarrow> Inl err | Inr x \<Rightarrow> k x)"

definition Issuer_New :: "('raw, 'key, 'keys) jwk_lib \<Rightarrow> string \<Rightarrow> error + ('key, 'keys) Issuer" where
  "Issuer_New lib aud =
     and_then (wrapf ''generate signing key'' (jk_GenerateKey lib)) (\<lambda>raw.
     and_then (wrapf ''import signing key'' (jk_Import lib raw)) (\<lambda>priv.
     and_then (wrapf ''set key id'' (jk_SetKeyID lib priv devissuer_KeyID)) (\<lambda>priv.
     and_then (wrapf ''set key algorithm'' (jk_SetES256 lib priv)) (\<lambda>priv.
     and_then (wrapf ''derive public key'' (jk_PublicKeyOf lib priv)) (\<lambda>pub.
     and_then (wrapf ''set public key id'' (jk_SetKeyID lib pub devissuer_KeyID)) (\<lambda>pub.
     and_then (wrapf ''set public key algorithm'' (jk_SetES256 lib pub)) (\<lambda>pub.
     and_then (wrapf ''build JWKS'' (jk_AddKey lib pub)) (\<lambda>keys.
     Inr \<lparr>is_private = priv, is_public = keys, is_audience = aud\<rparr>))))))))"

definition PublicKeySet :: "('key, 'keys) Issuer \<Rightarrow> 'keys" where
  "PublicKeySet i = is_public i"

text \<open>The system's randomness is the argument \<open>rand\<close>: some number of bytes, or an error.\<close>

definition devissuer_randomHex :: "(nat \<Rightarrow> error + string) \<Rightarrow> nat \<Rightarrow> error + string" where
  "devissuer_randomHex rand n =
     (case rand n of Inl err \<Rightarrow> Inl (''generate random id: '' @ err) | Inr b \<Rightarrow> Inr (hex_encode b))"

section \<open>\<^verbatim>\<open>dev-issuer\<close>\<close>

definition dev_issuer_flags :: flag_set where
  "dev_issuer_flags =
     [(''addr'', StringFlag, '':8444''), (''audience'', StringFlag, ''helmdeep-gateways''),
      (''sit-ttl'', DurationFlag, ''15m0s''), (''exchange-ttl'', DurationFlag, ''1m0s''), (''version'', BoolFlag, ''false'')]"

datatype ('key, 'keys) dev_issuer_result =
    IssuerListening string "('key, 'keys) IssuerServer"
  | IssuerExit int "string list" "error option"

definition dev_issuer_main :: "('raw, 'key, 'keys) jwk_lib \<Rightarrow> string list \<Rightarrow> ('key, 'keys) dev_issuer_result" where
  "dev_issuer_main lib args =
     (case flag_Parse dev_issuer_flags args of
        FlagExit status \<Rightarrow> IssuerExit status [] None
      | Flags vals \<Rightarrow>
          if flag_value vals ''version'' = ''true'' then IssuerExit 0 [''dev-issuer dev''] None
          else
            (case Issuer_New lib (flag_value vals ''audience'') of
               Inl err \<Rightarrow> IssuerExit 1 [] (Some (''dev-issuer: '' @ err))
             | Inr issuer \<Rightarrow>
                 IssuerListening (flag_value vals ''addr'')
                   (NewIssuerServer issuer (flag_duration vals ''sit-ttl'') (flag_duration vals ''exchange-ttl''))))"

text \<open>How the command ends once it listens; it has five seconds for the shutdown.\<close>

definition dev_issuer_end :: "error option \<Rightarrow> select_case \<Rightarrow> ('key, 'keys) dev_issuer_result" where
  "dev_issuer_end shutdown chosen =
     (case chosen of
        ContextDone \<Rightarrow>
          (case shutdown of
             Some err \<Rightarrow> IssuerExit 1 [] (Some (''dev-issuer: shutdown: '' @ err))
           | None \<Rightarrow> IssuerExit 0 [] None)
      | ListenerEnded ErrServerClosed \<Rightarrow> IssuerExit 0 [] None
      | ListenerEnded (ListenError err) \<Rightarrow> IssuerExit 1 [] (Some (''dev-issuer: '' @ err)))"

definition hostForLog :: "string \<Rightarrow> string" where
  "hostForLog addr = (if addr \<noteq> [] \<and> hd addr = CHR '':'' then ''localhost'' @ addr else addr)"

section \<open>\<^verbatim>\<open>mock-upstream\<close>\<close>

text \<open>\<open>names\<close> are the names of the profiles in the order the runtime visits them.\<close>

definition profileNames :: "string list \<Rightarrow> string" where
  "profileNames names = ''['' @ join_with '' '' names @ '']''"

definition mock_upstream_flags :: flag_set where
  "mock_upstream_flags = [(''addr'', StringFlag, '':9000''), (''profile'', StringFlag, []), (''path'', StringFlag, ''/mcp'')]"

datatype mock_upstream_result = MockListening string string MockServer | MockExit int "error option"

definition mock_upstream_main :: "string list \<Rightarrow> mock_upstream_result" where
  "mock_upstream_main args =
     (case flag_Parse mock_upstream_flags args of
        FlagExit status \<Rightarrow> MockExit status None
      | Flags vals \<Rightarrow>
          (case NewHandler (flag_value vals ''profile'') of
             Inl err \<Rightarrow> MockExit 1 (Some err)
           | Inr handler \<Rightarrow> MockListening (flag_value vals ''addr'') (flag_value vals ''path'') handler))"

text \<open>However \<^verbatim>\<open>ListenAndServe\<close> ends, \<^verbatim>\<open>log.Fatal\<close> makes it an exit with status 1.\<close>

definition mock_upstream_end :: "listen_end \<Rightarrow> mock_upstream_result" where
  "mock_upstream_end e =
     (case e of
        ErrServerClosed \<Rightarrow> MockExit 1 (Some ''http: Server closed'')
      | ListenError err \<Rightarrow> MockExit 1 (Some err))"

section \<open>Lemmas\<close>

lemma durations: "parseDuration ''15m0s'' = Inr (15 * time_Minute)" "parseDuration ''1m0s'' = Inr time_Minute"
proof -
  have "parse_term o1 ''15m0s'' = Inr (900000000000, ''0s'')" "parse_term o1 ''1m0s'' = Inr (60000000000, ''0s'')"
    "parse_term o1 ''0s'' = Inr (0, [])" for o1
    by (simp_all add: parse_term_def unit_ns_def unit_char_def is_digit_def digits_val_def digit_val_def Let_def less_eq_char_def)
  then show "parseDuration ''15m0s'' = Inr (15 * time_Minute)" "parseDuration ''1m0s'' = Inr time_Minute"
    by (simp_all add: parseDuration_def parse_terms.simps [of _ _ "_ # _"] parse_terms.simps [of _ _ "[]"] Let_def time_Minute_def nsec_per_sec_def)
qed

lemma main_listens:
  assumes "dev_issuer_main lib args = IssuerListening addr srv"
  obtains vals issuer where "flag_Parse dev_issuer_flags args = Flags vals" "Issuer_New lib (flag_value vals ''audience'') = Inr issuer"
    "addr = flag_value vals ''addr''"
    "srv = NewIssuerServer issuer (flag_duration vals ''sit-ttl'') (flag_duration vals ''exchange-ttl'')"
  using assms by (auto simp: dev_issuer_main_def split: parsed_flags.splits if_splits sum.splits)

lemma Issuer_New_audience: "Issuer_New lib aud = Inr i \<Longrightarrow> is_audience i = aud"
  by (auto simp: Issuer_New_def and_then_def split: sum.splits)

text \<open>Without arguments: the audience the gateway's documentation names, sessions of 15 minutes and exchanged tokens of one.\<close>

lemma dev_issuer_defaults:
  assumes "dev_issuer_main lib [] = IssuerListening addr srv"
  shows "addr = '':8444'' \<and> is_audience (isv_issuer srv) = ''helmdeep-gateways'' \<and>
    isv_sitTTL srv = 15 * time_Minute \<and> isv_exchangeTTL srv = time_Minute"
proof -
  from assms obtain vals issuer where m: "flag_Parse dev_issuer_flags [] = Flags vals" "Issuer_New lib (flag_value vals ''audience'') = Inr issuer"
    "addr = flag_value vals ''addr''"
    "srv = NewIssuerServer issuer (flag_duration vals ''sit-ttl'') (flag_duration vals ''exchange-ttl'')"
    by (rule main_listens)
  then have "vals = flag_defaults dev_issuer_flags" by (simp add: flag_Parse_def)
  with m Issuer_New_audience [OF m(2)] show ?thesis
    by (simp add: NewIssuerServer_def flag_duration_def flag_value_def flag_defaults_def dev_issuer_flags_def durations)
qed

text \<open>\<^verbatim>\<open>mock-upstream\<close> serves only a profile there is.\<close>

lemma mock_upstream_profile:
  assumes "mock_upstream_main args = MockListening addr path srv"
  obtains vals tools where "flag_Parse mock_upstream_flags args = Flags vals" "Profiles (flag_value vals ''profile'') = Some tools"
    "srv = NewCustomHandler tools"
  using assms by (auto simp: mock_upstream_main_def NewHandler_def NewCustomHandler_def split: parsed_flags.splits sum.splits option.splits)

section \<open>Properties\<close>

text \<open>C32. A development session works end to end: if \<^verbatim>\<open>dev-issuer\<close> was started, with whatever flags, and its \<^verbatim>\<open>/issue\<close> endpoint answers a posted
  request with success, then the answer carries a token, with the configured lifetime, that a gateway which
  verifies with the published key set resolves exactly when its audience is the configured one and the time lies within that
  lifetime, and then to exactly the agent, delegation chain, scopes and version that were posted.\<close>

theorem dev_session_resolves:
  assumes "dev_issuer_main lib args = IssuerListening addr srv"
    and lib: "jwt_library jwt_parse jwt_sign (is_private (isv_issuer srv)) (PublicKeySet (isv_issuer srv))"
    and utf: "list_all (\<lambda>x. coerce_utf8 x = x) (agent # version # chain @ scope)"
    and "iq_Path r = ''/issue''" "iq_Method r = ''POST''"
    and "iq_Body r = json_text (JObj [(''agent'', JStr agent), (''delegation_chain'', JArr (map JStr chain)),
           (''scope'', JArr (map JStr scope)), (''agent_version'', JStr version)])"
    and "ip_Status (IssuerServer_ServeHTTP jwt_parse jwt_sign keys_json rnd srv t0 r) = 200"
  shows "\<exists>token vals. flag_Parse dev_issuer_flags args = Flags vals \<and>
    IssuerServer_ServeHTTP jwt_parse jwt_sign keys_json rnd srv t0 r =
      writeJSON 200 (json_of_issueResponse token (whole_seconds (flag_duration vals ''sit-ttl''))) \<and>
    (\<forall>aud now subject.
       JWTResolver_Resolve jwt_parse (NewJWTResolver (PublicKeySet (isv_issuer srv)) aud) now token = Inr subject \<longleftrightarrow>
       aud = flag_value vals ''audience'' \<and> jwt_live t0 (time_add t0 (flag_duration vals ''sit-ttl'')) now \<and>
       subject = \<lparr>sub_ID = agent, sub_Kind = SubjectKindAgent, sub_AgentVersion = version,
         sub_DelegationChain = chain, sub_Scopes = scope, sub_TrustLevel = 0\<rparr>)"
proof -
  from assms(1) obtain vals issuer where m: "flag_Parse dev_issuer_flags args = Flags vals"
    "Issuer_New lib (flag_value vals ''audience'') = Inr issuer"
    "srv = NewIssuerServer issuer (flag_duration vals ''sit-ttl'') (flag_duration vals ''exchange-ttl'')"
    by (rule main_listens)
  note resp = issue_over_http [OF utf assms(4-6), of jwt_parse jwt_sign keys_json rnd srv t0]
  from resp assms(7) obtain token where
    sit: "IssueSIT jwt_sign rnd (isv_issuer srv) agent chain scope version (isv_sitTTL srv) t0 = Inr token"
    by (auto simp: writeJSONError_def writeJSON_def split: sum.splits)
  have srv: "isv_sitTTL srv = flag_duration vals ''sit-ttl''" "is_audience (isv_issuer srv) = flag_value vals ''audience''"
    using m(3) Issuer_New_audience [OF m(2)] by (simp_all add: NewIssuerServer_def)
  from SIT_resolves_iff [OF lib [unfolded PublicKeySet_def] sit utf] m(1) resp sit show ?thesis
    unfolding PublicKeySet_def srv by auto
qed

definition example_jwk :: "(unit, unit, unit) jwk_lib" where
  "example_jwk = \<lparr>jk_GenerateKey = Inr (), jk_Import = (\<lambda>_. Inr ()), jk_SetKeyID = (\<lambda>_ _. Inr ()), jk_SetES256 = (\<lambda>_. Inr ()),
     jk_PublicKeyOf = (\<lambda>_. Inr ()), jk_AddKey = (\<lambda>_. Inr ())\<rparr>"

lemma example_args:
  "flag_Parse dev_issuer_flags [''-audience'', ''gw'', ''-sit-ttl'', ''1m0s''] =
     Flags ((flag_defaults dev_issuer_flags)(''audience'' \<mapsto> ''gw'', ''sit-ttl'' \<mapsto> ''1m0s''))"
  by (simp add: flag_Parse_def dev_issuer_flags_def parse_value_flag flag_kind_of_def accepts_value_def durations del: parse_flags.simps(2))

lemma example_main:
  "dev_issuer_main example_jwk [''-audience'', ''gw'', ''-sit-ttl'', ''1m0s''] =
     IssuerListening '':8444'' (NewIssuerServer example_issuer time_Minute time_Minute)"
  unfolding dev_issuer_main_def example_args parsed_flags.case
  by (simp add: flag_value_def flag_defaults_def dev_issuer_flags_def flag_duration_def durations
      Issuer_New_def and_then_def wrapf_def example_jwk_def example_issuer_def)

theorem dev_session_resolves_witness:
  "\<exists>token. JWTResolver_Resolve example_parse (NewJWTResolver () ''gw'') time_zero token =
     Inr \<lparr>sub_ID = ''agent:a'', sub_Kind = SubjectKindAgent, sub_AgentVersion = ''1'', sub_DelegationChain = [''user:u''],
       sub_Scopes = [''pay''], sub_TrustLevel = 0\<rparr>"
proof -
  let ?srv = "NewIssuerServer example_issuer time_Minute time_Minute"
  let ?r = "\<lparr>iq_Method = ''POST'', iq_Path = ''/issue'', iq_RawQuery = [], iq_MediaType = (''application/json'', None),
    iq_Body = json_text (JObj [(''agent'', JStr ''agent:a''), (''delegation_chain'', JArr (map JStr [''user:u''])),
           (''scope'', JArr (map JStr [''pay''])), (''agent_version'', JStr ''1'')])\<rparr>"
  have utf: "list_all (\<lambda>x. coerce_utf8 x = x) (''agent:a'' # ''1'' # [''user:u''] @ [''pay''])"
    by (simp add: coerce_ascii byte_in_def)
  have issuer: "isv_issuer ?srv = example_issuer" "isv_sitTTL ?srv = time_Minute" by (simp_all add: NewIssuerServer_def)
  have status: "ip_Status (IssuerServer_ServeHTTP example_parse example_sign (\<lambda>_. None) (Inr ''0'') ?srv time_zero ?r) = 200"
    using issue_over_http [OF utf, of ?r example_parse example_sign "\<lambda>_. None" "Inr ''0''" ?srv time_zero] example_issue
    by (simp add: issuer writeJSON_def del: json_text.simps)
  have "jwt_library example_parse example_sign (is_private (isv_issuer ?srv)) (PublicKeySet (isv_issuer ?srv))"
    using example_library by (simp add: issuer PublicKeySet_def)
  from dev_session_resolves [OF example_main this utf _ _ _ status]
  obtain token vals where "flag_Parse dev_issuer_flags [''-audience'', ''gw'', ''-sit-ttl'', ''1m0s''] = Flags vals"
    "JWTResolver_Resolve example_parse (NewJWTResolver () aud) now token = Inr subject \<longleftrightarrow>
       aud = flag_value vals ''audience'' \<and> jwt_live time_zero (time_add time_zero (flag_duration vals ''sit-ttl'')) now \<and>
       subject = \<lparr>sub_ID = ''agent:a'', sub_Kind = SubjectKindAgent, sub_AgentVersion = ''1'',
         sub_DelegationChain = [''user:u''], sub_Scopes = [''pay''], sub_TrustLevel = 0\<rparr>" for aud now subject
    by auto
  with example_live show ?thesis
    by (auto simp: example_args flag_value_def flag_duration_def durations intro!: exI [of _ token])
qed

end
