(* ===== verification/Spec2Isabelle.thy ===== *)
theory Spec2Isabelle
  imports HD_Registries HD_Usage HD_Provenance HD_Obligations HD_Audit HD_Identity HD_DevIssuer HD_Policy HD_Mcp HD_Gateway HD_Mediation
    HD_Server HD_Client HD_MockUpstream HD_PolicyService HD_Bundles HD_PolicyCmd HD_ModelGW HD_Health HD_Config HD_Serve HD_Frame HD_System
    HD_Interleaving HD_Threads HD_Concurrent HD_Lifecycle HD_Deployment HD_Main HD_Commands
begin

text \<open>
  A verification development for HelmDeep, a gateway between AI agents and the tools and models they call.

  \<^bold>\<open>The program.\<close> An agent sends MCP requests over HTTP to the gateway (\<^verbatim>\<open>pkg/mcp/server.go\<close>). For a tool call the gateway
  (\<^verbatim>\<open>internal/gateway\<close>) resolves the credential to a subject (\<^verbatim>\<open>pkg/identity\<close>), looks the agent and the tool up in the
  registries (\<^verbatim>\<open>pkg/agentregistry\<close>, \<^verbatim>\<open>pkg/toolregistry\<close>), counts the call and labels its arguments with their provenance, asks the policy
  (\<^verbatim>\<open>pkg/policy\<close>), appends the decision to a hash-chained audit log (\<^verbatim>\<open>pkg/audit\<close>), and only then exchanges the
  credential for one scoped to the call and forwards it to an upstream (\<^verbatim>\<open>pkg/mcp/client.go\<close>), applying the policy's obligations to the
  answer. The policy service (\<^verbatim>\<open>pkg/policyservice\<close>) signs and verifies policy bundles and stamps audit records with the
  bundle in force. The model gateway (\<^verbatim>\<open>pkg/modelgw\<close>) mediates model calls in the same way. \<^verbatim>\<open>cmd/helmdeep-gateway\<close> reads the
  configuration and wires all this together; \<^verbatim>\<open>internal/devissuer\<close>, \<^verbatim>\<open>internal/mockupstream\<close> and \<^verbatim>\<open>internal/health\<close> are the
  token issuer and upstream of the quickstart and the probes.

  \<^bold>\<open>The language and its library.\<close>
  \<^item> \<open>HD_Prelude\<close>: Go maps as sorted association lists, strings as bytes, \<^verbatim>\<open>strconv\<close> and \<^verbatim>\<open>%q\<close>, the state monad with a weakest
    precondition calculus (collection \<open>wp_simps\<close>) and operations that write their effects down.
  \<^item> \<open>Go_Json\<close>, \<open>Go_Json_Text\<close>, \<open>Go_Json_Indent\<close>: \<^verbatim>\<open>encoding/json\<close>: values, decoding into structs and \<^verbatim>\<open>any\<close> (numbers by way of
    \<^verbatim>\<open>float64\<close>), the bytes written and the scanner with its limit of 10000 levels; reading what was written gives it back, and nothing
    deeper than the limit is read. \<open>Go_Time\<close>, \<open>Go_Duration\<close>, \<open>Go_Base64\<close>, \<open>Go_Url\<close>, \<open>Go_Flag\<close>: times in RFC 3339, durations, base64, form
    encoding and command-line flags, as far as they are used.

  \<^bold>\<open>The components.\<close>
  \<^item> \<open>HD_Types\<close>, \<open>HD_Record_Text\<close>: \<^verbatim>\<open>pkg/types\<close> with the JSON of its tags and its round trip.
  \<^item> \<open>HD_Registries\<close>: the tool registry, the agent registry and the model catalog, by the locale \<open>catalog\<close>.
  \<^item> \<open>HD_Usage\<close>, \<open>HD_Provenance\<close>, \<open>HD_Obligations\<close>: the rate window and its bound, the provenance cache as a refinement of
    the latest recording, redaction.
  \<^item> \<open>HD_Audit\<close>: the log file byte by byte, with every failure of the disk; it represents a chained list of records (\<open>store_rep\<close>).
  \<^item> \<open>HD_Identity\<close>, \<open>HD_DevIssuer\<close>: resolvers (locale \<open>resolver\<close>), the credential broker, the issuer and its HTTP endpoints.
  \<^item> \<open>HD_Policy\<close>: the decision point, which fails closed; loading obeys the locale \<open>policy_loader\<close>.
  \<^item> \<open>HD_Mcp\<close>, \<open>HD_Server\<close>, \<open>HD_Client\<close>, \<open>HD_MockUpstream\<close>: the tool index and egress control, both ends of the protocol and the mock
    upstream; the two ends fit. \<open>HD_Lifecycle\<close>: serving until a listener fails or a signal comes, and the shutdown.
  \<^item> \<open>HD_Gateway\<close>: the gateway itself. \<open>HD_Mediation\<close>: the protocol of a mediated call as a step relation, that \<^verbatim>\<open>CallTool\<close> refines
    it, and what follows.
  \<^item> \<open>HD_Interleaving\<close>: goroutines as threads of atomic steps on a shared state, their interleavings, and rely-guarantee reasoning for any
    number of them (locale \<open>rely_guarantee\<close>). \<open>HD_Threads\<close>: a request as such a thread, cut where the code releases a lock or calls a
    dependency; run alone it is the function of \<open>HD_Gateway\<close>, and among others it still keeps the protocol (locale \<open>audit_thread\<close>).
  \<^item> \<open>HD_PolicyService\<close>, \<open>HD_Bundles\<close>, \<open>HD_PolicyCmd\<close>: inventories, signing and verification, the verifying loader (locale
    \<open>verifying_loader\<close>, a sublocale of \<open>policy_loader\<close>), interleavings of concurrent loads, the stamping store, and the commands.
  \<^item> \<open>HD_ModelGW\<close>: routes, mediation and fallback, the two providers on the bytes they exchange (locale \<open>model_provider\<close>).
  \<^item> \<open>HD_Health\<close>, \<open>HD_Config\<close>: the probes, with the time checks take; the configuration file and its checks.
  \<^item> \<open>HD_Serve\<close>, \<open>HD_Main\<close>: the start of the gateway from its configuration, a running gateway as a step relation (requests, reloads,
    probes), and the command line. \<open>HD_Frame\<close>: what the gateway keeps of a world that all its dependencies keep (locale
    \<open>gateway_frame\<close>). \<open>HD_System\<close>: of all the loads the running gateway makes, at its start and at reloads, the policy in force is that of the latest the configuration
    lets be made (\<open>governed_by\<close>); its log only grows, and every upstream call is on record. \<open>HD_Concurrent\<close>: the same for any number of requests and reloads that interleave (locale \<open>gateway_guarantee\<close>), with one append to the
    log file at a time. \<open>HD_Commands\<close>: the commands of the development issuer and the mock upstream. \<open>HD_Deployment\<close>: an example deployment, in which the hypotheses of these properties hold.

  \<^bold>\<open>How the code is modelled.\<close> Structs are records, enumerations constants or datatypes, and a function of the source is a
  function on the same arguments that returns the new state beside its result. Errors are \<open>Inl\<close> or \<open>Some\<close> of their text;
  left out are only the texts that come from the system, from \<^verbatim>\<open>encoding/json\<close> and \<^verbatim>\<open>encoding/base64\<close>. Interfaces a component is wired to are fields of
  its record, operations in the state monad over a world. What is not in the repository is a parameter, with what is
  relied on as named hypotheses: SHA-256, Ed25519, PEM and X.509 (\<open>ed25519_pair\<close>, \<open>codecs_ok\<close>), the token library (\<open>jwt_library\<close>), the
  policy evaluator and compiler, YAML, the network, the disk and the clock. Methods that hold a mutex are one step. A request
  is one step of the running gateway of \<open>HD_Serve\<close> and \<open>HD_System\<close>, and a thread of such steps in \<open>HD_Threads\<close> and \<open>HD_Concurrent\<close>. The environment of a load holds the files that are
  verified and, apart from them, what the compiler then reads and makes of the directory, as the code reads it twice. The order in which Go ranges over a map is an argument where the result can depend on it. Numbers decoded
  into \<^verbatim>\<open>any\<close> are the shortest literals of their \<^verbatim>\<open>float64\<close>; integers of Go are \<open>int\<close> with their bounds stated where they
  matter.

  \<^bold>\<open>Bounds.\<close> All functions are total: loops are structural or have a measure, and no fuel is used. The nesting limit of JSON
  (\<open>max_depth\<close>), the 8 MiB line limit of the log reader (\<open>max_token\<close>), the form size limit and the probe timeout are those of the source and
  its library.

  \<^bold>\<open>Idealised.\<close> Where the two ends of the protocol are joined (\<open>serve_transport\<close>, \<open>mock_transport\<close>), header values arrive as they were
  sent; \<^verbatim>\<open>net/http\<close> trims outer blanks and refuses control characters, so those theorems speak of tool names and credentials without them. A configured path
  on which \<^verbatim>\<open>http.ServeMux\<close> panics, as the empty one, starts in \<open>runServe\<close>. That a log stays verifiable is shown for records that can be read back
  and without failed writes; where it is not so, the properties at the end of \<open>HD_Audit\<close> say.

  \<^bold>\<open>Not modelled.\<close> Log output and usage texts; the sockets of \<^verbatim>\<open>net/http\<close>, whose listening and shutdown end as parameters
  say; the delivery of signals; the generation of keys, which is the library's; cancellation of contexts; the packages
  \<^verbatim>\<open>pkg/sandbox\<close>, \<^verbatim>\<open>pkg/scheduler\<close> and \<^verbatim>\<open>pkg/controlplane\<close>, which hold comments only.
\<close>

end
